(* ===== verification/Prelude.thy ===== *)
theory Prelude
  imports Main "HOL-Library.Word"
begin

text \<open>
  Shared vocabulary of the development: Go's fixed-width integers, run-time panics as
  values, and the three control patterns every component uses (sequencing, loops that
  build a list, loops that thread a state).  A Go function that can panic returns
  \<open>panic + 'a\<close>: \<open>Inl\<close> is the panic that stops the goroutine, \<open>Inr\<close> the ordinary
  result.  A nil-able pointer is an \<open>option\<close>; dereferencing it is \<open>deref\<close>.
\<close>

section \<open>Integers of the source\<close>

type_synonym u32 = "32 word"
type_synonym u64 = "64 word"

text \<open>Go's \<open>int\<close> and \<open>int64\<close> on the 64-bit targets the servers are built for.\<close>

type_synonym go_int = "64 word"

text \<open>The conversion \<open>uint32(x)\<close> of an \<open>int\<close> keeps the low 32 bits.\<close>

definition to_u32 :: "go_int \<Rightarrow> u32" where
  "to_u32 x = ucast x"

lemma unat_to_u32: "unat (to_u32 x) = unat x mod 2 ^ 32"
  by (simp add: to_u32_def unsigned_ucast_eq take_bit_eq_mod)

lemma to_u32_eq_iff: "to_u32 x = to_u32 y \<longleftrightarrow> unat x mod 2 ^ 32 = unat y mod 2 ^ 32"
  by (metis unat_to_u32 word_eq_iff_unsigned)

lemma ucast_to_u32: "unat x < 2 ^ 32 \<Longrightarrow> ucast (to_u32 x) = x"
proof -
  assume "unat x < 2 ^ 32"
  then have "unat (ucast (to_u32 x) :: go_int) = unat x"
    by (simp add: unsigned_ucast_eq unat_to_u32 take_bit_eq_mod)
  then show ?thesis by (metis word_eq_iff_unsigned)
qed

section \<open>Panics as values\<close>

datatype panic =
    NilDereference
  | IndexOutOfRange
  | SliceBounds
  | Panicked string

type_synonym 'a go = "panic + 'a"

definition bind_go :: "'a go \<Rightarrow> ('a \<Rightarrow> 'b go) \<Rightarrow> 'b go" where
  "bind_go m f = (case m of Inl p \<Rightarrow> Inl p | Inr x \<Rightarrow> f x)"

text \<open>\<open>*p\<close> and \<open>p.Field\<close> for a pointer \<open>p\<close>.\<close>

definition deref :: "'a option \<Rightarrow> 'a go" where
  "deref p = (case p of None \<Rightarrow> Inl NilDereference | Some x \<Rightarrow> Inr x)"

text \<open>\<open>xs[i]\<close> and \<open>xs[i:]\<close> with Go's bounds checks.\<close>

definition index_go :: "'a list \<Rightarrow> nat \<Rightarrow> 'a go" where
  "index_go xs i = (if i < length xs then Inr (xs ! i) else Inl IndexOutOfRange)"

definition slice_from :: "'a list \<Rightarrow> nat \<Rightarrow> 'a list go" where
  "slice_from xs i = (if i \<le> length xs then Inr (drop i xs) else Inl SliceBounds)"

text \<open>
  \<open>for _, x := range xs { out = append(out, f(x)) }\<close> and the loop that threads a state,
  both stopping at the first panic.
\<close>

fun traverse :: "('a \<Rightarrow> 'b go) \<Rightarrow> 'a list \<Rightarrow> 'b list go" where
  "traverse f [] = Inr []"
| "traverse f (x # xs) =
     bind_go (f x) (\<lambda>y. bind_go (traverse f xs) (\<lambda>ys. Inr (y # ys)))"

fun foldM :: "('a \<Rightarrow> 's \<Rightarrow> 's go) \<Rightarrow> 'a list \<Rightarrow> 's \<Rightarrow> 's go" where
  "foldM f [] s = Inr s"
| "foldM f (x # xs) s = bind_go (f x s) (foldM f xs)"

text \<open>
  \<open>for cursor.TryNext(ctx) { if err := cursor.Decode(&x); err == nil { out = append(out, x) } }\<close>:
  the documents that decode.
\<close>

fun decode_all :: "('doc \<Rightarrow> 'x option) \<Rightarrow> 'doc list \<Rightarrow> 'x list" where
  "decode_all decode [] = []"
| "decode_all decode (d # ds) =
     (case decode d of None \<Rightarrow> decode_all decode ds | Some x \<Rightarrow> x # decode_all decode ds)"

section \<open>Automation\<close>

named_theorems go_simps "evaluation of panicking computations"
named_theorems go_elims "inversion of panicking computations"

lemma bind_go_simps [simp]:
  "bind_go (Inl p) f = Inl p"
  "bind_go (Inr x) f = f x"
  by (simp_all add: bind_go_def)

lemma deref_simps [simp]:
  "deref None = Inl NilDereference"
  "deref (Some x) = Inr x"
  by (simp_all add: deref_def)

lemma bind_go_Inr_iff [go_simps]:
  "bind_go m f = Inr y \<longleftrightarrow> (\<exists>x. m = Inr x \<and> f x = Inr y)"
  by (cases m) auto

lemma bind_go_Inl_iff [go_simps]:
  "bind_go m f = Inl p \<longleftrightarrow> m = Inl p \<or> (\<exists>x. m = Inr x \<and> f x = Inl p)"
  by (cases m) auto

lemma bind_go_InrE [go_elims]:
  assumes "bind_go m f = Inr y"
  obtains x where "m = Inr x" and "f x = Inr y"
  using assms by (cases m) auto

lemma bind_go_assoc: "bind_go (bind_go m f) g = bind_go m (\<lambda>x. bind_go (f x) g)"
  by (cases m) auto

lemma bind_go_right_unit [simp]: "bind_go m Inr = m"
  by (cases m) auto

lemma deref_Inr_iff [go_simps]: "deref p = Inr x \<longleftrightarrow> p = Some x"
  by (cases p) auto

lemma deref_Inl_iff [go_simps]: "deref p = Inl e \<longleftrightarrow> p = None \<and> e = NilDereference"
  by (cases p) auto

lemma index_go_Inr_iff [go_simps]:
  "index_go xs i = Inr x \<longleftrightarrow> i < length xs \<and> xs ! i = x"
  by (auto simp: index_go_def)

lemma index_go_Cons_0 [simp]: "index_go (x # xs) 0 = Inr x"
  by (simp add: index_go_def)

lemma index_go_Nil [simp]: "index_go [] i = Inl IndexOutOfRange"
  by (simp add: index_go_def)

lemma index_go_less [simp]: "i < length xs \<Longrightarrow> index_go xs i = Inr (xs ! i)"
  by (simp add: index_go_def)

lemma index_go_0_nonempty: "xs \<noteq> [] \<Longrightarrow> index_go xs 0 = Inr (hd xs)"
  by (cases xs) auto

lemma slice_from_Inr_iff [go_simps]:
  "slice_from xs i = Inr ys \<longleftrightarrow> i \<le> length xs \<and> ys = drop i xs"
  by (auto simp: slice_from_def)

subsection \<open>Loops\<close>

lemma traverse_Inr_iff:
  "traverse f xs = Inr ys \<longleftrightarrow> list_all2 (\<lambda>x y. f x = Inr y) xs ys"
  by (induction xs arbitrary: ys) (auto simp: go_simps list_all2_Cons1)

lemma traverse_length: "traverse f xs = Inr ys \<Longrightarrow> length ys = length xs"
  by (simp add: traverse_Inr_iff list_all2_lengthD)

lemma traverse_nth:
  "traverse f xs = Inr ys \<Longrightarrow> i < length xs \<Longrightarrow> f (xs ! i) = Inr (ys ! i)"
  by (auto simp: traverse_Inr_iff dest: list_all2_nthD)

lemma traverse_total:
  assumes "\<And>x. x \<in> set xs \<Longrightarrow> \<exists>y. f x = Inr y"
  shows "\<exists>ys. traverse f xs = Inr ys"
  using assms
proof (induction xs)
  case Nil
  then show ?case by simp
next
  case (Cons x xs)
  from Cons.prems [of x] obtain y where "f x = Inr y" by auto
  moreover from Cons obtain ys where "traverse f xs = Inr ys" by auto
  ultimately show ?case by simp
qed

lemma traverse_pure [simp]: "traverse (\<lambda>x. Inr (g x)) xs = Inr (map g xs)"
  by (induction xs) auto

lemma traverse_append:
  "traverse f (xs @ ys) =
     bind_go (traverse f xs) (\<lambda>us. bind_go (traverse f ys) (\<lambda>vs. Inr (us @ vs)))"
  by (induction xs) (auto simp: bind_go_assoc)

lemma foldM_append: "foldM f (xs @ ys) s = bind_go (foldM f xs s) (foldM f ys)"
proof (induction xs arbitrary: s)
  case Nil
  show ?case by simp
next
  case (Cons x xs)
  show ?case by (cases "f x s") (simp_all add: Cons.IH)
qed

text \<open>An invariant of one round of a loop is an invariant of the loop.\<close>

lemma foldM_invariant:
  assumes "foldM f xs s = Inr t" and "P s"
    and "\<And>x s s'. x \<in> set xs \<Longrightarrow> P s \<Longrightarrow> f x s = Inr s' \<Longrightarrow> P s'"
  shows "P t"
  using assms
proof (induction xs arbitrary: s)
  case Nil
  then show ?case by simp
next
  case (Cons x xs)
  then obtain s' where s': "f x s = Inr s'" and rest: "foldM f xs s' = Inr t"
    by (auto elim: go_elims)
  have "P s'"
    by (rule Cons.prems(3) [OF _ Cons.prems(2) s']) simp
  from Cons.IH [OF rest this] Cons.prems(3) show ?case
    by (meson list.set_intros(2))
qed

end
