(* ===== verification/GoStrings.thy ===== *)
theory GoStrings
  imports Prelude
begin

text \<open>
  The functions of Go's \<open>strings\<close>, \<open>strconv\<close> and \<open>net/textproto\<close> packages that the
  servers call.  A Go string is its list of bytes.  Case mapping and white space follow
  Go on ASCII; a byte above 127 is left alone (the Unicode tables are not modelled).
\<close>

section \<open>Prefixes, splitting, joining\<close>

text \<open>\<open>strings.HasPrefix(s, p)\<close> and \<open>strings.TrimSuffix(s, p)\<close>.\<close>

definition has_prefix :: "string \<Rightarrow> string \<Rightarrow> bool" where
  "has_prefix s p \<longleftrightarrow> take (length p) s = p"

definition trim_suffix :: "string \<Rightarrow> string \<Rightarrow> string" where
  "trim_suffix s p =
     (if has_prefix (rev s) (rev p) then take (length s - length p) s else s)"

text \<open>
  \<open>strings.Split(s, sep)\<close> for a non-empty separator: the pieces between the
  non-overlapping occurrences of \<open>sep\<close>, found from the left.
\<close>

fun split_from :: "string \<Rightarrow> string \<Rightarrow> string \<Rightarrow> string list" where
  "split_from sep acc [] = [rev acc]"
| "split_from sep acc (c # s) =
     (if has_prefix (c # s) sep
      then rev acc # split_from sep [] (drop (length sep - 1) s)
      else split_from sep (c # acc) s)"

definition go_split :: "string \<Rightarrow> string \<Rightarrow> string list" where
  "go_split s sep = split_from sep [] s"

fun go_join :: "string list \<Rightarrow> string \<Rightarrow> string" where
  "go_join [] sep = []"
| "go_join [x] sep = x"
| "go_join (x # y # xs) sep = x @ sep @ go_join (y # xs) sep"

lemma has_prefixI [simp]: "has_prefix (p @ s) p"
  by (simp add: has_prefix_def)

lemma has_prefix_append_drop: "has_prefix s p \<Longrightarrow> p @ drop (length p) s = s"
  by (metis append_take_drop_id has_prefix_def)

lemma has_prefix_appendD: "has_prefix s (p @ q) \<Longrightarrow> has_prefix s p"
  unfolding has_prefix_def
  by (metis append_eq_append_conv_if append_eq_conv_conj length_append min.absorb1 le_add1 take_take)

lemma has_prefix_append: "has_prefix s p \<Longrightarrow> has_prefix (s @ t) p"
  by (metis append_assoc has_prefixI has_prefix_append_drop)

lemma has_prefix_length: "has_prefix s p \<Longrightarrow> length p \<le> length s"
  by (metis has_prefix_def length_take min.cobounded1)

lemma has_prefix_single [simp]: "has_prefix (c # s) [d] \<longleftrightarrow> c = d"
  by (simp add: has_prefix_def)

lemma split_from_nonempty [simp]: "split_from sep acc s \<noteq> []"
  by (induction sep acc s rule: split_from.induct) auto

lemma go_split_nonempty [simp]: "go_split s sep \<noteq> []"
  by (simp add: go_split_def)

lemma go_split_length_pos [simp]: "0 < length (go_split s sep)"
  by simp

text \<open>The first piece can always be read: \<open>strings.Split(\<dots>)[0]\<close> never panics.\<close>

lemma index_go_split_0 [simp]: "index_go (go_split s sep) 0 = Inr (hd (go_split s sep))"
  by (rule index_go_0_nonempty) simp

lemma go_join_Cons: "xs \<noteq> [] \<Longrightarrow> go_join (x # xs) sep = x @ sep @ go_join xs sep"
  by (cases xs) auto

lemma go_join_split_from:
  "sep \<noteq> [] \<Longrightarrow> go_join (split_from sep acc s) sep = rev acc @ s"
proof (induction sep acc s rule: split_from.induct)
  case (1 sep acc)
  then show ?case by simp
next
  case (2 sep acc c s)
  show ?case
  proof (cases "has_prefix (c # s) sep")
    case True
    with 2 have "go_join (split_from sep acc (c # s)) sep
        = rev acc @ sep @ drop (length sep - 1) s"
      by (simp add: go_join_Cons)
    also have "drop (length sep - 1) s = drop (length sep) (c # s)"
      using 2 by (cases sep) auto
    finally show ?thesis
      using has_prefix_append_drop [OF True] by simp
  next
    case False
    with 2 show ?thesis by simp
  qed
qed

lemma go_join_split: "sep \<noteq> [] \<Longrightarrow> go_join (go_split s sep) sep = s"
  by (simp add: go_split_def go_join_split_from)

subsection \<open>Separators of one byte\<close>

lemma split_from_single_hd:
  "hd (split_from [d] acc s) = rev acc @ takeWhile (\<lambda>c. c \<noteq> d) s"
  by (induction "[d]" acc s rule: split_from.induct) auto

lemma hd_go_split_single: "hd (go_split s [d]) = takeWhile (\<lambda>c. c \<noteq> d) s"
  by (simp add: go_split_def split_from_single_hd)

lemma split_from_single_length:
  "length (split_from [d] acc s) = Suc (count_list s d)"
  by (induction "[d]" acc s rule: split_from.induct) auto

lemma go_split_single_length: "length (go_split s [d]) = Suc (count_list s d)"
  by (simp add: go_split_def split_from_single_length)

lemma split_from_single_parts:
  "d \<notin> set acc \<Longrightarrow> x \<in> set (split_from [d] acc s) \<Longrightarrow> d \<notin> set x"
  by (induction "[d]" acc s rule: split_from.induct) (auto split: if_splits)

lemma go_split_single_parts: "x \<in> set (go_split s [d]) \<Longrightarrow> d \<notin> set x"
  by (auto simp: go_split_def dest: split_from_single_parts [rotated])

lemma split_from_single_append:
  "d \<notin> set x \<Longrightarrow> split_from [d] acc (x @ d # s) = (rev acc @ x) # split_from [d] [] s"
  by (induction x arbitrary: acc) auto

lemma go_split_single_append:
  "d \<notin> set x \<Longrightarrow> go_split (x @ d # s) [d] = x # go_split s [d]"
  by (simp add: go_split_def split_from_single_append)

lemma split_from_single_no_sep: "d \<notin> set s \<Longrightarrow> split_from [d] acc s = [rev acc @ s]"
  by (induction s arbitrary: acc) auto

lemma go_split_single_no_sep: "d \<notin> set s \<Longrightarrow> go_split s [d] = [s]"
  by (simp add: go_split_def split_from_single_no_sep)

lemma go_split_join_single:
  "xs \<noteq> [] \<Longrightarrow> (\<forall>x \<in> set xs. d \<notin> set x) \<Longrightarrow> go_split (go_join xs [d]) [d] = xs"
proof (induction xs rule: induct_list012)
  case (3 x y zs)
  then show ?case by (simp add: go_split_single_append)
qed (simp_all add: go_split_single_no_sep)

subsection \<open>The first piece for a longer separator\<close>

lemma split_from_skip:
  "d \<notin> set x \<Longrightarrow> split_from (d # sep) acc (x @ s) = split_from (d # sep) (rev x @ acc) s"
  by (induction x arbitrary: acc) (auto simp: has_prefix_def)

lemma go_split_first:
  assumes "d \<notin> set x"
  shows "hd (go_split (x @ d # sep @ s) (d # sep)) = x"
proof -
  have "has_prefix (d # sep @ s) (d # sep)" by (simp add: has_prefix_def)
  then show ?thesis using assms by (simp add: go_split_def split_from_skip)
qed

section \<open>Case mapping\<close>

definition upper_char :: "char \<Rightarrow> char" where
  "upper_char c = (let n = of_char c :: nat in if 97 \<le> n \<and> n \<le> 122 then char_of (n - 32) else c)"

definition lower_char :: "char \<Rightarrow> char" where
  "lower_char c = (let n = of_char c :: nat in if 65 \<le> n \<and> n \<le> 90 then char_of (n + 32) else c)"

definition to_upper :: "string \<Rightarrow> string" where
  "to_upper s = map upper_char s"

definition to_lower :: "string \<Rightarrow> string" where
  "to_lower s = map lower_char s"

lemma length_to_upper [simp]: "length (to_upper s) = length s"
  by (simp add: to_upper_def)

lemma length_to_lower [simp]: "length (to_lower s) = length s"
  by (simp add: to_lower_def)

lemma to_upper_append [simp]: "to_upper (s @ t) = to_upper s @ to_upper t"
  by (simp add: to_upper_def)

lemma to_lower_append [simp]: "to_lower (s @ t) = to_lower s @ to_lower t"
  by (simp add: to_lower_def)

lemma to_upper_Cons: "to_upper (c # s) = upper_char c # to_upper s"
  by (simp add: to_upper_def)

lemma to_lower_Cons: "to_lower (c # s) = lower_char c # to_lower s"
  by (simp add: to_lower_def)

lemma of_char_less_256: "(of_char (c :: char) :: nat) < 256"
  by (simp add: of_char_def)

lemma lower_upper_char: "lower_char (upper_char c) = lower_char c"
proof (cases "97 \<le> (of_char c :: nat) \<and> (of_char c :: nat) \<le> 122")
  case True
  then have n: "65 \<le> (of_char c :: nat) - 32" "(of_char c :: nat) - 32 \<le> 90" by linarith+
  then have "((of_char c :: nat) - 32) mod 256 = of_char c - 32" by (intro mod_less) linarith
  with True n show ?thesis by (simp add: lower_char_def upper_char_def Let_def)
next
  case False
  then have "upper_char c = c" by (auto simp: upper_char_def Let_def)
  then show ?thesis by simp
qed

text \<open>Upper-casing loses nothing that lower-casing keeps: case-insensitive prefixes are the same.\<close>

lemma to_lower_upper: "to_lower (to_upper s) = to_lower s"
  by (simp add: to_lower_def to_upper_def lower_upper_char)

section \<open>White space\<close>

definition is_space :: "char \<Rightarrow> bool" where
  "is_space c \<longleftrightarrow> (let n = of_char c :: nat in n = 32 \<or> (9 \<le> n \<and> n \<le> 13))"

text \<open>\<open>strings.TrimSpace\<close>, \<open>strings.TrimRight(s, cutset)\<close>, \<open>strings.Fields\<close>.\<close>

definition trim_right :: "string \<Rightarrow> string \<Rightarrow> string" where
  "trim_right s cutset = rev (dropWhile (\<lambda>c. c \<in> set cutset) (rev s))"

definition trim_space :: "string \<Rightarrow> string" where
  "trim_space s = rev (dropWhile is_space (rev (dropWhile is_space s)))"

fun fields_from :: "string \<Rightarrow> string \<Rightarrow> string list" where
  "fields_from acc [] = (if acc = [] then [] else [rev acc])"
| "fields_from acc (c # s) =
     (if is_space c then (if acc = [] then fields_from [] s else rev acc # fields_from [] s)
      else fields_from (c # acc) s)"

definition go_fields :: "string \<Rightarrow> string list" where
  "go_fields s = fields_from [] s"

lemma fields_from_eq_Nil:
  "fields_from acc s = [] \<longleftrightarrow> acc = [] \<and> (\<forall>c \<in> set s. is_space c)"
  by (induction acc s rule: fields_from.induct) auto

text \<open>Only a string of white space has no field.\<close>

lemma go_fields_eq_Nil: "go_fields s = [] \<longleftrightarrow> (\<forall>c \<in> set s. is_space c)"
  by (simp add: go_fields_def fields_from_eq_Nil)

lemma fields_from_word:
  "(\<forall>c \<in> set w. \<not> is_space c) \<Longrightarrow> fields_from acc (w @ s) = fields_from (rev w @ acc) s"
  by (induction w arbitrary: acc) auto

lemma go_fields_single:
  assumes "w \<noteq> []" and "\<forall>c \<in> set w. \<not> is_space c"
  shows "go_fields w = [w]"
  using assms fields_from_word [of w "[]" "[]"] by (simp add: go_fields_def)

lemma go_fields_Cons:
  assumes "w \<noteq> []" and "\<forall>c \<in> set w. \<not> is_space c" and "is_space d"
  shows "go_fields (w @ d # s) = w # go_fields s"
  using assms fields_from_word [of w "[]" "d # s"] by (simp add: go_fields_def)

section \<open>Decimal numerals\<close>

definition digit_char :: "nat \<Rightarrow> char" where
  "digit_char n = char_of (48 + n)"

text \<open>\<open>strconv.FormatUint(n, 10)\<close>.\<close>

fun format_uint :: "nat \<Rightarrow> string" where
  "format_uint n =
     (if n < 10 then [digit_char n] else format_uint (n div 10) @ [digit_char (n mod 10)])"

declare format_uint.simps [simp del]

definition digits_value :: "string \<Rightarrow> nat" where
  "digits_value s = foldl (\<lambda>v c. 10 * v + (of_char c - 48)) 0 s"

lemma of_char_digit: "n < 10 \<Longrightarrow> of_char (digit_char n) = 48 + n"
  by (simp add: digit_char_def)

lemma digits_value_format_uint: "digits_value (format_uint n) = n"
proof (induction n rule: format_uint.induct)
  case (1 n)
  show ?case
  proof (cases "n < 10")
    case True
    then show ?thesis
      by (subst format_uint.simps) (simp add: digits_value_def of_char_digit)
  next
    case False
    with 1 have "digits_value (format_uint (n div 10)) = n div 10" by simp
    with False show ?thesis
      by (subst format_uint.simps) (simp add: digits_value_def of_char_digit)
  qed
qed

lemma format_uint_inject: "format_uint m = format_uint n \<longleftrightarrow> m = n"
  by (metis digits_value_format_uint)

section \<open>Canonical MIME header keys\<close>

text \<open>
  \<open>textproto.CanonicalMIMEHeaderKey\<close>: a key with a byte that is not an RFC 7230 token
  byte is returned unchanged; otherwise the first letter and every letter after a hyphen
  is upper case and every other letter lower case.
\<close>

definition token_char :: "char \<Rightarrow> bool" where
  "token_char c \<longleftrightarrow>
     (let n = of_char c :: nat
      in (48 \<le> n \<and> n \<le> 57) \<or> (65 \<le> n \<and> n \<le> 90) \<or> (97 \<le> n \<and> n \<le> 122))
     \<or> c \<in> set ''!#$%&*+-.^_`|~'' \<or> of_char c = (39 :: nat)"

fun canonical_from :: "bool \<Rightarrow> string \<Rightarrow> string" where
  "canonical_from up [] = []"
| "canonical_from up (c # s) =
     (let d = (if up then upper_char c else lower_char c)
      in d # canonical_from (d = CHR ''-'') s)"

definition canonical_mime_header_key :: "string \<Rightarrow> string" where
  "canonical_mime_header_key s = (if list_all token_char s then canonical_from True s else s)"

definition is_lower_letter :: "char \<Rightarrow> bool" where
  "is_lower_letter c \<longleftrightarrow> 97 \<le> (of_char c :: nat) \<and> (of_char c :: nat) \<le> 122"

definition is_upper_letter :: "char \<Rightarrow> bool" where
  "is_upper_letter c \<longleftrightarrow> 65 \<le> (of_char c :: nat) \<and> (of_char c :: nat) \<le> 90"

lemma upper_char_letter:
  "is_lower_letter c \<or> is_upper_letter c \<Longrightarrow> is_upper_letter (upper_char c)"
  by (auto simp: upper_char_def is_lower_letter_def is_upper_letter_def Let_def)

text \<open>A token that starts with a letter gets a capital: its canonical key is no lower-case key.\<close>

lemma canonical_key_capital:
  assumes "list_all token_char (c # s)" and "is_lower_letter c \<or> is_upper_letter c"
  shows "\<exists>d \<in> set (canonical_mime_header_key (c # s)). is_upper_letter d"
  using assms upper_char_letter [of c]
  by (simp add: canonical_mime_header_key_def Let_def)

end
