(* ===== verification/RLConfig.thy ===== *)
theory RLConfig
  imports GoStrings
begin

text \<open>
  The rate-limit configuration (\<open>ratelimit/rateConfig.go\<close>) and its loading from the
  document database (\<open>loadConfig\<close> in \<open>ratelimit.go\<close>).  The database driver is not part of the
  repository: the loader takes the documents its query yields (\<open>None\<close> for a failed query),
  the BSON decoder and Envoy's table of unit names as arguments.
\<close>

section \<open>Types\<close>

text \<open>
  Envoy's \<open>RateLimitUnit\<close> enumeration: the members the code names, and any other number a
  newer protocol version may add.
\<close>

datatype RateLimitUnit = UNIT_UNKNOWN | UNIT_SECOND | UNIT_MINUTE | UNIT_HOUR | UNIT_DAY | UNIT_OTHER int

record RLEntry =
  rl_Domain :: string
  rl_Key :: string
  rl_Value :: string
  rl_Limit :: u32
  rl_Unit :: string
  rl_StripDomain :: bool

record CacheEntry =
  ce_Limit :: u32
  ce_Unit :: RateLimitUnit

record CacheDescriptors =
  cd_Entries :: "string \<rightharpoonup> CacheEntry"
  cd_StripDomain :: bool

record CacheConfig =
  cc_Domains :: "string \<rightharpoonup> CacheDescriptors"

section \<open>Loading\<close>

text \<open>The body of the loop over the entries.\<close>

definition add_entry ::
    "(string \<rightharpoonup> RateLimitUnit) \<Rightarrow> RLEntry \<Rightarrow> CacheConfig \<Rightarrow> CacheConfig" where
  "add_entry unit_value entry cc =
     (let key = rl_Key entry @ rl_Value entry in
      case unit_value (to_upper (rl_Unit entry)) of
        None \<Rightarrow> cc
      | Some u \<Rightarrow>
          if u \<noteq> UNIT_UNKNOWN then
            (let descriptors =
               (case cc_Domains cc (rl_Domain entry) of
                  None \<Rightarrow> \<lparr>cd_Entries = Map.empty, cd_StripDomain = rl_StripDomain entry\<rparr>
                | Some ds \<Rightarrow> ds);
               added = descriptors\<lparr>cd_Entries :=
                 (cd_Entries descriptors)(key \<mapsto> \<lparr>ce_Limit = rl_Limit entry, ce_Unit = u\<rparr>)\<rparr>
             in cc\<lparr>cc_Domains := (cc_Domains cc)(rl_Domain entry \<mapsto> added)\<rparr>)
          else cc)"

definition rl_loadConfig ::
    "(string \<rightharpoonup> RateLimitUnit) \<Rightarrow> ('doc \<Rightarrow> RLEntry option) \<Rightarrow> 'err + 'doc list \<Rightarrow> 'err + CacheConfig" where
  "rl_loadConfig unit_value decode found =
     (case found of
        Inl err \<Rightarrow> Inl err
      | Inr docs \<Rightarrow>
          Inr (fold (add_entry unit_value) (decode_all decode docs) \<lparr>cc_Domains = Map.empty\<rparr>))"

section \<open>Specification\<close>

text \<open>The unit an entry counts by, when its unit name is one the table knows.\<close>

definition entry_unit :: "(string \<rightharpoonup> RateLimitUnit) \<Rightarrow> RLEntry \<Rightarrow> RateLimitUnit option" where
  "entry_unit unit_value e =
     (case unit_value (to_upper (rl_Unit e)) of
        Some u \<Rightarrow> if u = UNIT_UNKNOWN then None else Some u
      | None \<Rightarrow> None)"

definition valid_entries :: "(string \<rightharpoonup> RateLimitUnit) \<Rightarrow> string \<Rightarrow> RLEntry list \<Rightarrow> RLEntry list" where
  "valid_entries unit_value d es = [e \<leftarrow> es. rl_Domain e = d \<and> entry_unit unit_value e \<noteq> None]"

text \<open>A domain's limits: for every combined key the last valid entry that has it.\<close>

definition spec_entry ::
    "(string \<rightharpoonup> RateLimitUnit) \<Rightarrow> RLEntry list \<Rightarrow> string \<Rightarrow> CacheEntry option" where
  "spec_entry unit_value es k =
     (let ks = [e \<leftarrow> es. rl_Key e @ rl_Value e = k] in
      if ks = [] then None
      else map_option (\<lambda>u. \<lparr>ce_Limit = rl_Limit (last ks), ce_Unit = u\<rparr>)
             (entry_unit unit_value (last ks)))"

definition spec_domain ::
    "(string \<rightharpoonup> RateLimitUnit) \<Rightarrow> RLEntry list \<Rightarrow> string \<Rightarrow> CacheDescriptors option" where
  "spec_domain unit_value es d =
     (let vs = valid_entries unit_value d es in
      if vs = [] then None
      else Some \<lparr>cd_Entries = spec_entry unit_value vs, cd_StripDomain = rl_StripDomain (hd vs)\<rparr>)"

lemma valid_entries_simps [simp]:
  "valid_entries uv d [] = []"
  "valid_entries uv d (es @ [e]) =
     (if rl_Domain e = d \<and> entry_unit uv e \<noteq> None
      then valid_entries uv d es @ [e] else valid_entries uv d es)"
  by (simp_all add: valid_entries_def)

lemma spec_entry_snoc:
  "entry_unit uv e = Some u \<Longrightarrow>
     spec_entry uv (es @ [e]) =
       (spec_entry uv es)(rl_Key e @ rl_Value e \<mapsto> \<lparr>ce_Limit = rl_Limit e, ce_Unit = u\<rparr>)"
  by (auto simp: spec_entry_def fun_eq_iff Let_def)

lemma spec_entry_Nil [simp]: "spec_entry uv [] = Map.empty"
  by (simp add: spec_entry_def fun_eq_iff)

lemma add_entry_invalid: "entry_unit uv e = None \<Longrightarrow> add_entry uv e cc = cc"
  by (auto simp: add_entry_def entry_unit_def Let_def split: option.splits if_splits)

lemma add_entry_valid:
  assumes "entry_unit uv e = Some u"
  shows "cc_Domains (add_entry uv e cc) = (cc_Domains cc)(rl_Domain e \<mapsto>
     (let ds = (case cc_Domains cc (rl_Domain e) of
          None \<Rightarrow> \<lparr>cd_Entries = Map.empty, cd_StripDomain = rl_StripDomain e\<rparr> | Some ds \<Rightarrow> ds)
      in ds\<lparr>cd_Entries :=
        (cd_Entries ds)(rl_Key e @ rl_Value e \<mapsto> \<lparr>ce_Limit = rl_Limit e, ce_Unit = u\<rparr>)\<rparr>))"
  using assms by (auto simp: add_entry_def entry_unit_def Let_def split: option.splits if_splits)

text \<open>The loop computes the specification.\<close>

lemma fold_add_entry:
  "cc_Domains (fold (add_entry uv) es \<lparr>cc_Domains = Map.empty\<rparr>) = spec_domain uv es"
proof (induction es rule: rev_induct)
  case Nil
  show ?case by (simp add: spec_domain_def fun_eq_iff)
next
  case (snoc e es)
  show ?case
  proof (cases "entry_unit uv e")
    case None
    with snoc show ?thesis by (simp add: add_entry_invalid spec_domain_def fun_eq_iff)
  next
    case (Some u)
    show ?thesis
    proof
      fix d
      show "cc_Domains (fold (add_entry uv) (es @ [e]) \<lparr>cc_Domains = Map.empty\<rparr>) d
          = spec_domain uv (es @ [e]) d"
        using Some snoc
        by (auto simp: add_entry_valid spec_domain_def Let_def spec_entry_snoc
            spec_entry_snoc [where es = "[]", simplified] hd_append)
    qed
  qed
qed

section \<open>Properties\<close>

text \<open>C7: the loaded configuration is the specified one.  A domain exists exactly if one of its
  documents decodes and names a known unit; each combined key carries the limit and unit of
  the last such document; and the domain's strip flag is the one of the first such document.\<close>

theorem rl_loadConfig_correct:
  "rl_loadConfig unit_value decode (Inr docs) =
     Inr \<lparr>cc_Domains = spec_domain unit_value (decode_all decode docs)\<rparr>"
proof -
  let ?cc = "fold (add_entry unit_value) (decode_all decode docs) \<lparr>cc_Domains = Map.empty\<rparr>"
  have "?cc = \<lparr>cc_Domains = cc_Domains ?cc\<rparr>" by simp
  then show ?thesis by (simp add: rl_loadConfig_def fold_add_entry)
qed

lemma spec_entry_unit:
  "spec_entry uv es k = Some ce \<Longrightarrow> ce_Unit ce \<noteq> UNIT_UNKNOWN"
  by (auto simp: spec_entry_def entry_unit_def Let_def split: if_splits option.splits)

text \<open>No limit of a loaded configuration counts by the unknown unit, so the divider table is
  only ever asked for units Envoy names.\<close>

theorem rl_loadConfig_no_unknown_unit:
  assumes "rl_loadConfig unit_value decode found = Inr cc"
    and "cc_Domains cc d = Some ds" and "cd_Entries ds k = Some ce"
  shows "ce_Unit ce \<noteq> UNIT_UNKNOWN"
proof (cases found)
  case (Inr docs)
  with assms have "spec_domain unit_value (decode_all decode docs) d = Some ds"
    by (auto simp: rl_loadConfig_def simp flip: fold_add_entry)
  with assms(3) show ?thesis
    by (auto simp: spec_domain_def Let_def split: if_splits dest: spec_entry_unit)
qed (use assms in \<open>simp add: rl_loadConfig_def\<close>)

theorem rl_loadConfig_no_unknown_unit_witness:
  "ce_Unit \<lparr>ce_Limit = 5, ce_Unit = UNIT_MINUTE\<rparr> \<noteq> UNIT_UNKNOWN"
proof -
  let ?e = "\<lparr>rl_Domain = ''d'', rl_Key = ''k'', rl_Value = ''v'', rl_Limit = 5, rl_Unit = ''minute'',
    rl_StripDomain = False\<rparr>"
  have up: "to_upper ''minute'' = ''MINUTE''" by code_simp
  have "rl_loadConfig [''MINUTE'' \<mapsto> UNIT_MINUTE] Some (Inr [?e] :: unit + RLEntry list) =
      Inr \<lparr>cc_Domains = [''d'' \<mapsto> \<lparr>cd_Entries = [''kv'' \<mapsto> \<lparr>ce_Limit = 5, ce_Unit = UNIT_MINUTE\<rparr>],
        cd_StripDomain = False\<rparr>]\<rparr>"
    by (simp add: rl_loadConfig_def add_entry_def up Let_def)
  from rl_loadConfig_no_unknown_unit [OF this, of "''d''" _ "''kv''"] show ?thesis by simp
qed

end
