(* ===== verification/RateLimit.thy ===== *)
theory RateLimit
  imports RLConfig
begin

text \<open>
  The rate-limit service of \<open>ratelimit/ratelimit.go\<close>.  Redis, the local cache and the clock
  are outside the repository; they are the fields of \<open>rl_env\<close>, functions over an abstract
  world \<open>'w\<close>, so every property holds for whatever they do unless it states what they do.
\<close>

section \<open>Environment and messages\<close>

text \<open>
  \<open>redis_pipeline key hits expire\<close> runs \<open>INCRBY key hits; EXPIRE key expire\<close>: it yields the
  counter stored into \<open>*entry.Result\<close> (\<open>None\<close>: the cell keeps its 0) and the pipeline's error.
\<close>

record 'w rl_env =
  now_unix :: "'w \<Rightarrow> u64 \<times> 'w"
  cache_get :: "string \<Rightarrow> 'w \<Rightarrow> bool \<times> 'w"
  cache_set :: "string \<Rightarrow> u64 \<Rightarrow> 'w \<Rightarrow> 'w"
  redis_pipeline :: "string \<Rightarrow> string \<Rightarrow> string \<Rightarrow> 'w \<Rightarrow> (u32 option \<times> string option) \<times> 'w"

record DescriptorEntry =
  de_Key :: string
  de_Value :: string

record RateLimitRequest =
  rq_Domain :: string
  rq_Descriptors :: "DescriptorEntry list list"
  rq_HitsAddend :: u32

datatype RLCode = CODE_OK | CODE_OVER_LIMIT

record RateLimitResponse =
  rs_OverallCode :: RLCode
  rs_Statuses :: "RLCode list"

record limitType =
  lt_Key :: string
  lt_Limit :: u32
  lt_Hits :: u32
  lt_Result :: u32
  lt_Expire :: u64

record rl_Service =
  rl_config :: "CacheConfig option"

definition rl_SetConfig :: "CacheConfig option \<Rightarrow> rl_Service \<Rightarrow> rl_Service" where
  "rl_SetConfig newConfig s = s\<lparr>rl_config := newConfig\<rparr>"

section \<open>Matching descriptors\<close>

definition max_u32 :: "u32 \<Rightarrow> u32 \<Rightarrow> u32" where
  "max_u32 a b = (if a > b then a else b)"

fun unitToDivider :: "RateLimitUnit \<Rightarrow> u64 go" where
  "unitToDivider UNIT_SECOND = Inr 1"
| "unitToDivider UNIT_MINUTE = Inr 60"
| "unitToDivider UNIT_HOUR = Inr (60 * 60)"
| "unitToDivider UNIT_DAY = Inr (60 * 60 * 24)"
| "unitToDivider _ = Inl (Panicked ''should not get here'')"

text \<open>The key of a descriptor entry, with the value cut at its first dot when the domain strips.\<close>

definition descriptor_key :: "CacheDescriptors \<Rightarrow> DescriptorEntry \<Rightarrow> string go" where
  "descriptor_key config entry =
     (if cd_StripDomain config
      then bind_go (index_go (go_split (de_Value entry) ''.'') 0) (\<lambda>v. Inr (de_Key entry @ v))
      else Inr (de_Key entry @ de_Value entry))"

text \<open>The loop over a descriptor's entries; \<open>unit\<close> is the time read before it.\<close>

fun find_entries :: "CacheDescriptors \<Rightarrow> u64 \<Rightarrow> u32 \<Rightarrow> DescriptorEntry list \<Rightarrow> limitType list go" where
  "find_entries config unit hits [] = Inr []"
| "find_entries config unit hits (entry # es) =
     bind_go (descriptor_key config entry) (\<lambda>key.
     case cd_Entries config key of
       None \<Rightarrow> find_entries config unit hits es
     | Some ce \<Rightarrow>
         bind_go (unitToDivider (ce_Unit ce)) (\<lambda>divider.
         bind_go (find_entries config unit hits es) (\<lambda>rest.
         Inr (\<lparr>lt_Key = key @ format_uint (unat ((unit div divider) * divider)),
               lt_Limit = ce_Limit ce, lt_Hits = hits, lt_Result = 0, lt_Expire = divider\<rparr> # rest))))"

definition findDescriptor ::
    "'w rl_env \<Rightarrow> CacheDescriptors \<Rightarrow> DescriptorEntry list \<Rightarrow> u32 \<Rightarrow> 'w \<Rightarrow> (limitType list \<times> 'w) go" where
  "findDescriptor env config descriptor hits w =
     (let (unit, w1) = now_unix env w
      in bind_go (find_entries config unit hits descriptor) (\<lambda>res. Inr (res, w1)))"

text \<open>The loop over the request's descriptors collects the limits of all of them first.\<close>

fun collect_limits ::
    "'w rl_env \<Rightarrow> CacheDescriptors \<Rightarrow> u32 \<Rightarrow> DescriptorEntry list list \<Rightarrow> 'w
       \<Rightarrow> (limitType list list \<times> 'w) go" where
  "collect_limits env config hits [] w = Inr ([], w)"
| "collect_limits env config hits (d # ds) w =
     bind_go (findDescriptor env config d hits w) (\<lambda>(l, w1).
     bind_go (collect_limits env config hits ds w1) (\<lambda>(ls, w2). Inr (l # ls, w2)))"

section \<open>Counting\<close>

text \<open>
  One limit: the local cache first, then Redis.  The error of the pipeline is assigned to the
  \<open>err\<close> declared by the enclosing \<open>if\<close> statement, not to the result of the method, so it is
  dropped here.
\<close>

definition check_limit ::
    "'w rl_env \<Rightarrow> limitType \<Rightarrow> RateLimitResponse \<times> 'w \<Rightarrow> RateLimitResponse \<times> 'w" where
  "check_limit env entry st =
     (let (res, w) = st; (hit, w1) = cache_get env (lt_Key entry) w in
      if hit then
        (res\<lparr>rs_OverallCode := CODE_OVER_LIMIT, rs_Statuses := rs_Statuses res @ [CODE_OVER_LIMIT]\<rparr>, w1)
      else
        (let ((reply, err), w2) = redis_pipeline env (lt_Key entry)
               (format_uint (unat (lt_Hits entry))) (format_uint (unat (lt_Expire entry))) w1;
             result = (case reply of Some n \<Rightarrow> n | None \<Rightarrow> lt_Result entry)
         in if result > lt_Limit entry then
              (res\<lparr>rs_OverallCode := CODE_OVER_LIMIT, rs_Statuses := rs_Statuses res @ [CODE_OVER_LIMIT]\<rparr>,
               cache_set env (lt_Key entry) (lt_Expire entry) w2)
            else
              (res\<lparr>rs_Statuses := rs_Statuses res @ [CODE_OK]\<rparr>, w2)))"

definition check_limits ::
    "'w rl_env \<Rightarrow> limitType list list \<Rightarrow> RateLimitResponse \<times> 'w \<Rightarrow> RateLimitResponse \<times> 'w" where
  "check_limits env limits st = fold (\<lambda>limit st. fold (check_limit env) limit st) limits st"

text \<open>The second component is the error the method returns.\<close>

definition rl_ShouldRateLimit ::
    "'w rl_env \<Rightarrow> rl_Service \<Rightarrow> RateLimitRequest \<Rightarrow> 'w
       \<Rightarrow> (RateLimitResponse \<times> string option \<times> 'w) go" where
  "rl_ShouldRateLimit env s req w =
     bind_go (deref (rl_config s)) (\<lambda>currentConfig.
     let res = \<lparr>rs_OverallCode = CODE_OK, rs_Statuses = []\<rparr>;
         hits = max_u32 1 (rq_HitsAddend req)
     in bind_go
          (case cc_Domains currentConfig (rq_Domain req) of
             None \<Rightarrow> Inr ([], w)
           | Some domain \<Rightarrow> collect_limits env domain hits (rq_Descriptors req) w)
          (\<lambda>(limits, w1).
             let (res, w2) = check_limits env limits (res, w1) in Inr (res, None, w2)))"

section \<open>Shape of a response\<close>

lemma fold_concat_nested: "fold (\<lambda>xs. fold f xs) xss s = fold f (concat xss) s"
  by (induction xss arbitrary: s) auto

lemma check_limits_concat: "check_limits env limits st = fold (check_limit env) (concat limits) st"
  by (simp add: check_limits_def fold_concat_nested)

definition add_verdict :: "RLCode \<Rightarrow> RateLimitResponse \<Rightarrow> RateLimitResponse" where
  "add_verdict c res = res\<lparr>
     rs_OverallCode := (if c = CODE_OVER_LIMIT then CODE_OVER_LIMIT else rs_OverallCode res),
     rs_Statuses := rs_Statuses res @ [c]\<rparr>"

definition add_verdicts :: "RLCode list \<Rightarrow> RateLimitResponse \<Rightarrow> RateLimitResponse" where
  "add_verdicts cs res = res\<lparr>
     rs_OverallCode := (if CODE_OVER_LIMIT \<in> set cs then CODE_OVER_LIMIT else rs_OverallCode res),
     rs_Statuses := rs_Statuses res @ cs\<rparr>"

lemma add_verdicts_Nil [simp]: "add_verdicts [] res = res"
  by (simp add: add_verdicts_def)

lemma add_verdicts_Cons: "add_verdicts cs (add_verdict c res) = add_verdicts (c # cs) res"
  by (auto simp: add_verdicts_def add_verdict_def)

text \<open>Each limit adds one verdict; which one depends on the environment.\<close>

lemma check_limit_shape: "\<exists>c w'. check_limit env l (res, w) = (add_verdict c res, w')"
  by (auto simp: check_limit_def add_verdict_def Let_def split: prod.splits)

lemma check_limits_shape:
  "\<exists>cs w'. length cs = length ls \<and> fold (check_limit env) ls (res, w) = (add_verdicts cs res, w')"
proof (induction ls arbitrary: res w)
  case Nil
  show ?case by simp
next
  case (Cons l ls)
  obtain c w1 where step: "check_limit env l (res, w) = (add_verdict c res, w1)"
    using check_limit_shape [of env l res w] by auto
  obtain cs w' where "length cs = length ls"
    and "fold (check_limit env) ls (add_verdict c res, w1) = (add_verdicts cs (add_verdict c res), w')"
    using Cons.IH [of "add_verdict c res" w1] by auto
  with step show ?case
    by (intro exI [of _ "c # cs"]) (auto simp: add_verdicts_Cons)
qed

section \<open>Which entries are limited\<close>

text \<open>The key of an entry as a total function: stripping never panics.\<close>

definition combined_key :: "CacheDescriptors \<Rightarrow> DescriptorEntry \<Rightarrow> string" where
  "combined_key config e = de_Key e @
     (if cd_StripDomain config then takeWhile (\<lambda>c. c \<noteq> CHR ''.'') (de_Value e) else de_Value e)"

definition limited :: "CacheDescriptors \<Rightarrow> DescriptorEntry \<Rightarrow> bool" where
  "limited config e \<longleftrightarrow> cd_Entries config (combined_key config e) \<noteq> None"

lemma descriptor_key_total [simp]: "descriptor_key config e = Inr (combined_key config e)"
  by (simp add: descriptor_key_def combined_key_def hd_go_split_single hd_conv_nth [symmetric])

lemma find_entries_length:
  "find_entries config unit hits es = Inr ls \<Longrightarrow> length ls = length (filter (limited config) es)"
  by (induction es arbitrary: ls) (auto simp: go_simps limited_def split: option.splits)

lemma collect_limits_length:
  "collect_limits env config hits ds w = Inr (ls, w') \<Longrightarrow>
     length (concat ls) = length (filter (limited config) (concat ds))"
proof (induction ds arbitrary: ls w w')
  case (Cons d ds)
  then show ?case
    by (fastforce simp: findDescriptor_def go_simps find_entries_length split: prod.splits)
qed simp

lemma rl_ShouldRateLimit_InrE:
  assumes "rl_ShouldRateLimit env s req w = Inr (res, err, w')"
  obtains cc limits w1 where "rl_config s = Some cc"
    and "(case cc_Domains cc (rq_Domain req) of
        None \<Rightarrow> Inr ([], w)
      | Some domain \<Rightarrow> collect_limits env domain (max_u32 1 (rq_HitsAddend req)) (rq_Descriptors req) w)
      = Inr (limits, w1)"
    and "check_limits env limits (\<lparr>rs_OverallCode = CODE_OK, rs_Statuses = []\<rparr>, w1) = (res, w')"
    and "err = None"
proof -
  from assms obtain cc lw where "rl_config s = Some cc"
    and "(case cc_Domains cc (rq_Domain req) of
        None \<Rightarrow> Inr ([], w)
      | Some domain \<Rightarrow> collect_limits env domain (max_u32 1 (rq_HitsAddend req)) (rq_Descriptors req) w)
      = Inr lw"
    and "(case lw of (limits, w1) \<Rightarrow> let (res, w2) =
        check_limits env limits (\<lparr>rs_OverallCode = CODE_OK, rs_Statuses = []\<rparr>, w1)
      in Inr (res, None, w2)) = (Inr (res, err, w') :: (_ \<times> string option \<times> _) go)"
    unfolding rl_ShouldRateLimit_def Let_def by (auto simp only: deref_Inr_iff elim!: go_elims)
  then show ?thesis by (intro that [of cc "fst lw" "snd lw"]) (auto split: prod.splits)
qed

text \<open>A response carries one status per descriptor entry that has a limit, its overall code
  is \<open>OVER_LIMIT\<close> exactly if one of the statuses is, and the method never returns an error,
  whatever Redis, the cache and the clock do.\<close>

theorem rl_response_shape:
  assumes "rl_ShouldRateLimit env s req w = Inr (res, err, w')" and "rl_config s = Some cc"
  shows "err = None \<and>
    (rs_OverallCode res = CODE_OVER_LIMIT \<longleftrightarrow> CODE_OVER_LIMIT \<in> set (rs_Statuses res)) \<and>
    length (rs_Statuses res) =
      (case cc_Domains cc (rq_Domain req) of
         None \<Rightarrow> 0
       | Some ds \<Rightarrow> length (filter (limited ds) (concat (rq_Descriptors req))))"
proof -
  let ?res = "\<lparr>rs_OverallCode = CODE_OK, rs_Statuses = []\<rparr>"
  obtain cc' limits w1 where cc': "rl_config s = Some cc'"
    and limits: "(case cc_Domains cc' (rq_Domain req) of
        None \<Rightarrow> Inr ([], w)
      | Some domain \<Rightarrow> collect_limits env domain (max_u32 1 (rq_HitsAddend req)) (rq_Descriptors req) w)
      = Inr (limits, w1)"
    and run: "check_limits env limits (?res, w1) = (res, w')" and err: "err = None"
    using assms(1) by (rule rl_ShouldRateLimit_InrE)
  obtain cs w2 where "length cs = length (concat limits)"
    and "check_limits env limits (?res, w1) = (add_verdicts cs ?res, w2)"
    using check_limits_shape [of "concat limits" env ?res w1] unfolding check_limits_concat by auto
  moreover from limits cc' assms(2) have "length (concat limits) = (case cc_Domains cc (rq_Domain req) of
      None \<Rightarrow> 0 | Some ds \<Rightarrow> length (filter (limited ds) (concat (rq_Descriptors req))))"
    by (auto simp del: length_concat split: option.splits dest: collect_limits_length)
  ultimately show ?thesis
    using run err by (auto simp: add_verdicts_def simp del: length_concat)
qed

text \<open>A store in memory, the concrete environment of the witnesses.\<close>

record mem =
  mem_counts :: "string \<Rightarrow> nat"
  mem_cached :: "string set"

definition mem_env :: "u64 \<Rightarrow> mem rl_env" where
  "mem_env t = \<lparr>
     now_unix = (\<lambda>w. (t, w)),
     cache_get = (\<lambda>k w. (k \<in> mem_cached w, w)),
     cache_set = (\<lambda>k e w. w\<lparr>mem_cached := insert k (mem_cached w)\<rparr>),
     redis_pipeline = (\<lambda>k h e w.
       let n = mem_counts w k + digits_value h
       in ((Some (word_of_nat n), None), w\<lparr>mem_counts := (mem_counts w)(k := n)\<rparr>))\<rparr>"

definition mem_empty :: mem where
  "mem_empty = \<lparr>mem_counts = (\<lambda>_. 0), mem_cached = {}\<rparr>"

text \<open>A domain with one limit, five hits a minute for the key \<open>path\<close> and value \<open>/a\<close>.\<close>

definition sample_domain :: CacheDescriptors where
  "sample_domain = \<lparr>cd_Entries = [''path/a'' \<mapsto> \<lparr>ce_Limit = 5, ce_Unit = UNIT_MINUTE\<rparr>],
     cd_StripDomain = False\<rparr>"

definition sample_config :: CacheConfig where
  "sample_config = \<lparr>cc_Domains = [''web'' \<mapsto> sample_domain]\<rparr>"

definition sample_request :: RateLimitRequest where
  "sample_request = \<lparr>rq_Domain = ''web'', rq_Descriptors = [[\<lparr>de_Key = ''path'', de_Value = ''/a''\<rparr>,
     \<lparr>de_Key = ''ip'', de_Value = ''10.1.1.1''\<rparr>]], rq_HitsAddend = 0\<rparr>"

lemma sample_limits:
  "collect_limits env sample_domain 1 (rq_Descriptors sample_request) w =
     (case now_unix env w of (t, w1) \<Rightarrow> Inr ([[\<lparr>lt_Key = ''path/a'' @ format_uint (unat (t div 60 * 60)),
        lt_Limit = 5, lt_Hits = 1, lt_Result = 0, lt_Expire = 60\<rparr>]], w1))"
  by (simp add: findDescriptor_def sample_request_def sample_domain_def combined_key_def Let_def
      split: prod.splits)

theorem rl_response_shape_witness:
  "\<exists>res err w'. rl_ShouldRateLimit (mem_env 0) \<lparr>rl_config = Some sample_config\<rparr> sample_request mem_empty
       = Inr (res, err, w') \<and> err = None \<and> length (rs_Statuses res) = 1"
proof -
  obtain res err w' where run: "rl_ShouldRateLimit (mem_env 0) \<lparr>rl_config = Some sample_config\<rparr>
      sample_request mem_empty = Inr (res, err, w')"
    by (fastforce simp: rl_ShouldRateLimit_def sample_config_def sample_limits max_u32_def
        mem_env_def Let_def sample_request_def [THEN arg_cong [where f = rq_Domain]]
        sample_request_def [THEN arg_cong [where f = rq_HitsAddend]] split: prod.splits)
  from rl_response_shape [OF run] run show ?thesis
    by (auto simp: sample_config_def sample_request_def sample_domain_def limited_def combined_key_def)
qed

section \<open>Failing open\<close>

lemma check_limit_redis_down:
  assumes "\<And>k w. fst (cache_get env k w) = False"
    and "\<And>k h e w. fst (fst (redis_pipeline env k h e w)) = None"
    and "lt_Result l \<le> lt_Limit l"
  shows "\<exists>w'. check_limit env l (res, w) = (add_verdict CODE_OK res, w')"
proof -
  obtain w1 where "cache_get env (lt_Key l) w = (False, w1)"
    by (metis assms(1) prod.collapse)
  moreover obtain err w2 where "redis_pipeline env (lt_Key l) (format_uint (unat (lt_Hits l)))
      (format_uint (unat (lt_Expire l))) w1 = ((None, err), w2)"
    by (metis assms(2) prod.collapse)
  ultimately show ?thesis
    using assms(3) by (simp add: check_limit_def add_verdict_def)
qed

lemma check_limits_redis_down:
  assumes "\<And>k w. fst (cache_get env k w) = False"
    and "\<And>k h e w. fst (fst (redis_pipeline env k h e w)) = None"
    and "\<forall>l \<in> set ls. lt_Result l = 0"
  shows "\<exists>w'. fold (check_limit env) ls (res, w) = (add_verdicts (replicate (length ls) CODE_OK) res, w')"
  using assms(3)
proof (induction ls arbitrary: res w)
  case (Cons l ls)
  obtain w1 where "check_limit env l (res, w) = (add_verdict CODE_OK res, w1)"
    using check_limit_redis_down [OF assms(1,2), of l res w] Cons.prems by auto
  then show ?case
    using Cons.IH [of "add_verdict CODE_OK res" w1] Cons.prems by (auto simp: add_verdicts_Cons)
qed simp

lemma find_entries_fresh:
  "find_entries config unit hits es = Inr ls \<Longrightarrow> \<forall>l \<in> set ls. lt_Result l = 0 \<and> lt_Hits l = hits"
  by (induction es arbitrary: ls) (auto simp: go_simps split: option.splits)

lemma collect_limits_fresh:
  "collect_limits env config hits ds w = Inr (ls, w') \<Longrightarrow> \<forall>l \<in> set (concat ls). lt_Result l = 0"
proof (induction ds arbitrary: ls w w')
  case (Cons d ds)
  then show ?case
    by (fastforce simp: findDescriptor_def go_simps dest: find_entries_fresh split: prod.splits)
qed simp

text \<open>While Redis is down and the local cache holds nothing, every request is let through with
  no error: each limited entry gets status \<open>OK\<close>.\<close>

theorem rl_redis_down_allows:
  assumes "\<And>k w. fst (cache_get env k w) = False"
    and "\<And>k h e w. fst (fst (redis_pipeline env k h e w)) = None"
    and "rl_ShouldRateLimit env s req w = Inr (res, err, w')"
  shows "rs_OverallCode res = CODE_OK \<and> set (rs_Statuses res) \<subseteq> {CODE_OK} \<and> err = None"
proof -
  let ?res = "\<lparr>rs_OverallCode = CODE_OK, rs_Statuses = []\<rparr>"
  obtain cc limits w1 where "rl_config s = Some cc"
    and limits: "(case cc_Domains cc (rq_Domain req) of
        None \<Rightarrow> Inr ([], w)
      | Some domain \<Rightarrow> collect_limits env domain (max_u32 1 (rq_HitsAddend req)) (rq_Descriptors req) w)
      = Inr (limits, w1)"
    and run: "check_limits env limits (?res, w1) = (res, w')" and err: "err = None"
    using assms(3) by (rule rl_ShouldRateLimit_InrE)
  from limits have "\<forall>l \<in> set (concat limits). lt_Result l = 0"
    by (auto split: option.splits dest: collect_limits_fresh)
  from check_limits_redis_down [OF assms(1,2) this, of ?res w1] run err show ?thesis
    by (auto simp: check_limits_concat add_verdicts_def)
qed

definition down_env :: "unit rl_env" where
  "down_env = \<lparr>now_unix = (\<lambda>w. (0, w)), cache_get = (\<lambda>k w. (False, w)), cache_set = (\<lambda>k e w. w),
     redis_pipeline = (\<lambda>k h e w. ((None, Some ''connection refused''), w))\<rparr>"

theorem rl_redis_down_allows_witness:
  "\<exists>res err w'. rl_ShouldRateLimit down_env \<lparr>rl_config = Some sample_config\<rparr> sample_request ()
       = Inr (res, err, w') \<and> rs_OverallCode res = CODE_OK \<and> err = None"
proof -
  obtain res err w' where run: "rl_ShouldRateLimit down_env \<lparr>rl_config = Some sample_config\<rparr>
      sample_request () = Inr (res, err, w')"
    by (fastforce simp: rl_ShouldRateLimit_def sample_config_def sample_limits max_u32_def
        down_env_def Let_def sample_request_def [THEN arg_cong [where f = rq_Domain]]
        sample_request_def [THEN arg_cong [where f = rq_HitsAddend]] split: prod.splits)
  have "rs_OverallCode res = CODE_OK \<and> set (rs_Statuses res) \<subseteq> {CODE_OK} \<and> err = None"
    by (rule rl_redis_down_allows [OF _ _ run]) (simp_all add: down_env_def)
  with run show ?thesis by blast
qed

end
