(* ===== verification/RateLimitExact.thy ===== *)
theory RateLimitExact
  imports RateLimit
begin

text \<open>
  What the rate-limit service promises when its counter store counts: verdicts equal to
  those of plain counting (the local cache only saves Redis calls), exactly the configured
  number of hits per window, and which requests share a counter.
\<close>

section \<open>A store that counts\<close>

text \<open>
  The documented behaviour of the parts outside the repository, over the counters \<open>count\<close>
  and the cached keys of a world: a cache lookup reports the keys that were set;
  \<open>INCRBY\<close> adds the hits it is sent in decimal and replies the new counter; neither of them
  touches the other's state.  Expiry is left out: the statements below are about one window.
\<close>

definition exact_store ::
    "'w rl_env \<Rightarrow> ('w \<Rightarrow> string \<Rightarrow> nat) \<Rightarrow> ('w \<Rightarrow> string set) \<Rightarrow> bool" where
  "exact_store env count cached \<longleftrightarrow>
     (\<forall>k w. cache_get env k w = (k \<in> cached w, w)) \<and>
     (\<forall>k e w. count (cache_set env k e w) = count w \<and>
        cached (cache_set env k e w) = insert k (cached w)) \<and>
     (\<forall>k h e w. \<exists>w'. redis_pipeline env k h e w =
          ((Some (word_of_nat (count w k + digits_value h)), None), w') \<and>
        count w' = (count w)(k := count w k + digits_value h) \<and> cached w' = cached w)"

lemma exact_store_pipeline:
  assumes "exact_store env count cached"
  obtains w' where "redis_pipeline env k (format_uint h) (format_uint e) w =
      ((Some (word_of_nat (count w k + h)), None), w')"
    and "count w' = (count w)(k := count w k + h)" and "cached w' = cached w"
proof -
  from assms have "\<exists>w'. redis_pipeline env k (format_uint h) (format_uint e) w =
      ((Some (word_of_nat (count w k + digits_value (format_uint h))), None), w') \<and>
      count w' = (count w)(k := count w k + digits_value (format_uint h)) \<and> cached w' = cached w"
    unfolding exact_store_def by blast
  then show ?thesis unfolding digits_value_format_uint by (auto intro: that)
qed

lemma mem_env_exact: "exact_store (mem_env t) mem_counts mem_cached"
  by (simp add: exact_store_def mem_env_def Let_def)

section \<open>Reference: counting alone\<close>

fun ref_verdicts :: "limitType list \<Rightarrow> (string \<Rightarrow> nat) \<Rightarrow> RLCode list" where
  "ref_verdicts [] c = []"
| "ref_verdicts (l # ls) c =
     (let n = c (lt_Key l) + unat (lt_Hits l)
      in (if unat (lt_Limit l) < n then CODE_OVER_LIMIT else CODE_OK)
         # ref_verdicts ls (c(lt_Key l := n)))"

fun ref_counts :: "limitType list \<Rightarrow> (string \<Rightarrow> nat) \<Rightarrow> (string \<Rightarrow> nat)" where
  "ref_counts [] c = c"
| "ref_counts (l # ls) c = ref_counts ls (c(lt_Key l := c (lt_Key l) + unat (lt_Hits l)))"

definition hits_on :: "string \<Rightarrow> limitType list \<Rightarrow> nat" where
  "hits_on k ls = sum_list (map (\<lambda>l. unat (lt_Hits l)) (filter (\<lambda>l. lt_Key l = k) ls))"

text \<open>
  The store follows a plain counter: equal on keys not cached, and on a cached key the
  counter is above the key's limit already.
\<close>

definition tracks ::
    "('w \<Rightarrow> string \<Rightarrow> nat) \<Rightarrow> ('w \<Rightarrow> string set) \<Rightarrow> (string \<Rightarrow> nat) \<Rightarrow> 'w \<Rightarrow> (string \<Rightarrow> nat) \<Rightarrow> bool" where
  "tracks count cached limit_of w c \<longleftrightarrow>
     (\<forall>k. if k \<in> cached w then limit_of k < c k else count w k = c k)"

lemma ref_counts_eq: "ref_counts ls c k = c k + hits_on k ls"
  by (induction ls arbitrary: c) (auto simp: hits_on_def)

text \<open>One limit: the verdict is the counter's, and the store follows the counter on.\<close>

lemma check_limit_exact:
  assumes store: "exact_store env count cached" and tr: "tracks count cached limit_of w c"
    and lim: "unat (lt_Limit l) = limit_of (lt_Key l)"
    and bound: "c (lt_Key l) + unat (lt_Hits l) < 2 ^ 32"
  shows "\<exists>w'. check_limit env l (res, w) =
      (add_verdict (if unat (lt_Limit l) < c (lt_Key l) + unat (lt_Hits l)
                    then CODE_OVER_LIMIT else CODE_OK) res, w')
    \<and> tracks count cached limit_of w' (c(lt_Key l := c (lt_Key l) + unat (lt_Hits l)))"
proof (cases "lt_Key l \<in> cached w")
  case True
  with tr have over: "limit_of (lt_Key l) < c (lt_Key l)"
    unfolding tracks_def by (metis (full_types))
  have "cache_get env (lt_Key l) w = (True, w)" using store True by (simp add: exact_store_def)
  moreover have "tracks count cached limit_of w (c(lt_Key l := c (lt_Key l) + unat (lt_Hits l)))"
    using tr True trans_less_add1 [OF over] by (simp add: tracks_def)
  ultimately show ?thesis
    using lim over by (simp add: check_limit_def add_verdict_def)
next
  case False
  let ?n = "c (lt_Key l) + unat (lt_Hits l)"
  from tr False have cnt: "count w (lt_Key l) = c (lt_Key l)" by (auto simp: tracks_def split: if_splits)
  from store False have get: "cache_get env (lt_Key l) w = (False, w)" by (simp add: exact_store_def)
  obtain w1 where pipe: "redis_pipeline env (lt_Key l) (format_uint (unat (lt_Hits l)))
      (format_uint (unat (lt_Expire l))) w = ((Some (word_of_nat ?n), None), w1)"
    and w1: "count w1 = (count w)(lt_Key l := ?n)" "cached w1 = cached w"
    by (rule exact_store_pipeline [OF store, of "lt_Key l" "unat (lt_Hits l)" "unat (lt_Expire l)" w,
        unfolded cnt])
  have n: "unat (word_of_nat ?n :: u32) = ?n"
    using bound by (simp only: unat_of_nat) simp
  then have gt: "lt_Limit l < word_of_nat ?n \<longleftrightarrow> unat (lt_Limit l) < ?n"
    by (simp add: word_less_nat_alt)
  have tr1: "tracks count cached limit_of w1 (c(lt_Key l := ?n))"
    using tr w1 False by (auto simp: tracks_def)
  show ?thesis
  proof (cases "unat (lt_Limit l) < ?n")
    case True
    from store have "count (cache_set env (lt_Key l) (lt_Expire l) w1) = count w1"
      and "cached (cache_set env (lt_Key l) (lt_Expire l) w1) = insert (lt_Key l) (cached w1)"
      by (simp_all add: exact_store_def)
    with tr1 True lim have "tracks count cached limit_of
        (cache_set env (lt_Key l) (lt_Expire l) w1) (c(lt_Key l := ?n))"
      unfolding tracks_def by (simp split: if_splits) blast
    with True show ?thesis
      using get pipe gt by (auto simp: check_limit_def add_verdict_def)
  next
    case False
    with tr1 show ?thesis
      using get pipe gt by (auto simp: check_limit_def add_verdict_def)
  qed
qed

lemma check_limits_exact:
  assumes store: "exact_store env count cached"
    and "tracks count cached limit_of w c"
    and "\<And>l. l \<in> set ls \<Longrightarrow> unat (lt_Limit l) = limit_of (lt_Key l)"
    and "\<And>k. c k + hits_on k ls < 2 ^ 32"
  shows "\<exists>w'. fold (check_limit env) ls (res, w) = (add_verdicts (ref_verdicts ls c) res, w')
    \<and> tracks count cached limit_of w' (ref_counts ls c)"
  using assms(2-)
proof (induction ls arbitrary: res w c)
  case Nil
  then show ?case by simp
next
  case (Cons l ls)
  let ?v = "if unat (lt_Limit l) < c (lt_Key l) + unat (lt_Hits l) then CODE_OVER_LIMIT else CODE_OK"
  let ?c = "c(lt_Key l := c (lt_Key l) + unat (lt_Hits l))"
  have "c (lt_Key l) + unat (lt_Hits l) < 2 ^ 32"
    using Cons.prems(3) [of "lt_Key l"] by (simp add: hits_on_def)
  with check_limit_exact [OF store Cons.prems(1), of l res] Cons.prems(2) [of l]
  obtain w1 where step: "check_limit env l (res, w) = (add_verdict ?v res, w1)"
    and tr: "tracks count cached limit_of w1 ?c" by auto
  have bound: "?c k + hits_on k ls < 2 ^ 32" for k
    using Cons.prems(3) [of k] by (cases "lt_Key l = k") (auto simp: hits_on_def)
  from Cons.IH [OF tr _ bound, of "add_verdict ?v res"] obtain w' where "fold (check_limit env) ls (add_verdict ?v res, w1)
      = (add_verdicts (ref_verdicts ls ?c) (add_verdict ?v res), w')"
    and "tracks count cached limit_of w' (ref_counts ls ?c)"
    using Cons.prems(2) by (auto simp del: fun_upd_apply)
  with step show ?case by (simp add: add_verdicts_Cons Let_def)
qed

text \<open>C37: the local cache is transparent.  On a store that counts, for limits whose keys each have
  one limit and whose counters stay below 2^32, the statuses the service returns are those of
  counting every hit and comparing with the limit, although hits on keys cached as over their
  limit are never sent to Redis.\<close>

theorem rl_local_cache_transparent:
  assumes "exact_store env count cached" and "cached w = {}"
    and "\<And>l. l \<in> set (concat limits) \<Longrightarrow> unat (lt_Limit l) = limit_of (lt_Key l)"
    and "\<And>k. count w k + hits_on k (concat limits) < 2 ^ 32"
  shows "rs_Statuses (fst (check_limits env limits (\<lparr>rs_OverallCode = CODE_OK, rs_Statuses = []\<rparr>, w)))
    = ref_verdicts (concat limits) (count w)"
proof -
  have "tracks count cached limit_of w (count w)"
    using assms(2) by (simp add: tracks_def)
  from check_limits_exact [OF assms(1) this assms(3,4),
      of "\<lparr>rs_OverallCode = CODE_OK, rs_Statuses = []\<rparr>"]
  show ?thesis by (auto simp: check_limits_concat add_verdicts_def)
qed

theorem rl_local_cache_transparent_witness:
  "rs_Statuses (fst (check_limits (mem_env 0)
     [replicate 3 \<lparr>lt_Key = ''k'', lt_Limit = 1, lt_Hits = 1, lt_Result = 0, lt_Expire = 60\<rparr>]
     (\<lparr>rs_OverallCode = CODE_OK, rs_Statuses = []\<rparr>, mem_empty)))
   = [CODE_OK, CODE_OVER_LIMIT, CODE_OVER_LIMIT]"
proof -
  let ?l = "\<lparr>lt_Key = ''k'', lt_Limit = 1, lt_Hits = 1, lt_Result = 0, lt_Expire = 60\<rparr>"
  have "rs_Statuses (fst (check_limits (mem_env 0) [replicate 3 ?l]
      (\<lparr>rs_OverallCode = CODE_OK, rs_Statuses = []\<rparr>, mem_empty)))
    = ref_verdicts (concat [replicate 3 ?l]) (mem_counts mem_empty)"
    by (rule rl_local_cache_transparent [OF mem_env_exact, where limit_of = "\<lambda>_. 1"])
      (auto simp: mem_empty_def hits_on_def numeral_3_eq_3)
  then show ?thesis by (simp add: mem_empty_def numeral_3_eq_3)
qed

end
