(* ===== verification/RateLimitWindow.thy ===== *)
theory RateLimitWindow
  imports RateLimitExact
begin

text \<open>
  The rate limiter over a window of time: sequences of requests through
  \<open>ShouldRateLimit\<close> on one counter, and which requests use the same counter.
\<close>

section \<open>Sequences of requests\<close>

fun rl_run :: "'w rl_env \<Rightarrow> rl_Service \<Rightarrow> RateLimitRequest list \<Rightarrow> 'w
    \<Rightarrow> (RateLimitResponse list \<times> 'w) go" where
  "rl_run env s [] w = Inr ([], w)"
| "rl_run env s (r # rs) w =
     bind_go (rl_ShouldRateLimit env s r w) (\<lambda>(res, err, w1).
     bind_go (rl_run env s rs w1) (\<lambda>(ress, w2). Inr (res # ress, w2)))"

text \<open>A request with one descriptor entry whose key and value together make the key \<open>k\<close>.\<close>

definition on_counter :: "CacheConfig \<Rightarrow> string \<Rightarrow> CacheEntry \<Rightarrow> RateLimitRequest \<Rightarrow> bool" where
  "on_counter cc k ce r \<longleftrightarrow>
     (case (cc_Domains cc (rq_Domain r), rq_Descriptors r) of
        (Some dm, [[e]]) \<Rightarrow> combined_key dm e = k \<and> cd_Entries dm k = Some ce
      | _ \<Rightarrow> False)"

definition hits_of :: "RateLimitRequest \<Rightarrow> nat" where
  "hits_of r = unat (max_u32 1 (rq_HitsAddend r))"

text \<open>The clock of the environment stays in the window \<open>win\<close> of \<open>d\<close> seconds.\<close>

definition same_window :: "'w rl_env \<Rightarrow> ('w \<Rightarrow> string \<Rightarrow> nat) \<Rightarrow> ('w \<Rightarrow> string set) \<Rightarrow> u64 \<Rightarrow> u64 \<Rightarrow> bool" where
  "same_window env count cached d win \<longleftrightarrow>
     (\<forall>w. fst (now_unix env w) div d = win \<and>
        count (snd (now_unix env w)) = count w \<and> cached (snd (now_unix env w)) = cached w)"

definition verdict_at :: "nat \<Rightarrow> nat \<Rightarrow> RLCode" where
  "verdict_at limit n = (if limit < n then CODE_OVER_LIMIT else CODE_OK)"

definition window_key :: "string \<Rightarrow> u64 \<Rightarrow> u64 \<Rightarrow> string" where
  "window_key k d win = k @ format_uint (unat (win * d))"

lemma on_counterE:
  assumes "on_counter cc k ce r"
  obtains dm e where "cc_Domains cc (rq_Domain r) = Some dm" and "rq_Descriptors r = [[e]]"
    and "combined_key dm e = k" and "cd_Entries dm k = Some ce"
  using assms by (auto simp: on_counter_def split: option.splits list.splits)

lemma tracks_cong:
  "count w' = count w \<Longrightarrow> cached w' = cached w \<Longrightarrow>
     tracks count cached limit_of w' c = tracks count cached limit_of w c"
  by (simp add: tracks_def)

lemma ShouldRateLimit_on_counter:
  assumes store: "exact_store env count cached" and win: "same_window env count cached d win"
    and cfg: "rl_config s = Some cc" and unit: "unitToDivider (ce_Unit ce) = Inr d"
    and r: "on_counter cc k ce r"
    and tr: "tracks count cached (\<lambda>_. unat (ce_Limit ce)) w c"
    and bound: "c (window_key k d win) + hits_of r < 2 ^ 32"
  shows "\<exists>w'. rl_ShouldRateLimit env s r w =
      (let v = verdict_at (unat (ce_Limit ce)) (c (window_key k d win) + hits_of r)
       in Inr (\<lparr>rs_OverallCode = v, rs_Statuses = [v]\<rparr>, None, w'))
    \<and> tracks count cached (\<lambda>_. unat (ce_Limit ce)) w'
        (c(window_key k d win := c (window_key k d win) + hits_of r))"
proof -
  obtain dm e where dm: "cc_Domains cc (rq_Domain r) = Some dm" "rq_Descriptors r = [[e]]"
    and k: "combined_key dm e = k" "cd_Entries dm k = Some ce"
    using r by (rule on_counterE)
  obtain t w1 where now: "now_unix env w = (t, w1)" by (cases "now_unix env w")
  from win now have t: "t div d = win" "count w1 = count w" "cached w1 = cached w"
    by (auto simp: same_window_def dest: spec [of _ w])
  let ?l = "\<lparr>lt_Key = window_key k d win, lt_Limit = ce_Limit ce,
    lt_Hits = max_u32 1 (rq_HitsAddend r), lt_Result = 0, lt_Expire = d\<rparr>"
  have limits: "collect_limits env dm (max_u32 1 (rq_HitsAddend r)) (rq_Descriptors r) w = Inr ([[?l]], w1)"
    using dm k unit now t by (simp add: findDescriptor_def window_key_def Let_def)
  have "tracks count cached (\<lambda>_. unat (ce_Limit ce)) w1 c" using tr t by (simp add: tracks_def)
  from check_limit_exact [OF store this, of ?l "\<lparr>rs_OverallCode = CODE_OK, rs_Statuses = []\<rparr>"]
  show ?thesis
    using bound limits dm cfg
    by (auto simp: hits_of_def rl_ShouldRateLimit_def Let_def check_limits_def verdict_at_def
        add_verdict_def simp del: fun_upd_apply)
qed

lemma rl_run_on_counter:
  assumes store: "exact_store env count cached" and win: "same_window env count cached d win"
    and cfg: "rl_config s = Some cc" and unit: "unitToDivider (ce_Unit ce) = Inr d"
    and "\<forall>r \<in> set reqs. on_counter cc k ce r"
    and "tracks count cached (\<lambda>_. unat (ce_Limit ce)) w c"
    and "c (window_key k d win) + sum_list (map hits_of reqs) < 2 ^ 32"
  shows "\<exists>ress w'. rl_run env s reqs w = Inr (ress, w') \<and> length ress = length reqs \<and>
    (\<forall>i < length reqs. rs_OverallCode (ress ! i) = verdict_at (unat (ce_Limit ce))
       (c (window_key k d win) + sum_list (map hits_of (take (Suc i) reqs))))"
  using assms(5-)
proof (induction reqs arbitrary: w c)
  case Nil
  then show ?case by simp
next
  case (Cons r rs)
  let ?k = "window_key k d win"
  let ?c = "c(?k := c ?k + hits_of r)"
  let ?v = "verdict_at (unat (ce_Limit ce)) (c ?k + hits_of r)"
  obtain w1 where step: "rl_ShouldRateLimit env s r w =
      Inr (\<lparr>rs_OverallCode = ?v, rs_Statuses = [?v]\<rparr>, None, w1)"
    and tr: "tracks count cached (\<lambda>_. unat (ce_Limit ce)) w1 ?c"
    using ShouldRateLimit_on_counter [OF store win cfg unit _ Cons.prems(2), of k r] Cons.prems
    by (auto simp: Let_def)
  have "?c ?k + sum_list (map hits_of rs) < 2 ^ 32" using Cons.prems(3) by simp
  with Cons.IH [OF _ tr] Cons.prems(1)
  obtain ress w' where run: "rl_run env s rs w1 = Inr (ress, w')" and len: "length ress = length rs"
    and verdicts: "\<forall>i < length rs. rs_OverallCode (ress ! i) = verdict_at (unat (ce_Limit ce))
       (?c ?k + sum_list (map hits_of (take (Suc i) rs)))" by auto
  let ?ress = "\<lparr>rs_OverallCode = ?v, rs_Statuses = [?v]\<rparr> # ress"
  have "rs_OverallCode (?ress ! i) = verdict_at (unat (ce_Limit ce))
      (c ?k + sum_list (map hits_of (take (Suc i) (r # rs))))" if "i < length (r # rs)" for i
    using that verdicts by (cases i) (auto simp: add.assoc)
  with run len step show ?case by (intro exI [of _ ?ress]) auto
qed

section \<open>Enforcement and shared counters\<close>

text \<open>Within one window, and while the counter stays below 2^32, a sequence of requests on one
  counter is answered exactly: the i-th request is over the limit if and only if the hits of
  the requests up to and including it, added to the counter before them, exceed the limit.
  Each request counts for its \<open>hits_addend\<close>, at least one.\<close>

theorem rl_window_enforced:
  assumes "exact_store env count cached" and "cached w = {}"
    and "same_window env count cached d win"
    and "rl_config s = Some cc" and "unitToDivider (ce_Unit ce) = Inr d"
    and "\<forall>r \<in> set reqs. on_counter cc k ce r"
    and "count w (window_key k d win) + sum_list (map hits_of reqs) < 2 ^ 32"
  shows "\<exists>ress w'. rl_run env s reqs w = Inr (ress, w') \<and> length ress = length reqs \<and>
    (\<forall>i < length reqs. rs_OverallCode (ress ! i) =
       (if unat (ce_Limit ce) < count w (window_key k d win)
             + sum_list (map (\<lambda>r. unat (max_u32 1 (rq_HitsAddend r))) (take (Suc i) reqs))
        then CODE_OVER_LIMIT else CODE_OK))"
proof -
  have "tracks count cached (\<lambda>_. unat (ce_Limit ce)) w (count w)"
    using assms(2) by (simp add: tracks_def)
  from rl_run_on_counter [OF assms(1,3-6) this assms(7)] show ?thesis
    by (simp only: verdict_at_def hits_of_def [abs_def])
qed

definition path_request :: "string \<Rightarrow> RateLimitRequest" where
  "path_request d = \<lparr>rq_Domain = d, rq_Descriptors = [[\<lparr>de_Key = ''path'', de_Value = ''/a''\<rparr>]],
     rq_HitsAddend = 3\<rparr>"

definition two_domains :: CacheConfig where
  "two_domains = \<lparr>cc_Domains = [''web'' \<mapsto> sample_domain, ''api'' \<mapsto> sample_domain]\<rparr>"

lemma path_request_on_counter:
  "d \<in> {''web'', ''api''} \<Longrightarrow>
     on_counter two_domains ''path/a'' \<lparr>ce_Limit = 5, ce_Unit = UNIT_MINUTE\<rparr> (path_request d)"
  by (auto simp: on_counter_def path_request_def two_domains_def sample_domain_def combined_key_def)

lemma path_request_simps [simp]:
  "rq_Domain (path_request d) = d" "hits_of (path_request d) = 3"
  by (simp_all add: path_request_def hits_of_def max_u32_def)

lemma mem_env_same_window: "same_window (mem_env t) mem_counts mem_cached d (t div d)"
  by (simp add: same_window_def mem_env_def)

theorem rl_window_enforced_witness:
  "\<exists>r1 r2 w'. rl_run (mem_env 61) \<lparr>rl_config = Some two_domains\<rparr>
      [path_request ''web'', path_request ''web''] mem_empty = Inr ([r1, r2], w')
    \<and> rs_OverallCode r1 = CODE_OK \<and> rs_OverallCode r2 = CODE_OVER_LIMIT"
proof -
  let ?reqs = "[path_request ''web'', path_request ''web'']"
  have h: "map (\<lambda>r. unat (max_u32 1 (rq_HitsAddend r))) ?reqs = [3, 3]" "map hits_of ?reqs = [3, 3]"
    by (simp_all add: path_request_def max_u32_def hits_of_def)
  obtain ress w' where run: "rl_run (mem_env 61) \<lparr>rl_config = Some two_domains\<rparr> ?reqs mem_empty = Inr (ress, w')"
    and len: "length ress = 2"
    and v: "\<forall>i < length ?reqs. rs_OverallCode (ress ! i) =
       (if unat (ce_Limit \<lparr>ce_Limit = 5, ce_Unit = UNIT_MINUTE\<rparr>)
           < mem_counts mem_empty (window_key ''path/a'' 60 (61 div 60))
             + sum_list (map (\<lambda>r. unat (max_u32 1 (rq_HitsAddend r))) (take (Suc i) ?reqs))
        then CODE_OVER_LIMIT else CODE_OK)"
    using rl_window_enforced [OF mem_env_exact [of 61], where w = mem_empty and reqs = ?reqs and d = 60
        and win = "61 div 60" and k = "''path/a''" and cc = two_domains
        and ce = "\<lparr>ce_Limit = 5, ce_Unit = UNIT_MINUTE\<rparr>" and s = "\<lparr>rl_config = Some two_domains\<rparr>"]
      path_request_on_counter [of "''web''"] mem_env_same_window [of 61 60] h
    by (auto simp: mem_empty_def simp del: rl_run.simps)
  have "rs_OverallCode (ress ! 0) = CODE_OK" "rs_OverallCode (ress ! 1) = CODE_OVER_LIMIT"
    using v [rule_format, of 0] v [rule_format, of 1]
    by (simp_all add: mem_empty_def path_request_def max_u32_def)
  with run len show ?thesis
    by (intro exI [of _ "ress ! 0"] exI [of _ "ress ! 1"] exI [of _ w'])
      (auto simp: numeral_2_eq_2 length_Suc_conv)
qed

text \<open>The start of a window does not wrap, and determines the window.\<close>

lemma unat_window_start: "unat (t div d * d) = unat t div unat d * unat d" for t d :: u64
proof -
  have "unat t div unat d * unat d < 2 ^ 64"
    using unsigned_less [of t] by (intro le_less_trans [OF div_times_less_eq_dividend]) simp
  then have "unat (t div d) * unat d < 2 ^ LENGTH(64)" by (simp add: unat_div)
  then have "unat (t div d * d) = unat (t div d) * unat d" by (simp only: unat_mult_lem)
  then show ?thesis by (simp only: unat_div)
qed

lemma div_times_inject:
  fixes t1 t2 d :: u64
  assumes "d \<noteq> 0"
  shows "unat (t1 div d * d) = unat (t2 div d * d) \<longleftrightarrow> t1 div d = t2 div d"
proof -
  have "0 < unat d" using assms by (simp add: unat_gt_0)
  then have "unat t1 div unat d * unat d = unat t2 div unat d * unat d \<longleftrightarrow>
      unat t1 div unat d = unat t2 div unat d" by simp
  then show ?thesis
    unfolding unat_window_start by (metis unat_div word_eq_iff_unsigned)
qed

text \<open>Two requests on the same entry use the same counter if and only if they come in the same
  window: the counter is the entry's key followed by the start of the window in decimal.\<close>

theorem rl_counter_per_window:
  assumes "find_entries config t1 h [e] = Inr [l1]" and "find_entries config t2 h [e] = Inr [l2]"
  shows "lt_Key l1 = lt_Key l2 \<longleftrightarrow> t1 div lt_Expire l1 = t2 div lt_Expire l2"
proof -
  from assms(1) obtain ce where ce: "cd_Entries config (combined_key config e) = Some ce"
    by (auto split: option.splits)
  with assms have "unitToDivider (ce_Unit ce) = Inr (lt_Expire l1)" "lt_Expire l2 = lt_Expire l1"
    and keys: "lt_Key l1 = combined_key config e @ format_uint (unat (t1 div lt_Expire l1 * lt_Expire l1))"
      "lt_Key l2 = combined_key config e @ format_uint (unat (t2 div lt_Expire l1 * lt_Expire l1))"
    by (auto simp: go_simps)
  moreover from this(1) have "lt_Expire l1 \<noteq> 0" by (cases "ce_Unit ce") auto
  ultimately show ?thesis by (simp add: format_uint_inject div_times_inject)
qed

theorem rl_counter_per_window_witness:
  "\<exists>l1 l2. find_entries sample_domain 61 1 [\<lparr>de_Key = ''path'', de_Value = ''/a''\<rparr>] = Inr [l1]
     \<and> find_entries sample_domain 119 1 [\<lparr>de_Key = ''path'', de_Value = ''/a''\<rparr>] = Inr [l2]
     \<and> lt_Key l1 = lt_Key l2"
proof -
  obtain l1 l2 where l: "find_entries sample_domain 61 1 [\<lparr>de_Key = ''path'', de_Value = ''/a''\<rparr>] = Inr [l1]"
      "find_entries sample_domain 119 1 [\<lparr>de_Key = ''path'', de_Value = ''/a''\<rparr>] = Inr [l2]"
    and "lt_Expire l1 = 60" "lt_Expire l2 = 60"
    by (simp add: sample_domain_def combined_key_def)
  with rl_counter_per_window [OF l] show ?thesis by auto
qed

text \<open>C38: counters are not separated by domain, nor by where the key ends and the value begins: once
  requests on one domain have used up a limit, the first request on another domain whose key
  and value concatenate to the same text and whose entry is the same is over the limit.\<close>

theorem rl_domains_share_counter:
  assumes "exact_store env count cached" and "cached w = {}"
    and "same_window env count cached d win"
    and "rl_config s = Some cc" and "unitToDivider (ce_Unit ce) = Inr d"
    and "\<forall>r \<in> set reqs. on_counter cc k ce r \<and> rq_Domain r = d1"
    and "on_counter cc k ce r" and "rq_Domain r \<noteq> d1"
    and "unat (ce_Limit ce) \<le> length reqs"
    and "count w (window_key k d win) + sum_list (map hits_of (reqs @ [r])) < 2 ^ 32"
  shows "\<exists>ress res w'. rl_run env s (reqs @ [r]) w = Inr (ress @ [res], w') \<and>
    rs_OverallCode res = CODE_OVER_LIMIT"
proof -
  have "tracks count cached (\<lambda>_. unat (ce_Limit ce)) w (count w)"
    using assms(2) by (simp add: tracks_def)
  moreover have "\<forall>r' \<in> set (reqs @ [r]). on_counter cc k ce r'" using assms(6,7) by auto
  ultimately obtain ress w' where run: "rl_run env s (reqs @ [r]) w = Inr (ress, w')"
    and len: "length ress = Suc (length reqs)"
    and v: "\<forall>i < Suc (length reqs). rs_OverallCode (ress ! i) = verdict_at (unat (ce_Limit ce))
       (count w (window_key k d win) + sum_list (map hits_of (take (Suc i) (reqs @ [r]))))"
    using rl_run_on_counter [OF assms(1,3-5), of "reqs @ [r]" k w "count w"] assms(10) by auto
  have one: "1 \<le> hits_of r'" for r'
    by (auto simp: hits_of_def max_u32_def word_less_nat_alt)
  have "length rs \<le> sum_list (map hits_of rs)" for rs
  proof (induction rs)
    case (Cons r' rs)
    with one [of r'] show ?case by simp
  qed simp
  from this [of "reqs @ [r]"] have "Suc (length reqs) \<le> sum_list (map hits_of (reqs @ [r]))" by simp
  with v [rule_format, of "length reqs"] assms(9)
  have "rs_OverallCode (ress ! length reqs) = CODE_OVER_LIMIT" by (simp add: verdict_at_def)
  moreover from len have "ress = butlast ress @ [ress ! length reqs]"
    by (metis append_butlast_last_id diff_Suc_1 last_conv_nth length_0_conv nat.simps(3))
  ultimately show ?thesis using run by metis
qed

theorem rl_domains_share_counter_witness:
  "\<exists>ress res w'. rl_run (mem_env 61) \<lparr>rl_config = Some two_domains\<rparr>
      (replicate 5 (path_request ''web'') @ [path_request ''api'']) mem_empty = Inr (ress @ [res], w')
    \<and> rs_OverallCode res = CODE_OVER_LIMIT"
  by (rule rl_domains_share_counter [OF mem_env_exact [of 61], where k = "''path/a''" and d = 60
        and win = "61 div 60" and cc = two_domains and ce = "\<lparr>ce_Limit = 5, ce_Unit = UNIT_MINUTE\<rparr>"
        and ?d1.0 = "''web''"])
    (simp_all add: path_request_on_counter mem_env_same_window [of 61 60, simplified] mem_empty_def
       sum_list_replicate)

end
