(* ===== verification/Process.thy ===== *)
theory Process
  imports Prelude
begin

text \<open>
  The shape of the servers' main programs after start-up: a loop over the change stream of a
  MongoDB collection that loads the configuration again and installs it in the service.  A
  change event is the outcome of decoding it, its operation type, and what a query of the
  collection returns when the event is handled; the last is how the database enters the model.
\<close>

section \<open>Processes and change streams\<close>

text \<open>\<open>log.Fatal\<close> ends the process; a panic on the main goroutine does too.\<close>

datatype 's process = Running 's | Exited string | Crashed panic

record 'doc change_event =
  ev_decoded :: bool
  ev_operation :: "string option"
  ev_found :: "string + 'doc list"

fun run_loop :: "('ev \<Rightarrow> 's \<Rightarrow> 's process) \<Rightarrow> 'ev list \<Rightarrow> 's \<Rightarrow> 's process" where
  "run_loop step [] s = Running s"
| "run_loop step (e # es) s =
     (case step e s of
        Running s' \<Rightarrow> run_loop step es s'
      | Exited msg \<Rightarrow> Exited msg
      | Crashed p \<Rightarrow> Crashed p)"

lemma run_loop_append:
  "run_loop step (es @ fs) s =
     (case run_loop step es s of
        Running s' \<Rightarrow> run_loop step fs s'
      | Exited msg \<Rightarrow> Exited msg
      | Crashed p \<Rightarrow> Crashed p)"
  by (induction es arbitrary: s) (auto split: process.splits)

text \<open>\<open>cache, err = loadConfig(ctx)\<close> leaves nil in the cache on an error.\<close>

definition installed :: "string + 'c \<Rightarrow> 'c option" where
  "installed r = (case r of Inl _ \<Rightarrow> None | Inr c \<Rightarrow> Some c)"

definition last_load :: "('ev \<Rightarrow> bool) \<Rightarrow> ('ev \<Rightarrow> 'c option) \<Rightarrow> 'ev list \<Rightarrow> 'c option \<Rightarrow> 'c option" where
  "last_load relevant loads es c0 =
     (if filter relevant es = [] then c0 else loads (last (filter relevant es)))"

lemma last_load_Nil [simp]: "last_load relevant loads [] c = c"
  by (simp add: last_load_def)

lemma last_load_Cons [simp]:
  "last_load relevant loads (e # es) c = last_load relevant loads es (if relevant e then loads e else c)"
  by (simp add: last_load_def)

text \<open>
  What the three loops have in common: an event the loop reacts to installs what it loads,
  any other event changes nothing, and an event that cannot be read ends the process.
\<close>

locale reloader =
  fixes step :: "'ev \<Rightarrow> 's \<Rightarrow> 's process"
    and readable :: "'ev \<Rightarrow> bool"
    and relevant :: "'ev \<Rightarrow> bool"
    and loads :: "'ev \<Rightarrow> 'c option"
    and served :: "'s \<Rightarrow> 'c option"
  assumes step_relevant:
      "readable e \<Longrightarrow> relevant e \<Longrightarrow> \<exists>s'. step e s = Running s' \<and> served s' = loads e"
    and step_ignored: "readable e \<Longrightarrow> \<not> relevant e \<Longrightarrow> step e s = Running s"
    and step_unreadable: "\<not> readable e \<Longrightarrow> step e s \<noteq> Running s'"
begin

lemma step_running:
  assumes "readable e"
  obtains s' where "step e s = Running s'"
    and "served s' = (if relevant e then loads e else served s)"
  using step_relevant [OF assms, of s] step_ignored [OF assms, of s] by (cases "relevant e") auto

lemma serves_last_load:
  assumes "\<forall>e \<in> set es. readable e"
  shows "\<exists>s'. run_loop step es s = Running s' \<and> served s' = last_load relevant loads es (served s)"
  using assms
proof (induction es arbitrary: s)
  case Nil
  then show ?case by simp
next
  case (Cons e es)
  then obtain s1 where s1: "step e s = Running s1"
      "served s1 = (if relevant e then loads e else served s)"
    using step_running [of e s] by auto
  from Cons.IH [of s1] Cons.prems s1 show ?case by auto
qed

lemma stops_at_unreadable:
  assumes "\<exists>e \<in> set es. \<not> readable e"
  shows "run_loop step es s \<noteq> Running s'"
  using assms
proof (induction es arbitrary: s)
  case (Cons e es)
  show ?case
  proof (cases "readable e")
    case True
    then obtain s1 where "step e s = Running s1" using step_running by blast
    with Cons True show ?thesis by auto
  next
    case False
    then show ?thesis using step_unreadable [of e s] by (auto split: process.splits)
  qed
qed simp

text \<open>The configuration served after a history is that of any history with the same last load.\<close>

lemma running_iff_readable:
  "(\<exists>s'. run_loop step es s = Running s') \<longleftrightarrow> (\<forall>e \<in> set es. readable e)"
  using serves_last_load stops_at_unreadable by blast

end

end
