(* ===== verification/ExtAuth.thy ===== *)
theory ExtAuth
  imports GoStrings
begin

text \<open>
  The part of Envoy's external-authorization protocol that both authorization services
  (\<open>authz/authz.go\<close>, \<open>authzs3/authzs3.go\<close>) use: the fields of a check request they read,
  the check response they fill in, and the contract of their \<open>setStatus\<close> helpers, stated
  as the locale \<open>verdict_writer\<close>.  Message pointers are options.
\<close>

section \<open>Check requests\<close>

text \<open>The oneof in \<open>core.Address\<close>: a socket address, or a kind the services ignore.\<close>

datatype address_kind = Address_SocketAddress "string option" | Address_Other

record core_address =
  ca_Address :: "address_kind option"

record peer =
  peer_Address :: "core_address option"

record http_request =
  Host :: string
  Path :: string
  Headers :: "string \<rightharpoonup> string"

record attr_request =
  Http :: "http_request option"

record attribute_context =
  Request :: "attr_request option"
  Source :: "peer option"

record check_request =
  Attributes :: "attribute_context option"

text \<open>\<open>req.Attributes.Source.Address.Address\<close>, the value the type switch inspects.\<close>

definition source_address :: "attribute_context \<Rightarrow> address_kind option go" where
  "source_address attrs =
     bind_go (deref (Source attrs)) (\<lambda>p.
     bind_go (deref (peer_Address p)) (\<lambda>ca. Inr (ca_Address ca)))"

text \<open>
  Envoy fills in \<open>Attributes\<close>, the source peer and its address on every check; a socket
  address carries its message.
\<close>

definition addressed :: "attribute_context \<Rightarrow> bool" where
  "addressed attrs \<longleftrightarrow>
     (case source_address attrs of Inr (Some (Address_SocketAddress None)) \<Rightarrow> False
      | Inr _ \<Rightarrow> True | Inl _ \<Rightarrow> False)"

text \<open>The peer's IP address when it is a socket address.\<close>

definition source_ip :: "attribute_context \<Rightarrow> string option" where
  "source_ip attrs =
     (case source_address attrs of Inr (Some (Address_SocketAddress ip)) \<Rightarrow> ip | _ \<Rightarrow> None)"

definition request_from :: "string \<Rightarrow> http_request \<Rightarrow> check_request" where
  "request_from ip http =
     \<lparr>Attributes = Some
        \<lparr>Request = Some \<lparr>Http = Some http\<rparr>,
         Source = Some \<lparr>peer_Address = Some \<lparr>ca_Address =
           Some (Address_SocketAddress (Some ip))\<rparr>\<rparr>\<rparr>\<rparr>"

lemma source_request_from [simp]:
  "Attributes (request_from ip http) = Some
     \<lparr>Request = Some \<lparr>Http = Some http\<rparr>,
      Source = Some \<lparr>peer_Address = Some \<lparr>ca_Address =
        Some (Address_SocketAddress (Some ip))\<rparr>\<rparr>\<rparr>"
  by (simp add: request_from_def)

text \<open>An address that can be read is the one \<open>source_ip\<close> reports.\<close>

lemma source_address_cases:
  assumes "source_address attrs = Inr addr"
  obtains (socket) ip where "addr = Some (Address_SocketAddress (Some ip))"
      and "source_ip attrs = Some ip"
    | (nil_socket) "addr = Some (Address_SocketAddress None)" and "source_ip attrs = None"
    | (other) "addr = None \<or> addr = Some Address_Other" and "source_ip attrs = None"
proof (cases addr)
  case None
  with assms that(3) show ?thesis by (simp add: source_ip_def)
next
  case (Some k)
  with assms that show ?thesis
    by (cases k; cases "case k of Address_SocketAddress ip \<Rightarrow> ip | Address_Other \<Rightarrow> None")
      (auto simp: source_ip_def)
qed

section \<open>Check responses\<close>

datatype header_value_option =
  HeaderValueOption (hv_key: string) (hv_value: string) (hv_append: bool)

datatype http_response =
    OkResponse "header_value_option list"
  | DeniedResponse int "header_value_option list"

record check_response =
  Code :: int
  HttpResponse :: http_response

text \<open>The response both \<open>Check\<close> methods start from.\<close>

definition initial_response :: check_response where
  "initial_response = \<lparr>Code = 200, HttpResponse = OkResponse []\<rparr>"

definition is_allowed :: "check_response \<Rightarrow> bool" where
  "is_allowed r \<longleftrightarrow> (case HttpResponse r of OkResponse _ \<Rightarrow> True | DeniedResponse _ _ \<Rightarrow> False)"

text \<open>
  A settled response: the gRPC status and the HTTP part agree (\<open>OK\<close> with an ok response,
  \<open>PERMISSION_DENIED\<close> with a 403).
\<close>

definition settled :: "check_response \<Rightarrow> bool" where
  "settled r \<longleftrightarrow>
     (case HttpResponse r of OkResponse _ \<Rightarrow> Code r = 0 | DeniedResponse c _ \<Rightarrow> Code r = 7 \<and> c = 403)"

lemma initial_response_allowed [simp]: "is_allowed initial_response"
  by (simp add: initial_response_def is_allowed_def)

lemma initial_response_unsettled [simp]: "\<not> settled initial_response"
  by (simp add: initial_response_def settled_def)

section \<open>Writing a verdict\<close>

text \<open>
  What the \<open>Check\<close> methods rely on in \<open>setStatus\<close>: it writes the whole verdict, so of
  several calls the last one decides.
\<close>

locale verdict_writer =
  fixes set_verdict :: "check_response \<Rightarrow> bool \<Rightarrow> string \<Rightarrow> check_response"
  assumes allowed_set: "is_allowed (set_verdict r a ns) = a"
    and settled_set: "settled (set_verdict r a ns)"
    and last_wins: "set_verdict (set_verdict r a ns) b ns' = set_verdict r b ns'"
begin

text \<open>A run of verdicts \<open>(action, namespace)\<close>, written one after the other.\<close>

lemma code_set: "Code (set_verdict r a ns) = (if a then 0 else 7)"
  using allowed_set [of r a ns] settled_set [of r a ns]
  by (auto simp: is_allowed_def settled_def split: http_response.splits)

lemma fold_verdicts:
  "foldl (\<lambda>r (a, ns). set_verdict r a ns) r vs =
     (if vs = [] then r else (case last vs of (a, ns) \<Rightarrow> set_verdict r a ns))"
  by (induction vs rule: rev_induct) (auto simp: last_wins split: prod.splits)

lemma fold_verdicts_allowed:
  "is_allowed (foldl (\<lambda>r (a, ns). set_verdict r a ns) initial_response vs)
     \<longleftrightarrow> vs = [] \<or> fst (last vs)"
  by (simp add: fold_verdicts allowed_set split: prod.splits)

lemma fold_verdicts_settled:
  "settled (foldl (\<lambda>r (a, ns). set_verdict r a ns) initial_response vs) \<longleftrightarrow> vs \<noteq> []"
  by (simp add: fold_verdicts settled_set split: prod.splits)

lemma fold_verdicts_code:
  "Code (foldl (\<lambda>r (a, ns). set_verdict r a ns) initial_response vs) =
     (if vs = [] then 200 else if fst (last vs) then 0 else 7)"
  by (simp add: fold_verdicts code_set initial_response_def split: prod.splits)

end

end
