(* ===== verification/Authz.thy ===== *)
theory Authz
  imports ExtAuth
begin

text \<open>
  The authorization service of \<open>authz/authz.go\<close> with its configuration types
  (\<open>authz/authzConfig.go\<close>).  \<open>az_check\<close> is \<open>Service.Check\<close>, branch by branch;
  \<open>az_matching\<close> is its specification: the actions of the rules that match a request, from
  the domain rule to the header rule, of which the last one decides.
\<close>

section \<open>Configuration\<close>

record HeaderConfig =
  hc_Name :: string
  hc_Value :: string

record HeadersConfig =
  hsc_Action :: bool
  hsc_Headers :: "HeaderConfig list"

record SourceConfig =
  sc_Action :: bool
  sc_Headers :: "HeadersConfig option"

text \<open>A nil map is \<open>None\<close>: the code tests the maps against nil.\<close>

record DomainConfig =
  dc_Action :: bool
  dc_Sources :: "(string \<rightharpoonup> SourceConfig) option"

record AuthzConfig =
  az_Domains :: "(string \<rightharpoonup> DomainConfig) option"

record AuthzConfigType =
  az_Config :: AuthzConfig

section \<open>The service\<close>

text \<open>The read-write lock makes the configuration pointer one atomic cell.\<close>

record az_Service =
  az_config :: "AuthzConfigType option"

definition az_SetConfig :: "AuthzConfigType option \<Rightarrow> az_Service \<Rightarrow> az_Service" where
  "az_SetConfig newConfig s = s\<lparr>az_config := newConfig\<rparr>"

definition az_setStatus :: "check_response \<Rightarrow> bool \<Rightarrow> check_response" where
  "az_setStatus res action =
     (if action then res\<lparr>HttpResponse := OkResponse [], Code := 0\<rparr>
      else res\<lparr>HttpResponse := DeniedResponse 403 [], Code := 7\<rparr>)"

text \<open>The rule of a source address: the action itself, or the first header's condition.\<close>

definition az_check_source_rule ::
    "check_response \<Rightarrow> http_request \<Rightarrow> SourceConfig \<Rightarrow> check_response go" where
  "az_check_source_rule result http a =
     (case sc_Headers a of
        None \<Rightarrow> Inr (az_setStatus result (sc_Action a))
      | Some hs \<Rightarrow>
          bind_go (index_go (hsc_Headers hs) 0) (\<lambda>h0.
          case Headers http (canonical_mime_header_key (hc_Name h0)) of
            None \<Rightarrow> Inr result
          | Some h \<Rightarrow>
              if h = hc_Value h0 then Inr (az_setStatus result (hsc_Action hs))
              else Inr result))"

text \<open>The type switch on the source address.\<close>

definition az_check_sources ::
    "check_response \<Rightarrow> attribute_context \<Rightarrow> http_request \<Rightarrow> (string \<rightharpoonup> SourceConfig)
       \<Rightarrow> check_response go" where
  "az_check_sources result attrs http sources =
     bind_go (source_address attrs) (\<lambda>addr.
     case addr of
       Some (Address_SocketAddress sa) \<Rightarrow>
         bind_go (deref sa) (\<lambda>ip.
         case sources ip of
           None \<Rightarrow> Inr result
         | Some a \<Rightarrow> az_check_source_rule result http a)
     | _ \<Rightarrow> Inr result)"

definition az_check :: "az_Service \<Rightarrow> check_request \<Rightarrow> check_response go" where
  "az_check s req =
    (let currentConfig = az_config s; result = initial_response in
     bind_go (deref (Attributes req)) (\<lambda>attrs.
     case Request attrs of None \<Rightarrow> Inr result
     | Some request \<Rightarrow>
     (case Http request of None \<Rightarrow> Inr result
     | Some http \<Rightarrow>
     (case currentConfig of None \<Rightarrow> Inr result
     | Some cfg \<Rightarrow>
     (case az_Domains (az_Config cfg) of None \<Rightarrow> Inr result
     | Some domains \<Rightarrow>
     (case domains (Host http) of None \<Rightarrow> Inr result
     | Some r \<Rightarrow>
       (let result = az_setStatus result (dc_Action r) in
        case dc_Sources r of
          None \<Rightarrow> Inr result
        | Some sources \<Rightarrow> az_check_sources result attrs http sources)))))))"

interpretation az: verdict_writer "\<lambda>r a ns. az_setStatus r a"
  by unfold_locales (auto simp: az_setStatus_def is_allowed_def settled_def)

section \<open>Specification\<close>

text \<open>The header rule of a source rule, when its first header is the one sent.\<close>

definition az_header_matches :: "HeadersConfig \<Rightarrow> (string \<rightharpoonup> string) \<Rightarrow> bool" where
  "az_header_matches hs sent \<longleftrightarrow>
     (case hsc_Headers hs of [] \<Rightarrow> False
      | h # _ \<Rightarrow> sent (canonical_mime_header_key (hc_Name h)) = Some (hc_Value h))"

definition az_source_actions :: "SourceConfig \<Rightarrow> (string \<rightharpoonup> string) \<Rightarrow> bool list" where
  "az_source_actions a sent =
     (case sc_Headers a of None \<Rightarrow> [sc_Action a]
      | Some hs \<Rightarrow> if az_header_matches hs sent then [hsc_Action hs] else [])"

text \<open>The rules that match, from the least to the most specific.\<close>

definition az_matching ::
    "AuthzConfigType option \<Rightarrow> string \<Rightarrow> string option \<Rightarrow> (string \<rightharpoonup> string) \<Rightarrow> bool list" where
  "az_matching cfg host ip sent =
     (case Option.bind (Option.bind cfg (\<lambda>c. az_Domains (az_Config c))) (\<lambda>d. d host) of
        None \<Rightarrow> []
      | Some r \<Rightarrow> dc_Action r #
         (case Option.bind ip (\<lambda>i. Option.bind (dc_Sources r) (\<lambda>m. m i)) of
            None \<Rightarrow> []
          | Some a \<Rightarrow> az_source_actions a sent))"

text \<open>A configuration whose header rules name at least one header.\<close>

definition az_headers_named :: "AuthzConfigType \<Rightarrow> bool" where
  "az_headers_named cfg \<longleftrightarrow>
     (\<forall>d h r m i a hs. az_Domains (az_Config cfg) = Some d \<longrightarrow> d h = Some r \<longrightarrow>
        dc_Sources r = Some m \<longrightarrow> m i = Some a \<longrightarrow> sc_Headers a = Some hs \<longrightarrow> hsc_Headers hs \<noteq> [])"

section \<open>Correctness\<close>

lemma az_setStatus_twice [simp]: "az_setStatus (az_setStatus r a) b = az_setStatus r b"
  by (rule az.last_wins)

lemma az_check_source_rule_Inr:
  "az_check_source_rule r http a = Inr res \<Longrightarrow>
     res = foldl az_setStatus r (az_source_actions a (Headers http))"
  by (auto simp: az_check_source_rule_def az_source_actions_def az_header_matches_def go_simps
      split: option.splits if_splits list.splits)

lemma az_check_source_rule_total:
  "(\<And>hs. sc_Headers a = Some hs \<Longrightarrow> hsc_Headers hs \<noteq> []) \<Longrightarrow>
     \<exists>res. az_check_source_rule r http a = Inr res"
  by (auto simp: az_check_source_rule_def index_go_0_nonempty split: option.splits)

lemma az_check_sources_Inr:
  assumes "az_check_sources r attrs http m = Inr res"
  shows "res = foldl az_setStatus r
     (case Option.bind (source_ip attrs) m of
        None \<Rightarrow> [] | Some a \<Rightarrow> az_source_actions a (Headers http))"
proof -
  from assms obtain addr where addr: "source_address attrs = Inr addr"
    by (auto simp: az_check_sources_def go_simps)
  from addr show ?thesis
    by (cases rule: source_address_cases)
      (use assms addr in \<open>auto simp: az_check_sources_def dest: az_check_source_rule_Inr
         split: option.splits\<close>)
qed

lemma az_check_sources_total:
  assumes "addressed attrs"
    and "\<And>i a hs. m i = Some a \<Longrightarrow> sc_Headers a = Some hs \<Longrightarrow> hsc_Headers hs \<noteq> []"
  shows "\<exists>res. az_check_sources r attrs http m = Inr res"
proof -
  from assms(1) obtain addr where addr: "source_address attrs = Inr addr"
    by (auto simp: addressed_def split: sum.splits)
  from addr show ?thesis
  proof (cases rule: source_address_cases)
    case (socket ip)
    with addr show ?thesis
      using assms(2) by (auto simp: az_check_sources_def split: option.splits
          intro!: az_check_source_rule_total)
  next
    case nil_socket
    with assms(1) addr show ?thesis by (simp add: addressed_def)
  next
    case other
    with addr show ?thesis by (auto simp: az_check_sources_def)
  qed
qed

text \<open>What \<open>az_check\<close> answers on a request that carries an HTTP part.\<close>

lemma az_check_Inr:
  assumes "az_check s req = Inr res"
    and "Attributes req = Some attrs" and "Request attrs = Some rq" and "Http rq = Some http"
  shows "res = foldl az_setStatus initial_response
                 (az_matching (az_config s) (Host http) (source_ip attrs) (Headers http))"
  using assms
  by (cases "source_ip attrs")
    (auto simp: az_check_def az_matching_def Let_def dest!: az_check_sources_Inr
      split: option.splits)

lemma az_check_total:
  assumes "Attributes req = Some attrs" and "addressed attrs"
    and "\<And>cfg. az_config s = Some cfg \<Longrightarrow> az_headers_named cfg"
  shows "\<exists>res. az_check s req = Inr res"
  using assms
  by (auto simp: az_check_def Let_def az_headers_named_def split: option.splits
      intro!: az_check_sources_total)

text \<open>The contract of \<open>setStatus\<close>, read off for a list of actions.\<close>

lemma az_fold_allowed:
  "is_allowed (foldl az_setStatus initial_response acts) \<longleftrightarrow> acts = [] \<or> last acts"
  using az.fold_verdicts_allowed [of "map (\<lambda>a. (a, [])) acts"]
  by (cases "acts = []") (simp_all add: foldl_map last_map)

lemma az_fold_code:
  "Code (foldl az_setStatus initial_response acts) =
     (if acts = [] then 200 else if last acts then 0 else 7)"
  using az.fold_verdicts_code [of "map (\<lambda>a. (a, [])) acts"]
  by (cases "acts = []") (simp_all add: foldl_map last_map)

lemma az_fold_settled:
  "settled (foldl az_setStatus initial_response acts) \<longleftrightarrow> acts \<noteq> []"
  using az.fold_verdicts_settled [of "map (\<lambda>a. (a, [])) acts"] by (auto simp: foldl_map)

section \<open>Properties\<close>

text \<open>C3: on every HTTP request whose source address Envoy filled in, under a configuration
  whose header rules name a header, \<open>Check\<close> answers (it does not panic), and its answer is
  the one of the most specific matching rule: the header rule before the source rule
  before the domain rule.  With no matching rule the request is allowed, under status
  code 200.\<close>

theorem az_check_most_specific_rule:
  assumes "Attributes req = Some attrs" and "Request attrs = Some rq" and "Http rq = Some http"
    and "addressed attrs"
    and "\<And>cfg. az_config s = Some cfg \<Longrightarrow> az_headers_named cfg"
  shows "\<exists>res. az_check s req = Inr res \<and>
    (let acts = az_matching (az_config s) (Host http) (source_ip attrs) (Headers http)
     in (is_allowed res \<longleftrightarrow> acts = [] \<or> last acts) \<and>
        (settled res \<longleftrightarrow> acts \<noteq> []) \<and>
        Code res = (if acts = [] then 200 else if last acts then 0 else 7))"
proof -
  from az_check_total [OF assms(1,4,5)] obtain res where res: "az_check s req = Inr res" by blast
  from az_check_Inr [OF res assms(1-3)] res show ?thesis
    by (simp add: Let_def az_fold_allowed az_fold_settled az_fold_code)
qed

definition az_example_config :: AuthzConfigType where
  "az_example_config = \<lparr>az_Config = \<lparr>az_Domains = Some
     [''shop.example'' \<mapsto> \<lparr>dc_Action = False, dc_Sources = Some
        [''10.0.0.1'' \<mapsto> \<lparr>sc_Action = True, sc_Headers = None\<rparr>,
         ''10.0.0.2'' \<mapsto> \<lparr>sc_Action = True, sc_Headers = Some
            \<lparr>hsc_Action = True, hsc_Headers = [\<lparr>hc_Name = ''x-token'', hc_Value = ''secret''\<rparr>]\<rparr>\<rparr>]\<rparr>]\<rparr>\<rparr>"

definition az_example_http :: http_request where
  "az_example_http = \<lparr>Host = ''shop.example'', Path = ''/'', Headers = [''x-token'' \<mapsto> ''secret'']\<rparr>"

lemma az_example_headers_named: "az_headers_named az_example_config"
  by (auto simp: az_headers_named_def az_example_config_def split: if_splits)

theorem az_check_most_specific_rule_witness:
  "\<exists>res. az_check \<lparr>az_config = Some az_example_config\<rparr> (request_from ''10.0.0.1'' az_example_http) = Inr res
     \<and> is_allowed res"
proof -
  let ?attrs = "\<lparr>Request = Some \<lparr>Http = Some az_example_http\<rparr>, Source = Some \<lparr>peer_Address =
    Some \<lparr>ca_Address = Some (Address_SocketAddress (Some ''10.0.0.1''))\<rparr>\<rparr>\<rparr>"
  have "addressed ?attrs" by (simp add: addressed_def source_address_def)
  moreover have "az_matching (Some az_example_config) (Host az_example_http) (source_ip ?attrs)
      (Headers az_example_http) = [False, True]"
    by (simp add: az_matching_def az_source_actions_def source_ip_def source_address_def
        az_example_config_def az_example_http_def)
  ultimately show ?thesis
    using az_check_most_specific_rule [where req = "request_from ''10.0.0.1'' az_example_http"
        and attrs = ?attrs and rq = "\<lparr>Http = Some az_example_http\<rparr>" and http = az_example_http
        and s = "\<lparr>az_config = Some az_example_config\<rparr>"]
    by (auto simp: az_example_headers_named)
qed

text \<open>On a request from a socket address, \<open>Check\<close> panics in exactly one situation: the
  rule that applies to the request's host and address has a header rule with an empty
  header list, whose first element the code reads without a bounds check.\<close>

theorem az_check_panic_iff:
  "az_check s (request_from ip http) = Inl p \<longleftrightarrow>
     p = IndexOutOfRange \<and>
     (\<exists>cfg d r m a hs. az_config s = Some cfg \<and> az_Domains (az_Config cfg) = Some d \<and>
        d (Host http) = Some r \<and> dc_Sources r = Some m \<and> m ip = Some a \<and>
        sc_Headers a = Some hs \<and> hsc_Headers hs = [])"
  by (auto simp: az_check_def request_from_def Let_def az_check_sources_def source_address_def
        az_check_source_rule_def index_go_def
      split: option.splits if_splits)

text \<open>A header rule never takes effect on requests whose header names are in lower case
  (the form Envoy sends and the S3 service reads): the code looks the rule's name up in
  its canonical MIME spelling, which has a capital for every rule name that is a token
  starting with a letter.  Such a request gets the domain rule's verdict instead.\<close>

theorem az_lowercase_headers_never_match:
  assumes "az_config s = Some cfg" and "az_Domains (az_Config cfg) = Some d"
    and "d (Host http) = Some r" and "dc_Sources r = Some m" and "m ip = Some a"
    and "sc_Headers a = Some hs" and "hsc_Headers hs = h # hrest"
    and "hc_Name h = c # name" and "is_lower_letter c \<or> is_upper_letter c"
    and "list_all token_char (c # name)"
    and lower: "\<And>k. k \<in> dom (Headers http) \<Longrightarrow> \<forall>x \<in> set k. \<not> is_upper_letter x"
  shows "az_check s (request_from ip http) = Inr (az_setStatus initial_response (dc_Action r))"
proof -
  from canonical_key_capital [OF assms(10,9)] lower assms(8)
  have "Headers http (canonical_mime_header_key (hc_Name h)) = None"
    by (metis domIff)
  with assms(1-7) show ?thesis
    by (simp add: az_check_def request_from_def Let_def az_check_sources_def source_address_def
        az_check_source_rule_def)
qed

theorem az_lowercase_headers_never_match_witness:
  "az_check \<lparr>az_config = Some az_example_config\<rparr> (request_from ''10.0.0.2'' az_example_http)
     = Inr (az_setStatus initial_response False)"
proof -
  let ?m = "[''10.0.0.1'' \<mapsto> \<lparr>sc_Action = True, sc_Headers = None\<rparr>,
     ''10.0.0.2'' \<mapsto> \<lparr>sc_Action = True, sc_Headers = Some
        \<lparr>hsc_Action = True, hsc_Headers = [\<lparr>hc_Name = ''x-token'', hc_Value = ''secret''\<rparr>]\<rparr>\<rparr>]"
  have "az_check \<lparr>az_config = Some az_example_config\<rparr> (request_from ''10.0.0.2'' az_example_http)
     = Inr (az_setStatus initial_response (dc_Action \<lparr>dc_Action = False, dc_Sources = Some ?m\<rparr>))"
    by (rule az_lowercase_headers_never_match [where cfg = az_example_config and m = ?m
          and d = "[''shop.example'' \<mapsto> \<lparr>dc_Action = False, dc_Sources = Some ?m\<rparr>]"
          and a = "\<lparr>sc_Action = True, sc_Headers = Some \<lparr>hsc_Action = True,
                hsc_Headers = [\<lparr>hc_Name = ''x-token'', hc_Value = ''secret''\<rparr>]\<rparr>\<rparr>"
          and hs = "\<lparr>hsc_Action = True, hsc_Headers = [\<lparr>hc_Name = ''x-token'', hc_Value = ''secret''\<rparr>]\<rparr>"
          and h = "\<lparr>hc_Name = ''x-token'', hc_Value = ''secret''\<rparr>" and hrest = "[]"
          and c = "CHR ''x''" and name = "''-token''"])
      (auto simp: az_example_config_def az_example_http_def is_lower_letter_def is_upper_letter_def
        token_char_def split: if_splits)
  then show ?thesis by simp
qed

end
