(* ===== verification/AuthzS3.thy ===== *)
theory AuthzS3
  imports ExtAuth "HOL-Library.Finite_Map"
begin

text \<open>
  The S3 authorization service of \<open>authzs3/authzs3.go\<close>, its configuration types
  (\<open>authzs3/authzs3Config.go\<close>) and the refresh of its account table
  (\<open>createMap\<close> and the body of \<open>loadUsers\<close> in \<open>authzs3.go\<close>).  The parsers of access keys
  can panic on short inputs, so they return \<open>panic + string\<close>.
\<close>

section \<open>Configuration and state\<close>

record S3SourceConfig =
  s3sc_Action :: bool

record NamespaceConfig =
  ns_Action :: bool
  ns_Sources :: "(string \<rightharpoonup> S3SourceConfig) option"

record Authzs3Config =
  s3_Namespaces :: "(string \<rightharpoonup> NamespaceConfig) option"

record Authzs3ConfigType =
  s3_Config :: Authzs3Config

text \<open>A nil namespace table is \<open>None\<close>; reading it is reading an empty one.\<close>

record s3_Service =
  s3_config :: "Authzs3ConfigType option"
  s3_namespaces :: "(string, string) fmap option"

definition s3_SetConfig :: "Authzs3ConfigType option \<Rightarrow> s3_Service \<Rightarrow> s3_Service" where
  "s3_SetConfig newConfig s = s\<lparr>s3_config := newConfig\<rparr>"

definition s3_SetNamespaces :: "(string, string) fmap option \<Rightarrow> s3_Service \<Rightarrow> s3_Service" where
  "s3_SetNamespaces newNamespaces s = s\<lparr>s3_namespaces := newNamespaces\<rparr>"

definition s3_GetNamespaces :: "s3_Service \<Rightarrow> (string, string) fmap option" where
  "s3_GetNamespaces s = s3_namespaces s"

text \<open>\<open>m[k]\<close> with the comma-ok form, on a possibly nil map.\<close>

definition lookup_map :: "('k, 'v) fmap option \<Rightarrow> 'k \<Rightarrow> 'v option" where
  "lookup_map m k = (case m of None \<Rightarrow> None | Some f \<Rightarrow> fmlookup f k)"

section \<open>Access keys\<close>

text \<open>The loop over the fields of an AWS4 header: the first \<open>Credential=\<close> field.\<close>

fun find_credential :: "string list \<Rightarrow> string option go" where
  "find_credential [] = Inr None"
| "find_credential (f # fs) =
     (if has_prefix (to_lower f) ''credential=''
      then bind_go (slice_from f 11) (\<lambda>rest.
           bind_go (index_go (go_split rest ''/'') 0) (\<lambda>c. Inr (Some c)))
      else find_credential fs)"

definition getHeaderNamespace :: "string \<Rightarrow> string go" where
  "getHeaderNamespace hdr =
     (let fields = go_fields hdr;
          v2 = bind_go (index_go fields 0) (\<lambda>f0.
            if has_prefix (to_upper f0) ''AWS''
            then bind_go (index_go fields 1) (\<lambda>f1. index_go (go_split f1 '':'') 0)
            else Inr [])
      in bind_go (index_go fields 0) (\<lambda>f0.
         if has_prefix (to_upper f0) ''AWS4''
         then bind_go (find_credential fields) (\<lambda>found.
              case found of Some acc \<Rightarrow> Inr acc | None \<Rightarrow> v2)
         else v2))"

text \<open>The loop over the query parameters.\<close>

fun query_account :: "string list \<Rightarrow> string go" where
  "query_account [] = Inr []"
| "query_account (f # fs) =
     (if has_prefix (to_lower f) ''awsaccesskeyid='' then slice_from f 15
      else if has_prefix (to_upper f) ''X-AMZ-CREDENTIAL''
      then bind_go (index_go (go_split f ''%2F'') 0) (\<lambda>c. slice_from c 17)
      else query_account fs)"

definition getQueryNamespace :: "string \<Rightarrow> string go" where
  "getQueryNamespace qry = query_account (go_split qry ''&'')"

section \<open>The namespace of a request\<close>

text \<open>
  The four sources in order: the \<open>authorization\<close> header, the query string, the
  \<open>x-emc-namespace\<close> header, the first label of the host name.  \<open>Inr None\<close> is the error
  "namespace not found".
\<close>

definition namespace_of_host :: "http_request \<Rightarrow> string option go" where
  "namespace_of_host http =
     (case Headers http ''x-emc-namespace'' of
        Some ns \<Rightarrow> Inr (Some ns)
      | None \<Rightarrow>
          (let hosts = go_split (Host http) ''.'' in
           if 3 \<le> length hosts then bind_go (index_go hosts 0) (\<lambda>h. Inr (Some h))
           else Inr None))"

definition namespace_of_query :: "http_request \<Rightarrow> (string, string) fmap option \<Rightarrow> string option go" where
  "namespace_of_query http currentNamespaces =
     (let query = go_split (Path http) ''?'' in
      if 1 < length query then
        bind_go (index_go query 1) (\<lambda>q.
        bind_go (getQueryNamespace q) (\<lambda>acc.
        case lookup_map currentNamespaces acc of
          Some ns \<Rightarrow> Inr (Some ns)
        | None \<Rightarrow> namespace_of_host http))
      else namespace_of_host http)"

definition getRequestNamespace :: "http_request \<Rightarrow> (string, string) fmap option \<Rightarrow> string option go" where
  "getRequestNamespace http currentNamespaces =
     (case Headers http ''authorization'' of
        None \<Rightarrow> namespace_of_query http currentNamespaces
      | Some hdr \<Rightarrow>
          bind_go (getHeaderNamespace hdr) (\<lambda>acc.
          case lookup_map currentNamespaces acc of
            Some ns \<Rightarrow> Inr (Some ns)
          | None \<Rightarrow> namespace_of_query http currentNamespaces))"

section \<open>Check\<close>

definition namespace_header :: "string \<Rightarrow> header_value_option list" where
  "namespace_header namespace = [HeaderValueOption ''x-envoy-s3-namespace'' namespace False]"

definition s3_setStatus :: "check_response \<Rightarrow> bool \<Rightarrow> string \<Rightarrow> check_response" where
  "s3_setStatus res action namespace =
     (if action
      then (if 0 < length namespace
            then res\<lparr>HttpResponse := OkResponse (namespace_header namespace)\<rparr>
            else res\<lparr>HttpResponse := OkResponse []\<rparr>)\<lparr>Code := 0\<rparr>
      else (if 0 < length namespace
            then res\<lparr>HttpResponse := DeniedResponse 403 (namespace_header namespace)\<rparr>
            else res\<lparr>HttpResponse := DeniedResponse 403 []\<rparr>)\<lparr>Code := 7\<rparr>)"

text \<open>The type switch on the source address.\<close>

definition s3_check_sources ::
    "check_response \<Rightarrow> attribute_context \<Rightarrow> (string \<rightharpoonup> S3SourceConfig) \<Rightarrow> string
       \<Rightarrow> check_response go" where
  "s3_check_sources result attrs sources requestNamespace =
     bind_go (source_address attrs) (\<lambda>addr.
     case addr of
       Some (Address_SocketAddress sa) \<Rightarrow>
         bind_go (deref sa) (\<lambda>ip.
         case sources ip of
           None \<Rightarrow> Inr result
         | Some a \<Rightarrow> Inr (s3_setStatus result (s3sc_Action a) requestNamespace))
     | _ \<Rightarrow> Inr result)"

definition s3_check :: "s3_Service \<Rightarrow> check_request \<Rightarrow> check_response go" where
  "s3_check s req =
    (let currentConfig = s3_config s; currentNamespaces = s3_namespaces s;
         result = initial_response in
     bind_go (deref (Attributes req)) (\<lambda>attrs.
     case Request attrs of None \<Rightarrow> Inr result
     | Some request \<Rightarrow>
     (case Http request of None \<Rightarrow> Inr result
     | Some http \<Rightarrow>
       bind_go (getRequestNamespace http currentNamespaces) (\<lambda>found.
       case found of None \<Rightarrow> Inr (s3_setStatus result True [])
       | Some requestNamespace \<Rightarrow>
         (let result = s3_setStatus result True requestNamespace in
          case currentConfig of None \<Rightarrow> Inr result
          | Some cfg \<Rightarrow>
          (case s3_Namespaces (s3_Config cfg) of None \<Rightarrow> Inr result
          | Some namespaces \<Rightarrow>
          (case namespaces requestNamespace of None \<Rightarrow> Inr result
          | Some r \<Rightarrow>
            (let result = s3_setStatus result (ns_Action r) requestNamespace in
             case ns_Sources r of
               None \<Rightarrow> Inr result
             | Some sources \<Rightarrow> s3_check_sources result attrs sources requestNamespace))))))))"

interpretation s3: verdict_writer s3_setStatus
  by unfold_locales (auto simp: s3_setStatus_def is_allowed_def settled_def namespace_header_def)

section \<open>The account table\<close>

record BlobUserType =
  bu_User :: string
  bu_Namespace :: string

definition createMap :: "BlobUserType list \<Rightarrow> (string, string) fmap \<Rightarrow> (string, string) fmap" where
  "createMap blobs m = fold (\<lambda>i m. fmupd (bu_User i) (bu_Namespace i) m) blobs m"

text \<open>
  One tick of \<open>loadUsers\<close>.  The storage system answers the login request (or the URL does
  not parse, or the request fails, or the answer has no token header) and then the request
  for the users, whose body is decoded from JSON.  The three requests of a tick are built
  from the same endpoint, so either all of them can be built or none.
\<close>

datatype login_reply = BadURL | LoginFailed | NoToken | Token "string list"

datatype users_reply = UsersFailed | UsersBody "BlobUserType list option"

record s3_main =
  s3_server :: s3_Service
  s3_users :: "(string, string) fmap option"
  s3_cache :: "Authzs3ConfigType option"

definition load_users_tick ::
    "login_reply \<Rightarrow> (string \<Rightarrow> users_reply) \<Rightarrow> s3_main \<Rightarrow> s3_main go" where
  "load_users_tick login users_of m =
     (case login of
        BadURL \<Rightarrow> Inl NilDereference
      | LoginFailed \<Rightarrow> Inr m
      | NoToken \<Rightarrow> Inr m
      | Token authh \<Rightarrow>
          bind_go (index_go authh 0) (\<lambda>auth.
          case users_of auth of
            UsersFailed \<Rightarrow> Inr m
          | UsersBody None \<Rightarrow> Inr (m\<lparr>s3_users := Some fmempty\<rparr>)
          | UsersBody (Some blobusers) \<Rightarrow>
              (let users = createMap blobusers fmempty;
                   currentUsers = s3_GetNamespaces (s3_server m)
               in Inr (if Some users \<noteq> currentUsers
                       then m\<lparr>s3_users := Some users,
                              s3_server := s3_SetNamespaces (Some users) (s3_server m)\<rparr>
                       else m\<lparr>s3_users := Some users\<rparr>))))"

section \<open>Access keys are parsed as they are sent\<close>

lemma aws_prefix_not_credential:
  assumes "has_prefix (to_upper w) (CHR ''A'' # p)"
  shows "\<not> has_prefix (to_lower w) ''credential=''"
proof -
  from assms obtain c rest where w: "w = c # rest" and "upper_char c = CHR ''A''"
    by (cases w) (auto simp: has_prefix_def to_upper_def)
  then have "lower_char c = lower_char (CHR ''A'')"
    using lower_upper_char [of c] by simp
  also have "\<dots> = CHR ''a''" by code_simp
  finally show ?thesis using w by (simp add: has_prefix_def to_lower_Cons)
qed

lemma fields_from_hd:
  "acc \<noteq> [] \<Longrightarrow> \<exists>fs. fields_from acc s = (rev acc @ takeWhile (\<lambda>c. \<not> is_space c) s) # fs"
  by (induction acc s rule: fields_from.induct) auto

lemma go_fields_hd:
  assumes "w \<noteq> []" and "\<forall>c \<in> set w. \<not> is_space c"
  shows "\<exists>fs. go_fields (w @ s) = (w @ takeWhile (\<lambda>c. \<not> is_space c) s) # fs"
  using assms fields_from_word [of w "[]" s] fields_from_hd [of "rev w" s]
  by (simp add: go_fields_def)

lemma has_prefix_upper_nonempty: "has_prefix (to_upper w) (c # p) \<Longrightarrow> w \<noteq> []"
  by (auto simp: has_prefix_def to_upper_def)

lemma credential_not_space: "\<forall>c \<in> set ''Credential=''. \<not> is_space c"
  by (simp add: is_space_def)

lemma find_credential_field:
  assumes "\<forall>c \<in> set ak. c \<noteq> CHR ''/''"
  shows "find_credential ((''Credential='' @ ak @ CHR ''/'' # rest) # fs) = Inr (Some ak)"
proof -
  have "has_prefix (to_lower (''Credential='' @ ak @ CHR ''/'' # rest)) ''credential=''"
  proof -
    have "has_prefix (to_lower ''Credential='') ''credential=''" by code_simp
    then show ?thesis
      unfolding to_lower_append by (rule has_prefix_append)
  qed
  moreover have "slice_from (''Credential='' @ ak @ CHR ''/'' # rest) 11 = Inr (ak @ CHR ''/'' # rest)"
    by (simp add: slice_from_def)
  moreover have "go_split (ak @ CHR ''/'' # rest) ''/'' = ak # go_split rest ''/''"
    using assms by (intro go_split_single_append) auto
  ultimately show ?thesis by simp
qed

text \<open>From a signature version 4 header
  \<open>AWS4-\<dots> Credential=<key>/<scope>\<dots>\<close> the service extracts exactly the access key,
  whatever follows the key's slash.\<close>

theorem getHeaderNamespace_v4:
  assumes "\<forall>c \<in> set alg. \<not> is_space c" and "has_prefix (to_upper alg) ''AWS4''"
    and "\<forall>c \<in> set ak. \<not> is_space c \<and> c \<noteq> CHR ''/''"
  shows "getHeaderNamespace (alg @ '' Credential='' @ ak @ ''/'' @ rest) = Inr ak"
proof -
  let ?rest = "takeWhile (\<lambda>c. \<not> is_space c) rest"
  have "alg \<noteq> []" using assms(2) by (rule has_prefix_upper_nonempty)
  with assms(1) have first: "go_fields (alg @ CHR '' '' # ''Credential='' @ ak @ ''/'' @ rest)
      = alg # go_fields (''Credential='' @ ak @ ''/'' @ rest)"
    by (intro go_fields_Cons) (auto simp: is_space_def)
  have "\<forall>c \<in> set (''Credential='' @ ak @ ''/''). \<not> is_space c"
    using assms(3) credential_not_space by (auto simp: is_space_def)
  then obtain fs where "go_fields ((''Credential='' @ ak @ ''/'') @ rest)
      = ((''Credential='' @ ak @ ''/'') @ ?rest) # fs"
    using go_fields_hd [of "''Credential='' @ ak @ ''/''" rest] by auto
  with first have fields: "go_fields (alg @ '' Credential='' @ ak @ ''/'' @ rest)
      = alg # (''Credential='' @ ak @ CHR ''/'' # ?rest) # fs"
    by simp
  have "find_credential (alg # (''Credential='' @ ak @ CHR ''/'' # ?rest) # fs) = Inr (Some ak)"
    using aws_prefix_not_credential [OF assms(2)] find_credential_field [of ak] assms(3)
    by simp
  with fields assms(2) show ?thesis
    by (simp add: getHeaderNamespace_def)
qed

theorem getHeaderNamespace_v4_witness:
  "getHeaderNamespace ''AWS4-HMAC-SHA256 Credential=AKIA/2024/s3, Signature=f'' = Inr ''AKIA''"
  using getHeaderNamespace_v4 [of "''AWS4-HMAC-SHA256''" "''AKIA''" "''2024/s3, Signature=f''"]
  by (simp add: is_space_def has_prefix_def to_upper_def upper_char_def)

text \<open>From a signature version 2 header \<open>AWS <key>:<signature>\<close> the service extracts
  exactly the access key.\<close>

theorem getHeaderNamespace_v2:
  assumes "\<forall>c \<in> set scheme. \<not> is_space c" and "has_prefix (to_upper scheme) ''AWS''"
    and "\<not> has_prefix (to_upper scheme) ''AWS4''"
    and "\<forall>c \<in> set ak. \<not> is_space c \<and> c \<noteq> CHR '':''"
  shows "getHeaderNamespace (scheme @ '' '' @ ak @ '':'' @ signature) = Inr ak"
proof -
  have "scheme \<noteq> []" using assms(2) by (rule has_prefix_upper_nonempty)
  with assms(1) have first: "go_fields (scheme @ CHR '' '' # ak @ '':'' @ signature)
      = scheme # go_fields (ak @ '':'' @ signature)"
    by (intro go_fields_Cons) (auto simp: is_space_def)
  have "\<forall>c \<in> set (ak @ '':''). \<not> is_space c"
    using assms(4) by (auto simp: is_space_def)
  then obtain fs where "go_fields ((ak @ '':'') @ signature)
      = ((ak @ '':'') @ takeWhile (\<lambda>c. \<not> is_space c) signature) # fs"
    using go_fields_hd [of "ak @ '':''" signature] by auto
  moreover have "go_split (ak @ CHR '':'' # rest) '':'' = ak # go_split rest '':''" for rest
    using assms(4) by (intro go_split_single_append) auto
  ultimately show ?thesis
    using first assms(2,3) by (simp add: getHeaderNamespace_def index_go_def)
qed

theorem getHeaderNamespace_v2_witness:
  "getHeaderNamespace ''AWS AKIA:c2ln'' = Inr ''AKIA''"
  using getHeaderNamespace_v2 [of "''AWS''" "''AKIA''" "''c2ln''"]
  by (simp add: is_space_def has_prefix_def to_upper_def upper_char_def)

section \<open>Query parameters\<close>

definition names_key_v2 :: "string \<Rightarrow> bool" where
  "names_key_v2 f \<longleftrightarrow> has_prefix (to_lower f) ''awsaccesskeyid=''"

definition names_key_v4 :: "string \<Rightarrow> bool" where
  "names_key_v4 f \<longleftrightarrow> has_prefix (to_upper f) ''X-AMZ-CREDENTIAL''"

lemma query_account_skip:
  "(\<forall>f \<in> set fs. \<not> names_key_v2 f \<and> \<not> names_key_v4 f) \<Longrightarrow> query_account (fs @ gs) = query_account gs"
  by (induction fs) (auto simp: names_key_v2_def names_key_v4_def)

lemma query_account_v2_total: "names_key_v2 f \<Longrightarrow> slice_from f 15 = Inr (drop 15 f)"
  by (auto simp: names_key_v2_def slice_from_def dest: has_prefix_length)

text \<open>The loop stops at the first parameter that names a key; only a version 4 parameter can panic.\<close>

lemma query_account_Inl_iff:
  "query_account fs = Inl p \<longleftrightarrow>
     p = SliceBounds \<and>
     (\<exists>f. find (\<lambda>g. names_key_v2 g \<or> names_key_v4 g) fs = Some f \<and>
        \<not> names_key_v2 f \<and> length (hd (go_split f ''%2F'')) < 17)"
proof (induction fs)
  case (Cons f fs)
  then show ?case
    using query_account_v2_total [of f]
    by (auto simp: names_key_v2_def names_key_v4_def slice_from_def)
qed simp

section \<open>When the parsers panic\<close>

text \<open>A single field that names an AWS scheme holds no credential of its own.\<close>

lemma find_credential_total: "\<exists>r. find_credential fs = Inr r"
proof (induction fs)
  case (Cons f fs)
  have "has_prefix (to_lower f) ''credential='' \<Longrightarrow> 11 \<le> length f"
    by (auto dest: has_prefix_length)
  with Cons show ?case by (auto simp: slice_from_def)
qed simp

lemma getHeaderNamespace_fields:
  "getHeaderNamespace hdr = Inl p \<longleftrightarrow>
     p = IndexOutOfRange \<and>
     (go_fields hdr = [] \<or> (\<exists>f. go_fields hdr = [f] \<and> has_prefix (to_upper f) ''AWS''))"
proof (cases "go_fields hdr")
  case Nil
  then show ?thesis by (auto simp: getHeaderNamespace_def)
next
  case (Cons f fs)
  show ?thesis
  proof (cases fs)
    case Nil
    have "find_credential [f] = Inr None" if "has_prefix (to_upper f) ''AWS4''"
      using aws_prefix_not_credential [OF that] by simp
    moreover have "has_prefix (to_upper f) ''AWS4'' \<Longrightarrow> has_prefix (to_upper f) ''AWS''"
      using has_prefix_appendD [of "to_upper f" "''AWS''" "''4''"] by simp
    ultimately show ?thesis
      using Nil \<open>go_fields hdr = f # fs\<close>
      by (cases "has_prefix (to_upper f) ''AWS4''")
        (auto simp: getHeaderNamespace_def index_go_def Let_def simp del: find_credential.simps)
  next
    case (Cons g gs)
    obtain r where "find_credential (f # g # gs) = Inr r"
      using find_credential_total by blast
    then show ?thesis
      using Cons \<open>go_fields hdr = f # fs\<close>
      by (cases r)
        (auto simp: getHeaderNamespace_def index_go_def Let_def simp del: find_credential.simps)
  qed
qed

section \<open>Properties of the request's namespace\<close>

text \<open>The header parser panics on exactly two kinds of \<open>authorization\<close> header: a blank one,
  and one that is a single word naming an AWS scheme (no credentials after it).\<close>

theorem getHeaderNamespace_panic_iff:
  "getHeaderNamespace hdr = Inl p \<longleftrightarrow>
     p = IndexOutOfRange \<and>
     ((\<forall>c \<in> set hdr. is_space c) \<or>
      (\<exists>f. go_fields hdr = [f] \<and> has_prefix (to_upper f) ''AWS''))"
  by (simp add: getHeaderNamespace_fields go_fields_eq_Nil)

theorem getHeaderNamespace_panic_iff_witness:
  "getHeaderNamespace ''AWS4-HMAC-SHA256 '' = Inl IndexOutOfRange"
proof -
  have "go_fields ''AWS4-HMAC-SHA256 '' = [''AWS4-HMAC-SHA256''] \<and>
      has_prefix (to_upper ''AWS4-HMAC-SHA256'') ''AWS''"
    by code_simp
  then show ?thesis
    using getHeaderNamespace_panic_iff [of "''AWS4-HMAC-SHA256 ''" IndexOutOfRange] by blast
qed

lemma namespace_of_host_total: "\<exists>r. namespace_of_host http = Inr r"
  by (auto simp: namespace_of_host_def Let_def split: option.splits)

lemma namespace_of_query_Inl_iff:
  "namespace_of_query http nss = Inl p \<longleftrightarrow>
     1 < length (go_split (Path http) ''?'') \<and>
     getQueryNamespace (go_split (Path http) ''?'' ! 1) = Inl p"
  using namespace_of_host_total [of http]
  by (auto simp: namespace_of_query_def Let_def bind_go_def split: sum.splits option.splits)

lemma getRequestNamespace_Inl_iff:
  "getRequestNamespace http nss = Inl p \<longleftrightarrow>
     (\<exists>hdr. Headers http ''authorization'' = Some hdr \<and> getHeaderNamespace hdr = Inl p) \<or>
     ((\<forall>hdr. Headers http ''authorization'' = Some hdr \<longrightarrow>
         (\<exists>acc. getHeaderNamespace hdr = Inr acc \<and> lookup_map nss acc = None)) \<and>
      namespace_of_query http nss = Inl p)"
  by (cases "Headers http ''authorization''")
    (auto simp: getRequestNamespace_def bind_go_def split: sum.splits option.splits)

text \<open>Any client can stop the service: whatever the configuration and the account table,
  a request with a blank or scheme-only \<open>authorization\<close> header makes \<open>Check\<close> panic, and so
  does a request without that header whose first key parameter is a bare
  \<open>X-Amz-Credential\<close>.\<close>

theorem s3_check_panics_on_short_credentials:
  assumes "Headers http ''authorization'' = Some hdr \<and>
      ((\<forall>c \<in> set hdr. is_space c) \<or> (\<exists>f. go_fields hdr = [f] \<and> has_prefix (to_upper f) ''AWS''))
    \<or> Headers http ''authorization'' = None \<and> Path http = path @ ''?X-Amz-Credential'' \<and>
      CHR ''?'' \<notin> set path"
  shows "\<exists>p. s3_check s (request_from ip http) = Inl p"
proof -
  have "\<exists>p. getRequestNamespace http (s3_namespaces s) = Inl p"
    using assms
  proof
    assume "Headers http ''authorization'' = Some hdr \<and>
      ((\<forall>c \<in> set hdr. is_space c) \<or> (\<exists>f. go_fields hdr = [f] \<and> has_prefix (to_upper f) ''AWS''))"
    then show ?thesis
      by (auto simp: getRequestNamespace_Inl_iff getHeaderNamespace_fields go_fields_eq_Nil)
  next
    assume a: "Headers http ''authorization'' = None \<and> Path http = path @ ''?X-Amz-Credential'' \<and>
      CHR ''?'' \<notin> set path"
    then have "go_split (Path http) ''?'' = [path, ''X-Amz-Credential'']"
      by (simp add: go_split_single_append go_split_single_no_sep)
    moreover have "getQueryNamespace ''X-Amz-Credential'' = Inl SliceBounds" by code_simp
    ultimately show ?thesis
      using a by (auto simp: getRequestNamespace_Inl_iff namespace_of_query_Inl_iff)
  qed
  then show ?thesis
    by (auto simp: s3_check_def request_from_def Let_def)
qed

theorem s3_check_panics_on_short_credentials_witness:
  "\<exists>p. s3_check \<lparr>s3_config = None, s3_namespaces = None\<rparr>
     (request_from ''10.0.0.9'' \<lparr>Host = ''s3'', Path = ''/b?X-Amz-Credential'', Headers = Map.empty\<rparr>) = Inl p"
  by (rule s3_check_panics_on_short_credentials [where path = "''/b''"]) simp

text \<open>From a presigned version 4 URL the service extracts exactly the access key of the
  \<open>X-Amz-Credential=<key>%2F<scope>\<close> parameter, at any position in the query string, as long
  as no earlier parameter names a key.\<close>

theorem getQueryNamespace_presigned_v4:
  assumes "\<forall>g \<in> set pre. \<not> names_key_v2 g \<and> \<not> names_key_v4 g"
    and "\<forall>g \<in> set pre \<union> set post \<union> {ak, scope}. CHR ''&'' \<notin> set g"
    and "CHR ''%'' \<notin> set ak"
  shows "getQueryNamespace
      (go_join (pre @ (''X-Amz-Credential='' @ ak @ ''%2F'' @ scope) # post) ''&'') = Inr ak"
proof -
  define name where "name = ''X-Amz-Credential=''"
  let ?f = "name @ ak @ ''%2F'' @ scope"
  have name: "length name = 17" "CHR ''%'' \<notin> set name" "CHR ''&'' \<notin> set name"
    by (simp_all add: name_def)
  have params: "go_split (go_join (pre @ ?f # post) ''&'') ''&'' = pre @ ?f # post"
    using assms(2) name by (intro go_split_join_single) auto
  have "has_prefix (to_upper name) ''X-AMZ-CREDENTIAL''" unfolding name_def by code_simp
  then have v4: "has_prefix (to_upper ?f) ''X-AMZ-CREDENTIAL''"
    unfolding to_upper_append by (rule has_prefix_append)
  have "to_lower name = CHR ''x'' # ''-amz-credential=''" unfolding name_def by code_simp
  then have v2: "\<not> has_prefix (to_lower ?f) ''awsaccesskeyid=''"
    by (simp add: has_prefix_def)
  have "hd (go_split ((name @ ak) @ CHR ''%'' # ''2F'' @ scope) (CHR ''%'' # ''2F'')) = name @ ak"
    using assms(3) name by (intro go_split_first) auto
  then have "query_account (?f # post) = Inr ak"
    using v2 v4 name by (simp add: slice_from_def)
  moreover have "getQueryNamespace (go_join (pre @ ?f # post) ''&'') = query_account (?f # post)"
    unfolding getQueryNamespace_def params by (rule query_account_skip [OF assms(1)])
  ultimately show ?thesis unfolding name_def by (rule trans [rotated])
qed

theorem getQueryNamespace_presigned_v4_witness:
  "getQueryNamespace ''versions&X-Amz-Credential=AKIA%2F2024%2Fs3&Expires=60'' = Inr ''AKIA''"
  using getQueryNamespace_presigned_v4
    [of "[''versions'']" "[''Expires=60'']" "''AKIA''" "''2024%2Fs3''"]
  by (simp add: names_key_v2_def names_key_v4_def has_prefix_def to_upper_def to_lower_def
      upper_char_def lower_char_def)



section \<open>The verdict\<close>

text \<open>The actions of the rules for a namespace, after the verdict every found namespace starts with.\<close>

definition s3_matching :: "Authzs3ConfigType option \<Rightarrow> string \<Rightarrow> string option \<Rightarrow> bool list" where
  "s3_matching cfg ns ip =
     True # (case Option.bind (Option.bind cfg (\<lambda>c. s3_Namespaces (s3_Config c))) (\<lambda>d. d ns) of
        None \<Rightarrow> []
      | Some r \<Rightarrow> ns_Action r #
         (case Option.bind ip (\<lambda>i. Option.bind (ns_Sources r) (\<lambda>m. m i)) of
            None \<Rightarrow> [] | Some a \<Rightarrow> [s3sc_Action a]))"

definition namespace_stamp :: "string \<Rightarrow> header_value_option list" where
  "namespace_stamp ns = (if ns = [] then [] else namespace_header ns)"

definition s3_verdict :: "bool \<Rightarrow> string \<Rightarrow> check_response" where
  "s3_verdict allow ns =
     (if allow then \<lparr>Code = 0, HttpResponse = OkResponse (namespace_stamp ns)\<rparr>
      else \<lparr>Code = 7, HttpResponse = DeniedResponse 403 (namespace_stamp ns)\<rparr>)"

lemma s3_setStatus_verdict [simp]: "s3_setStatus r a ns = s3_verdict a ns"
  by (cases r) (simp add: s3_setStatus_def s3_verdict_def namespace_stamp_def)

lemma s3_check_sources_addressed:
  assumes "addressed attrs"
  shows "s3_check_sources r attrs m ns = Inr
     (case Option.bind (source_ip attrs) m of None \<Rightarrow> r | Some a \<Rightarrow> s3_verdict (s3sc_Action a) ns)"
proof -
  from assms obtain addr where addr: "source_address attrs = Inr addr"
    by (auto simp: addressed_def split: sum.splits)
  from addr show ?thesis
    by (cases rule: source_address_cases)
      (use assms addr in \<open>auto simp: s3_check_sources_def addressed_def split: option.splits\<close>)
qed

text \<open>C4: on an HTTP request with a readable source address whose namespace lookup returns,
  \<open>Check\<close> answers with the most specific rule for the namespace (source rule, then namespace
  rule, then allow), writes status code 0 or 7 accordingly, and stamps the accounting header
  \<open>x-envoy-s3-namespace\<close> with the namespace on both allowed and denied requests.  Without a
  namespace the request is allowed and carries no stamp.\<close>

theorem s3_check_verdict:
  assumes "Attributes req = Some attrs" and "Request attrs = Some rq" and "Http rq = Some http"
    and "addressed attrs" and "getRequestNamespace http (s3_namespaces s) = Inr found"
  shows "s3_check s req = Inr
     (case found of None \<Rightarrow> s3_verdict True []
      | Some ns \<Rightarrow> s3_verdict (last (s3_matching (s3_config s) ns (source_ip attrs))) ns)"
  using assms
  by (cases "source_ip attrs")
    (auto simp: s3_check_def s3_matching_def s3_check_sources_addressed Let_def split: option.splits)

theorem s3_check_verdict_witness:
  "s3_check
     \<lparr>s3_config = Some \<lparr>s3_Config = \<lparr>s3_Namespaces = Some
        [''acme'' \<mapsto> \<lparr>ns_Action = True, ns_Sources = Some [''10.0.0.6'' \<mapsto> \<lparr>s3sc_Action = False\<rparr>]\<rparr>]\<rparr>\<rparr>,
      s3_namespaces = None\<rparr>
     (request_from ''10.0.0.6'' \<lparr>Host = ''acme.s3.local'', Path = ''/b'', Headers = Map.empty\<rparr>)
   = Inr \<lparr>Code = 7, HttpResponse =
       DeniedResponse 403 [HeaderValueOption ''x-envoy-s3-namespace'' ''acme'' False]\<rparr>"
proof -
  let ?http = "\<lparr>Host = ''acme.s3.local'', Path = ''/b'', Headers = Map.empty\<rparr>"
  let ?attrs = "\<lparr>Request = Some \<lparr>Http = Some ?http\<rparr>, Source = Some \<lparr>peer_Address =
    Some \<lparr>ca_Address = Some (Address_SocketAddress (Some ''10.0.0.6''))\<rparr>\<rparr>\<rparr>"
  have "addressed ?attrs" by (simp add: addressed_def source_address_def)
  moreover have "getRequestNamespace ?http None = Inr (Some ''acme'')" by code_simp
  ultimately show ?thesis
    using s3_check_verdict [where req = "request_from ''10.0.0.6'' ?http" and attrs = ?attrs
        and rq = "\<lparr>Http = Some ?http\<rparr>" and http = ?http and found = "Some ''acme''"
        and s = "\<lparr>s3_config = Some \<lparr>s3_Config = \<lparr>s3_Namespaces = Some [''acme'' \<mapsto>
          \<lparr>ns_Action = True, ns_Sources = Some [''10.0.0.6'' \<mapsto> \<lparr>s3sc_Action = False\<rparr>]\<rparr>]\<rparr>\<rparr>,
          s3_namespaces = None\<rparr>"]
    by (simp add: s3_matching_def source_ip_def source_address_def s3_verdict_def
        namespace_stamp_def namespace_header_def)
qed

section \<open>The account table follows the storage system\<close>

lemma fmlookup_createMap:
  "fmlookup (createMap blobs m) u =
     (case map_of (rev (map (\<lambda>i. (bu_User i, bu_Namespace i)) blobs)) u of
        None \<Rightarrow> fmlookup m u | Some ns \<Rightarrow> Some ns)"
proof -
  have "fmlookup (createMap blobs m) =
      fmlookup m ++ map_of (rev (map (\<lambda>i. (bu_User i, bu_Namespace i)) blobs))"
    by (induction blobs arbitrary: m) (auto simp: createMap_def map_add_upd_left fun_eq_iff map_add_def
        split: option.splits)
  then show ?thesis by (simp add: map_add_def split: option.splits)
qed

text \<open>After a tick in which the storage system returned its users, the service resolves an
  access key to the namespace of the last listed user with that key and to nothing else; the
  comparison that skips the update when nothing changed is not observable.\<close>

theorem load_users_installs_table:
  assumes "users_of auth = UsersBody (Some blobs)"
  shows "\<exists>m'. load_users_tick (Token (auth # more_values)) users_of m = Inr m' \<and>
     s3_namespaces (s3_server m') = s3_users m' \<and>
     s3_config (s3_server m') = s3_config (s3_server m) \<and>
     lookup_map (s3_namespaces (s3_server m')) u =
       map_of (rev (map (\<lambda>i. (bu_User i, bu_Namespace i)) blobs)) u"
  using assms
  by (auto simp: load_users_tick_def Let_def s3_GetNamespaces_def s3_SetNamespaces_def lookup_map_def
      fmlookup_createMap split: option.splits)

theorem load_users_installs_table_witness:
  "\<exists>m'. load_users_tick (Token [''tok''])
      (\<lambda>_. UsersBody (Some [\<lparr>bu_User = ''k'', bu_Namespace = ''old''\<rparr>, \<lparr>bu_User = ''k'', bu_Namespace = ''new''\<rparr>]))
      \<lparr>s3_server = \<lparr>s3_config = None, s3_namespaces = None\<rparr>, s3_users = None, s3_cache = None\<rparr> = Inr m' \<and>
    lookup_map (s3_namespaces (s3_server m')) ''k'' = Some ''new''"
  using load_users_installs_table
    [where users_of = "\<lambda>_. UsersBody (Some [\<lparr>bu_User = ''k'', bu_Namespace = ''old''\<rparr>,
        \<lparr>bu_User = ''k'', bu_Namespace = ''new''\<rparr>])"
      and auth = "''tok''" and more_values = "[]" and u = "''k''"
      and m = "\<lparr>s3_server = \<lparr>s3_config = None, s3_namespaces = None\<rparr>, s3_users = None, s3_cache = None\<rparr>"]
  by auto

text \<open>A tick that fails leaves the service's account table as it was, however it fails;
  but when only the body cannot be decoded, the table reported by the live-users endpoint is
  emptied all the same, so it no longer shows what the service uses.\<close>

theorem load_users_failure_keeps_table:
  assumes "load_users_tick login users_of m = Inr m'"
    and "\<And>auth blobs. users_of auth \<noteq> UsersBody (Some blobs)"
  shows "s3_server m' = s3_server m \<and>
    s3_users m' = (case login of
       Token authh \<Rightarrow> (case users_of (hd authh) of
          UsersBody _ \<Rightarrow> Some fmempty | UsersFailed \<Rightarrow> s3_users m)
     | _ \<Rightarrow> s3_users m)"
  using assms
  by (auto simp: load_users_tick_def go_simps hd_conv_nth
      split: login_reply.splits users_reply.splits option.splits)

theorem load_users_failure_keeps_table_witness:
  "s3_server (s3_main.make \<lparr>s3_config = None, s3_namespaces = Some (fmupd ''k'' ''n'' fmempty)\<rparr>
       (Some fmempty) None) =
     \<lparr>s3_config = None, s3_namespaces = Some (fmupd ''k'' ''n'' fmempty)\<rparr>"
proof -
  let ?m = "\<lambda>u. s3_main.make \<lparr>s3_config = None, s3_namespaces = Some (fmupd ''k'' ''n'' fmempty)\<rparr> u None"
  have "load_users_tick (Token [''tok'']) (\<lambda>_. UsersBody None) (?m None) = Inr (?m (Some fmempty))"
    by (simp add: load_users_tick_def s3_main.make_def)
  from load_users_failure_keeps_table [OF this] show ?thesis by (simp add: s3_main.make_def)
qed

end
