(* ===== verification/Reload.thy ===== *)
theory Reload
  imports Process Authz AuthzS3 RateLimit
begin

text \<open>
  The main programs of the three service binaries (\<open>ratelimit.go\<close>, \<open>authz.go\<close>, \<open>authzs3.go\<close>):
  the first load, and the loop over the change stream, which is an instance of \<open>reloader\<close>
  in each of them.
\<close>

section \<open>The rate-limit server\<close>

record rl_main =
  rlm_cache :: "CacheConfig option"
  rlm_server :: rl_Service

text \<open>Start-up: the first load must succeed.\<close>

definition rl_start ::
    "(string \<rightharpoonup> RateLimitUnit) \<Rightarrow> ('doc \<Rightarrow> RLEntry option) \<Rightarrow> string + 'doc list \<Rightarrow> rl_main process" where
  "rl_start uv decode found =
     (case rl_loadConfig uv decode found of
        Inl err \<Rightarrow> Exited ''Failed to load config''
      | Inr c \<Rightarrow> Running \<lparr>rlm_cache = Some c, rlm_server = rl_SetConfig (Some c) \<lparr>rl_config = None\<rparr>\<rparr>)"

definition rl_watch ::
    "(string \<rightharpoonup> RateLimitUnit) \<Rightarrow> ('doc \<Rightarrow> RLEntry option) \<Rightarrow> 'doc change_event \<Rightarrow> rl_main \<Rightarrow> rl_main process" where
  "rl_watch uv decode e m =
     (if \<not> ev_decoded e then Exited ''decode''
      else case ev_operation e of
        None \<Rightarrow> Crashed (Panicked ''interface conversion'')
      | Some operation \<Rightarrow>
          if operation = ''insert'' \<or> operation = ''update'' \<or> operation = ''delete''
          then (let cache = installed (rl_loadConfig uv decode (ev_found e))
                in Running (m\<lparr>rlm_cache := cache, rlm_server := rl_SetConfig cache (rlm_server m)\<rparr>))
          else Running m)"

definition rl_readable :: "'doc change_event \<Rightarrow> bool" where
  "rl_readable e \<longleftrightarrow> ev_decoded e \<and> ev_operation e \<noteq> None"

definition rl_relevant :: "'doc change_event \<Rightarrow> bool" where
  "rl_relevant e \<longleftrightarrow> ev_operation e \<in> {Some ''insert'', Some ''update'', Some ''delete''}"

text \<open>Both copies of the configuration, the live one and the service's, follow the loads.\<close>

interpretation rlw: reloader "rl_watch uv decode" rl_readable rl_relevant
    "\<lambda>e. installed (rl_loadConfig uv decode (ev_found e))" "\<lambda>m. rl_config (rlm_server m)"
  for uv :: "string \<rightharpoonup> RateLimitUnit" and decode :: "'doc \<Rightarrow> RLEntry option"
  by unfold_locales
    (auto simp: rl_watch_def rl_readable_def rl_relevant_def rl_SetConfig_def Let_def split: option.splits)

interpretation rlc: reloader "rl_watch uv decode" rl_readable rl_relevant
    "\<lambda>e. installed (rl_loadConfig uv decode (ev_found e))" rlm_cache
  for uv :: "string \<rightharpoonup> RateLimitUnit" and decode :: "'doc \<Rightarrow> RLEntry option"
  by unfold_locales
    (auto simp: rl_watch_def rl_readable_def rl_relevant_def rl_SetConfig_def Let_def split: option.splits)

section \<open>The authorization server\<close>

text \<open>
  Every document found is decoded into the same struct, so \<open>decode\<close> takes the value decoded
  so far; a query that fails is a query without documents.
\<close>

definition decode_into ::
    "('doc \<Rightarrow> AuthzConfigType \<Rightarrow> string + AuthzConfigType) \<Rightarrow> 'doc \<Rightarrow>
       string + AuthzConfigType \<Rightarrow> string + AuthzConfigType" where
  "decode_into decode d r = (case r of Inl err \<Rightarrow> Inl err | Inr c \<Rightarrow> decode d c)"

definition az_loadConfig ::
    "('doc \<Rightarrow> AuthzConfigType \<Rightarrow> string + AuthzConfigType) \<Rightarrow> string + 'doc list \<Rightarrow> string + AuthzConfigType" where
  "az_loadConfig decode found =
     (let newConfig = \<lparr>az_Config = \<lparr>az_Domains = None\<rparr>\<rparr> in
      case found of
        Inl err \<Rightarrow> Inr newConfig
      | Inr docs \<Rightarrow> fold (decode_into decode) docs (Inr newConfig))"

text \<open>
  \<open>main\<close> declares a \<open>cache\<close> of its own with \<open>:=\<close>; the package variable of that name, which
  the live configuration endpoint prints, is a different cell.
\<close>

record az_main =
  azm_package_cache :: "AuthzConfigType option"
  azm_cache :: "AuthzConfigType option"
  azm_server :: az_Service

definition az_start ::
    "('doc \<Rightarrow> AuthzConfigType \<Rightarrow> string + AuthzConfigType) \<Rightarrow> string + 'doc list \<Rightarrow> az_main process" where
  "az_start decode found =
     (case az_loadConfig decode found of
        Inl err \<Rightarrow> Exited ''Failed to load config''
      | Inr c \<Rightarrow> Running \<lparr>azm_package_cache = None, azm_cache = Some c,
                         azm_server = az_SetConfig (Some c) \<lparr>az_config = None\<rparr>\<rparr>)"

definition az_watch ::
    "('doc \<Rightarrow> AuthzConfigType \<Rightarrow> string + AuthzConfigType) \<Rightarrow> 'doc change_event \<Rightarrow> az_main \<Rightarrow> az_main process" where
  "az_watch decode e m =
     (if \<not> ev_decoded e then Exited ''decode''
      else (let cache = installed (az_loadConfig decode (ev_found e))
            in Running (m\<lparr>azm_cache := cache, azm_server := az_SetConfig cache (azm_server m)\<rparr>)))"

interpretation azw: reloader "az_watch decode" ev_decoded "\<lambda>_. True"
    "\<lambda>e. installed (az_loadConfig decode (ev_found e))" "\<lambda>m. az_config (azm_server m)"
  for decode :: "'doc \<Rightarrow> AuthzConfigType \<Rightarrow> string + AuthzConfigType"
  by unfold_locales (auto simp: az_watch_def az_SetConfig_def Let_def)

section \<open>The S3 authorization server\<close>

definition s3_loadConfig ::
    "('doc \<Rightarrow> string + Authzs3ConfigType) \<Rightarrow> string + 'doc list \<Rightarrow> string + Authzs3ConfigType" where
  "s3_loadConfig decode found =
     (case found of
        Inl err \<Rightarrow> Inl err
      | Inr [] \<Rightarrow> Inl ''mongo: no documents in result''
      | Inr (d # _) \<Rightarrow> decode d)"

text \<open>Start-up goes on without a configuration when there is none.\<close>

definition s3_start ::
    "('doc \<Rightarrow> string + Authzs3ConfigType) \<Rightarrow> string + 'doc list \<Rightarrow> s3_main" where
  "s3_start decode found =
     (let cache = installed (s3_loadConfig decode found)
      in \<lparr>s3_server = s3_SetConfig cache \<lparr>s3_config = None, s3_namespaces = None\<rparr>,
          s3_users = None, s3_cache = cache\<rparr>)"

definition s3_watch ::
    "('doc \<Rightarrow> string + Authzs3ConfigType) \<Rightarrow> 'doc change_event \<Rightarrow> s3_main \<Rightarrow> s3_main process" where
  "s3_watch decode e m =
     (if \<not> ev_decoded e then Exited ''decode''
      else (let cache = installed (s3_loadConfig decode (ev_found e))
            in Running (m\<lparr>s3_cache := cache, s3_server := s3_SetConfig cache (s3_server m)\<rparr>)))"

interpretation s3w: reloader "s3_watch decode" ev_decoded "\<lambda>_. True"
    "\<lambda>e. installed (s3_loadConfig decode (ev_found e))" "\<lambda>m. s3_config (s3_server m)"
  for decode :: "'doc \<Rightarrow> string + Authzs3ConfigType"
  by unfold_locales (auto simp: s3_watch_def s3_SetConfig_def Let_def)

text \<open>The main loop runs beside the goroutine that loads the accounts; a step is one of either.\<close>

datatype 'doc s3_action = Change "'doc change_event" | Tick login_reply "string \<Rightarrow> users_reply"

inductive s3_step :: "('doc \<Rightarrow> string + Authzs3ConfigType) \<Rightarrow> s3_main \<Rightarrow> 'doc s3_action \<Rightarrow> s3_main \<Rightarrow> bool"
  for decode :: "'doc \<Rightarrow> string + Authzs3ConfigType" where
  reload: "s3_watch decode e m = Running m' \<Longrightarrow> s3_step decode m (Change e) m'"
| accounts: "load_users_tick login users_of m = Inr m' \<Longrightarrow> s3_step decode m (Tick login users_of) m'"

inductive s3_reach :: "('doc \<Rightarrow> string + Authzs3ConfigType) \<Rightarrow> s3_main \<Rightarrow> bool"
  for decode :: "'doc \<Rightarrow> string + Authzs3ConfigType" where
  start: "s3_reach decode (s3_start decode found)"
| step: "s3_reach decode m \<Longrightarrow> s3_step decode m a m' \<Longrightarrow> s3_reach decode m'"

inductive_simps s3_step_Tick: "s3_step decode m (Tick login users_of) m'"
inductive_simps s3_step_Change: "s3_step decode m (Change e) m'"

section \<open>What the servers serve\<close>

text \<open>Once started, the rate-limit server stays up through a readable history of change events
  and then serves, to requests and on the live endpoint alike, what the last insert, update or
  delete event loaded; events of any other type, such as the "replace" events of \<open>ReplaceOne\<close>,
  have no effect whatever the collection holds.\<close>

theorem rl_serves_last_change:
  assumes "rl_start uv decode found = Running m"
    and "\<forall>e \<in> set es. ev_decoded e \<and> ev_operation e \<noteq> None"
  shows "\<exists>m'. run_loop (rl_watch uv decode) es m = Running m' \<and>
    rlm_cache m' = rl_config (rlm_server m') \<and>
    rl_config (rlm_server m') =
      last_load (\<lambda>e. ev_operation e \<in> {Some ''insert'', Some ''update'', Some ''delete''})
        (\<lambda>e. installed (rl_loadConfig uv decode (ev_found e))) es (rlm_cache m)"
proof -
  from assms(1) have same: "rl_config (rlm_server m) = rlm_cache m"
    by (auto simp: rl_start_def rl_SetConfig_def split: sum.splits)
  from assms(2) have readable: "\<forall>e \<in> set es. rl_readable e" by (simp add: rl_readable_def)
  from rlw.serves_last_load [OF readable, of uv decode m] rlc.serves_last_load [OF readable, of uv decode m]
  show ?thesis using same by (auto simp: rl_relevant_def [abs_def])
qed

definition limit_doc :: "u32 \<Rightarrow> RLEntry" where
  "limit_doc n = \<lparr>rl_Domain = ''web'', rl_Key = ''path'', rl_Value = ''/a'', rl_Limit = n,
     rl_Unit = ''minute'', rl_StripDomain = False\<rparr>"

definition minute_table :: "string \<rightharpoonup> RateLimitUnit" where
  "minute_table = [''MINUTE'' \<mapsto> UNIT_MINUTE]"

theorem rl_serves_last_change_witness:
  "\<exists>m m'. rl_start minute_table Some (Inr [limit_doc 5]) = Running m \<and>
     run_loop (rl_watch minute_table Some)
       [\<lparr>ev_decoded = True, ev_operation = Some ''replace'', ev_found = Inr [limit_doc 9]\<rparr>] m = Running m' \<and>
     rl_config (rlm_server m') = rlm_cache m"
proof -
  let ?es = "[\<lparr>ev_decoded = True, ev_operation = Some ''replace'', ev_found = Inr [limit_doc 9]\<rparr>]"
  obtain m where m: "rl_start minute_table Some (Inr [limit_doc 5]) = Running m"
    by (simp add: rl_start_def rl_loadConfig_def)
  from rl_serves_last_change [OF m, of ?es] m show ?thesis by (auto simp: last_load_def)
qed

text \<open>If the last reload failed, the rate-limit server serves a nil configuration, and every
  request it is sent from then on panics.\<close>

theorem rl_failed_reload_panics:
  assumes "rl_start uv decode found = Running m"
    and "\<forall>e \<in> set es. ev_decoded e \<and> ev_operation e \<noteq> None"
    and "ev_decoded ev \<and> ev_operation ev \<in> {Some ''insert'', Some ''update'', Some ''delete''}"
    and "ev_found ev = Inl err"
  shows "\<exists>m'. run_loop (rl_watch uv decode) (es @ [ev]) m = Running m' \<and>
    (\<forall>req (env :: 'w rl_env) w. rl_ShouldRateLimit env (rlm_server m') req w = Inl NilDereference)"
proof -
  have "\<forall>e \<in> set (es @ [ev]). rl_readable e" using assms(2,3) by (auto simp: rl_readable_def)
  from rlw.serves_last_load [OF this, of uv decode m]
  obtain m' where "run_loop (rl_watch uv decode) (es @ [ev]) m = Running m'"
    and "rl_config (rlm_server m') = None"
    using assms(3,4) by (auto simp: last_load_def rl_relevant_def rl_loadConfig_def installed_def)
  then show ?thesis by (auto simp: rl_ShouldRateLimit_def)
qed

theorem rl_failed_reload_panics_witness:
  "\<exists>m m'. rl_start minute_table Some (Inr [limit_doc 5]) = Running m \<and>
     run_loop (rl_watch minute_table Some)
       ([] @ [\<lparr>ev_decoded = True, ev_operation = Some ''insert'', ev_found = Inl ''timeout''\<rparr>]) m = Running m' \<and>
     rl_ShouldRateLimit (mem_env 0) (rlm_server m') sample_request mem_empty = Inl NilDereference"
proof -
  let ?ev = "\<lparr>ev_decoded = True, ev_operation = Some ''insert'', ev_found = Inl ''timeout''\<rparr>"
  obtain m where m: "rl_start minute_table Some (Inr [limit_doc 5]) = Running m"
    by (simp add: rl_start_def rl_loadConfig_def)
  from rl_failed_reload_panics [where 'w = mem, OF m, of "[]" ?ev "''timeout''"] m show ?thesis by auto
qed

text \<open>If the last reload failed to decode, the authorization server allows every request that
  carries attributes, whatever rules it served before, and the live configuration endpoint
  prints null before and after.\<close>

theorem az_failed_reload_allows:
  assumes "az_start decode found = Running m"
    and "\<forall>e \<in> set es. ev_decoded e" and "ev_decoded ev"
    and "az_loadConfig decode (ev_found ev) = Inl err"
  shows "\<exists>m'. run_loop (az_watch decode) (es @ [ev]) m = Running m' \<and>
    azm_package_cache m' = None \<and>
    (\<forall>req. Attributes req \<noteq> None \<longrightarrow> az_check (azm_server m') req = Inr initial_response)"
proof -
  have "\<forall>e \<in> set (es @ [ev]). ev_decoded e" using assms(2,3) by auto
  from azw.serves_last_load [OF this, of decode m]
  obtain m' where run: "run_loop (az_watch decode) (es @ [ev]) m = Running m'"
    and none: "az_config (azm_server m') = None"
    using assms(4) by (auto simp: last_load_def installed_def)
  have "azm_package_cache s' = azm_package_cache s"
    if "run_loop (az_watch decode) xs s = Running s'" for xs s s'
    using that
    by (induction xs arbitrary: s) (auto simp: az_watch_def Let_def split: if_splits)
  from this [OF run] assms(1) have "azm_package_cache m' = None"
    by (auto simp: az_start_def split: sum.splits)
  moreover from none have "\<forall>req. Attributes req \<noteq> None \<longrightarrow> az_check (azm_server m') req = Inr initial_response"
    by (auto simp: az_check_def Let_def split: option.splits)
  ultimately show ?thesis using run by blast
qed

theorem az_failed_reload_allows_witness:
  "\<exists>m m'. az_start (\<lambda>d c. d) (Inr [Inr az_example_config]) = Running m \<and>
     run_loop (az_watch (\<lambda>d c. d))
       ([] @ [\<lparr>ev_decoded = True, ev_operation = Some ''update'', ev_found = Inr [Inl ''type'']\<rparr>]) m = Running m' \<and>
     az_check (azm_server m') (request_from ''10.0.0.1'' az_example_http) = Inr initial_response"
proof -
  let ?ev = "\<lparr>ev_decoded = True, ev_operation = Some ''update'', ev_found = Inr [Inl ''type'']\<rparr>"
  obtain m where m: "az_start (\<lambda>d c. d) (Inr [Inr az_example_config]) = Running m"
    by (simp add: az_start_def az_loadConfig_def decode_into_def)
  moreover have "az_loadConfig (\<lambda>d c. d) (ev_found ?ev) = Inl ''type''"
    by (simp add: az_loadConfig_def decode_into_def)
  ultimately show ?thesis
    using az_failed_reload_allows [OF m, of "[]" ?ev "''type''"] by (auto simp: request_from_def)
qed



end
