(* ===== verification/ApiTypes.thy ===== *)
theory ApiTypes
  imports Prelude
begin

text \<open>
  The configuration types of \<open>types/types.go\<close>: what the API stores in MongoDB and the loader
  reads from it.  A struct is a record with the struct's fields in their order, a pointer an
  \<open>option\<close>, \<open>int\<close> and \<open>int64\<close> a 64-bit word.  A slice is a list; where the loader tests the
  slice against nil it is a \<open>list option\<close>, with \<open>None\<close> for nil.  (The loader's other tests
  have the form \<open>&x.Field != nil\<close>: the address of a field is never nil.)
\<close>

section \<open>Endpoints\<close>

record SocketAddressConfigType =
  sa_Address :: string
  sa_PortValue :: go_int

record AddressConfigType =
  addr_SocketAddress :: SocketAddressConfigType

record EndpointAddressType =
  ea_SocketAddress :: SocketAddressConfigType

record EndpointV2ConfigType =
  ev2_Address :: EndpointAddressType

record EndpointConfigType =
  ep_Endpoint :: EndpointV2ConfigType
  ep_LoadBalancingWeight :: "go_int option"

record LbEndpointConfigType =
  lbe_Priority :: go_int
  lbe_LbEndpoints :: "EndpointConfigType list"

record EndpointPolicyConfigType =
  epp_OverprovisioningFactor :: "go_int option"

record EndpointsConfigType =
  es_NodeID :: string
  es_ClusterName :: string
  es_Endpoints :: "LbEndpointConfigType list"
  es_Policy :: "EndpointPolicyConfigType option"

section \<open>Clusters\<close>

record Int64RangeConfigType =
  ir_Start :: "64 word"
  ir_End :: "64 word"

record HttpHealthCheckConfigType =
  hhc_Path :: string
  hhc_Host :: "string option"
  hhc_ExpectedStatuses :: "Int64RangeConfigType list"

record HealthChecksConfigType =
  hck_Timeout :: string
  hck_Interval :: string
  hck_UnhealthyThreshold :: go_int
  hck_HealthyThreshold :: go_int
  hck_HttpHealthCheck :: "HttpHealthCheckConfigType option"

record LeastRequestLbConfigType =
  lr_ChoiceCount :: go_int

record PercentValueConfigType =
  pv_Value :: go_int

record CommonLbConfigConfigType =
  clb_HealthyPanicThreshold :: PercentValueConfigType
  clb_LocalityWeightedLbConfig :: "unit option"

record HttpProtocolOptionsConfigType =
  hpo_AcceptHttp_10 :: "bool option"

record CommonHttpProtocolOptionsConfigType =
  chp_MaxHeadersCount :: "go_int option"
  chp_MaxStreamDuration :: "string option"

record ExplicitHttpConfigConfigType =
  ehc_Http2ProtocolOptions :: "unit option"
  ehc_HttpProtocolOptions :: "HttpProtocolOptionsConfigType option"

record TypedExtensionProtocolOptionsConfigType =
  tep_CommonHttpProtocolOptions :: "CommonHttpProtocolOptionsConfigType option"
  tep_UseDownstreamProtocolConfig :: "unit option"
  tep_ExplicitHttpConfig :: "ExplicitHttpConfigConfigType option"

record CircuitBreakers_ThresholdsConfigType =
  th_Priority :: "32 word"
  th_MaxConnections :: "u32 option"
  th_MaxPendingRequests :: "u32 option"
  th_MaxRequests :: "u32 option"
  th_MaxRetries :: "u32 option"

record CircuitBreakersConfigType =
  cb_Thresholds :: "CircuitBreakers_ThresholdsConfigType list option"

section \<open>TLS\<close>

record InlineStringConfigType =
  is_InlineString :: string

record TlsCertificateConfigType =
  tc_CertificateChain :: InlineStringConfigType
  tc_PrivateKey :: InlineStringConfigType
  tc_Password :: "InlineStringConfigType option"

record TlsParamsConfigType =
  tp_TlsMinimumProtocolVersion :: "string option"
  tp_TlsMaximumProtocolVersion :: "string option"
  tp_CipherSuites :: "string list"

record SdsConfigType =
  sds_Name :: string

record ValidationContextConfigType =
  vc_TrustedCa :: "InlineStringConfigType option"
  vc_SdsConfig :: "SdsConfigType option"

record CommonTlsContextType =
  ctc_TlsCertificates :: "TlsCertificateConfigType list"
  ctc_SdsConfig :: "SdsConfigType list"
  ctc_RequestClientCertificate :: "bool option"
  ctc_TlsParams :: "TlsParamsConfigType option"
  ctc_ValidationContext :: "ValidationContextConfigType option"

record TransportSocketTypedConfigType =
  tst_CommonTlsContext :: CommonTlsContextType
  tst_Sni :: "string option"

record TransportSocketConfigType =
  ts_TypedConfig :: TransportSocketTypedConfigType

record SecretConfigType =
  sec_NodeID :: string
  sec_Name :: string
  sec_TlsCertificate :: "TlsCertificateConfigType option"
  sec_ValidationContext :: "ValidationContextConfigType option"

text \<open>The map of protocol options holds pointers, which may be nil.\<close>

record ClusterConfigType =
  cl_NodeID :: string
  cl_PerConnectionBufferLimitBytes :: "go_int option"
  cl_Name :: string
  cl_ConnectTimeout :: string
  cl_LbPolicy :: "string option"
  cl_LeastRequestLbConfig :: "LeastRequestLbConfigType option"
  cl_TransportSocket :: "TransportSocketConfigType option"
  cl_HealthChecks :: "HealthChecksConfigType list"
  cl_CommonLbConfig :: "CommonLbConfigConfigType option"
  cl_MaxRequestsPerConnection :: "go_int option"
  cl_CommonHttpProtocolOptions :: "CommonHttpProtocolOptionsConfigType option"
  cl_TypedExtensionProtocolOptions :: "string \<rightharpoonup> TypedExtensionProtocolOptionsConfigType option"
  cl_CircuitBreakers :: "CircuitBreakersConfigType option"

section \<open>Routes\<close>

record RegexConfigType =
  rx_Regex :: string

record HeaderMatcherConfigType =
  hm_Name :: string
  hm_ExactMatch :: "string option"
  hm_SafeRegexMatch :: "RegexConfigType option"

record MatchConfigType =
  mc_Prefix :: "string option"
  mc_Path :: "string option"
  mc_Regex :: "RegexConfigType option"
  mc_Headers :: "HeaderMatcherConfigType list option"

record RegexRewriteConfigType =
  rr_Substitution :: string
  rr_Pattern :: RegexConfigType

record HashPolicyHeaderConfigType =
  hph_HeaderName :: string
  hph_RegexRewrite :: "RegexRewriteConfigType option"

record HashPolicyCookieConfigType =
  hpc_Name :: string
  hpc_Ttl :: string

record HashPolicyConnectionPropertiesConfigType =
  hpp_SourceIp :: bool

record HashPolicyQueryConfigType =
  hpq_Name :: string

record HashPolicyConfigType =
  hp_Terminal :: bool
  hp_Cookie :: "HashPolicyCookieConfigType option"
  hp_ConnectionProperties :: "HashPolicyConnectionPropertiesConfigType option"
  hp_QueryParameter :: "HashPolicyQueryConfigType option"
  hp_Header :: "HashPolicyHeaderConfigType option"

record RateLimitRequestHeadersConfigType =
  rlh_HeaderName :: string
  rlh_DescriptorKey :: string
  rlh_SkipIfAbsent :: bool

record RateLimitGenericKeyConfigType =
  rlg_DescriptorValue :: string
  rlg_DescriptorKey :: string

record RateLimitActionConfigType =
  rla_RequestHeaders :: "RateLimitRequestHeadersConfigType option"
  rla_GenericKey :: "RateLimitGenericKeyConfigType option"

record RateLimitConfigType =
  rlc_Actions :: "RateLimitActionConfigType list"

record RouteActionConfigType =
  ra_Timeout :: "string option"
  ra_Cluster :: string
  ra_PrefixRewrite :: "string option"
  ra_HostRewrite :: "string option"
  ra_RegexRewrite :: "RegexRewriteConfigType option"
  ra_HashPolicy :: "HashPolicyConfigType list option"
  ra_RateLimits :: "RateLimitConfigType list"

record HttpRedirectConfigType =
  rd_HttpsRedirect :: "bool option"
  rd_HostRedirect :: "string option"
  rd_PathRedirect :: "string option"
  rd_PrefixRewrite :: "string option"

record RouteConfigType =
  rt_Name :: string
  rt_Match :: "MatchConfigType option"
  rt_Route :: "RouteActionConfigType option"
  rt_Redirect :: "HttpRedirectConfigType option"

record VirtualHostConfigType =
  vh_Name :: string
  vh_Domains :: "string list"
  vh_Routes :: "RouteConfigType list"
  vh_RateLimits :: "RateLimitConfigType list"

record RouteConfigConfigType =
  rcc_Name :: string
  rcc_VirtualHosts :: "VirtualHostConfigType list"

section \<open>Listeners\<close>

record PrefixConfigType =
  px_AddressPrefix :: string
  px_PrefixLen :: go_int

record FilterChainMatchConfigType =
  fcm_ServerNames :: "string list"
  fcm_SourcePrefixRanges :: "PrefixConfigType list"
  fcm_PrefixRanges :: "PrefixConfigType list"

record RateLimitDescriptorEntryConfigType =
  rde_Key :: string
  rde_value :: string

record RateLimitDescriptorConfigType =
  rdc_Entries :: "RateLimitDescriptorEntryConfigType list"

record HttpFilterTypedConfigType =
  hft_Domain :: "string option"
  hft_Descriptors :: "RateLimitDescriptorConfigType list"
  hft_FailureModeDeny :: "bool option"
  hft_VhRateLimits :: "string option"
  hft_FailureModeAllow :: "bool option"

record HttpFiltersConfigType =
  hf_Name :: string
  hf_TypedConfig :: HttpFilterTypedConfigType

record AccessLogTypedConfigType =
  alt_AdditionalResponseHeadersToLog :: "string list"
  alt_AdditionalRequestHeadersToLog :: "string list"

record AccessLogConfigType =
  al_Name :: string
  al_TypedConfig :: AccessLogTypedConfigType

record TokenBucketConfigType =
  tb_MaxTokens :: go_int
  tb_TokensPerFill :: go_int
  tb_FillInterval :: string

record UpgradeConfigConfigType =
  uc_UpgradeType :: string

record TcpHashPolicyConfigType =
  thp_SourceIp :: "unit option"

record FilterTypedConfigType =
  ft_StatPrefix :: string
  ft_RouteConfig :: "RouteConfigConfigType option"
  ft_AccessLog :: "AccessLogConfigType option list option"
  ft_Cluster :: "string option"
  ft_TokenBucket :: "TokenBucketConfigType option"
  ft_IdleTimeout :: "string option"
  ft_UseRemoteAddress :: "bool option"
  ft_SkipXffAppend :: "bool option"
  ft_HttpFilters :: "HttpFiltersConfigType list"
  ft_MaxRequestHeadersKb :: "go_int option"
  ft_CommonHttpProtocolOptions :: "CommonHttpProtocolOptionsConfigType option"
  ft_HttpProtocolOptions :: "HttpProtocolOptionsConfigType option"
  ft_UpgradeConfigs :: "UpgradeConfigConfigType list"
  ft_HashPolicy :: "TcpHashPolicyConfigType list option"

record FilterConfigType =
  fl_Name :: string
  fl_TypedConfig :: FilterTypedConfigType

record FilterChainsConfigType =
  fc_FilterChainMatch :: "FilterChainMatchConfigType option"
  fc_Filters :: "FilterConfigType list"
  fc_TransportSocket :: "TransportSocketConfigType option"

record ListenerConfigType =
  li_NodeID :: string
  li_Name :: string
  li_Address :: AddressConfigType
  li_FilterChains :: "FilterChainsConfigType list"
  li_PerConnectionBufferLimitBytes :: "go_int option"

end
