(* ===== verification/EnvoyTypes.thy ===== *)
theory EnvoyTypes
  imports Prelude
begin

text \<open>
  The parts of Envoy's v3 API that the loader fills in, and the environment it works in.
  A protobuf message is a record of the fields the loader sets, a oneof a datatype, a wrapper
  (\<open>UInt32Value\<close>, \<open>BoolValue\<close>) or message pointer an \<open>option\<close>; a field the loader leaves
  alone has protobuf's default.  The serialized form of a message is an abstract type
  \<open>'any\<close>, made by the parameter \<open>marshal\<close>.
\<close>

section \<open>Scalars\<close>

text \<open>\<open>ptypes.DurationProto(d)\<close> of \<open>d\<close> nanoseconds, and Go's conversion \<open>float64(x)\<close>.\<close>

datatype duration = DurationProto go_int

datatype float64 = Float64 go_int

datatype api_version = API_AUTO | API_V2 | API_V3

section \<open>Core messages\<close>

datatype sa_protocol = TCP | UDP

datatype port_specifier = PortValue u32

record SocketAddress =
  sk_Address :: string
  sk_Protocol :: sa_protocol
  sk_PortSpecifier :: port_specifier

datatype core_Address = SocketAddressOf SocketAddress

datatype DataSource = InlineString string

datatype GrpcService = EnvoyGrpc (grpc_ClusterName: string)

datatype config_source_specifier = Ads

record ConfigSource =
  cs_InitialFetchTimeout :: "duration option"
  cs_ResourceApiVersion :: api_version
  cs_ConfigSourceSpecifier :: config_source_specifier

record CidrRange =
  cr_AddressPrefix :: string
  cr_PrefixLen :: "u32 option"

record pb_HttpProtocolOptions =
  po_MaxHeadersCount :: "u32 option"
  po_MaxStreamDuration :: "duration option"

record Http1ProtocolOptions =
  h1_AcceptHttp_10 :: bool

record RegexMatcher =
  rm_Regex :: string
  rm_MaxProgramSize :: "u32 option"

record RegexMatchAndSubstitute =
  rs_Pattern :: RegexMatcher
  rs_Substitution :: string

text \<open>A transport socket or filter: its name and its typed configuration.\<close>

record 'any TransportSocket =
  tsk_Name :: string
  tsk_TypedConfig :: "'any option"

section \<open>Secrets and TLS contexts\<close>

record TlsCertificate =
  crt_CertificateChain :: "DataSource option"
  crt_PrivateKey :: "DataSource option"
  crt_Password :: "DataSource option"

record CertificateValidationContext =
  cvc_TrustedCa :: "DataSource option"

datatype secret_type =
    Secret_TlsCertificate TlsCertificate
  | Secret_ValidationContext CertificateValidationContext

record Secret =
  scr_Name :: string
  scr_Type :: "secret_type option"

record SdsSecretConfig =
  ssc_Name :: string
  ssc_SdsConfig :: ConfigSource

record TlsParameters =
  tlp_TlsMinimumProtocolVersion :: int
  tlp_TlsMaximumProtocolVersion :: int
  tlp_CipherSuites :: "string list"

datatype validation_context_type =
    VC_ValidationContext CertificateValidationContext
  | VC_SdsSecretConfig SdsSecretConfig

record CommonTlsContext =
  cx_TlsCertificateSdsSecretConfigs :: "SdsSecretConfig list"
  cx_TlsCertificates :: "TlsCertificate list"
  cx_TlsParams :: "TlsParameters option"
  cx_ValidationContextType :: "validation_context_type option"

record DownstreamTlsContext =
  dtc_CommonTlsContext :: CommonTlsContext
  dtc_RequireClientCertificate :: "bool option"

record UpstreamTlsContext =
  utc_Sni :: string

section \<open>Endpoints\<close>

record LbEndpoint =
  lbp_HostIdentifier :: core_Address
  lbp_LoadBalancingWeight :: "u32 option"

record LocalityLbEndpoints =
  loc_LbEndpoints :: "LbEndpoint list"
  loc_Priority :: u32

record ClusterLoadAssignment =
  cla_ClusterName :: string
  cla_Endpoints :: "LocalityLbEndpoints list"
  cla_OverprovisioningFactor :: "u32 option"

section \<open>Clusters\<close>

datatype lb_policy = ROUND_ROBIN | LEAST_REQUEST | MAGLEV

datatype discovery_type = EDS

record Int64Range =
  rng_Start :: "64 word"
  rng_End :: "64 word"

record pb_HttpHealthCheck =
  hh_Path :: string
  hh_Host :: string
  hh_ExpectedStatuses :: "Int64Range list"

datatype health_checker = HttpHealthCheck pb_HttpHealthCheck | TcpHealthCheck

record HealthCheck =
  hc_HealthyThreshold :: "u32 option"
  hc_UnhealthyThreshold :: "u32 option"
  hc_Timeout :: "duration option"
  hc_Interval :: "duration option"
  hc_HealthChecker :: health_checker

record Thresholds =
  ct_Priority :: "32 word"
  ct_MaxConnections :: "u32 option"
  ct_MaxPendingRequests :: "u32 option"
  ct_MaxRequests :: "u32 option"
  ct_MaxRetries :: "u32 option"

record CircuitBreakers =
  cbk_Thresholds :: "Thresholds list"

record CommonLbConfig =
  cmn_HealthyPanicThreshold :: float64
  cmn_LocalityWeighted :: bool

datatype explicit_http = ExplicitHttp1 Http1ProtocolOptions | ExplicitHttp2

text \<open>An \<open>ExplicitHttpConfig_\<close> whose inner message was never set is \<open>UpstreamExplicit None\<close>.\<close>

datatype upstream_options = UseDownstreamProtocol | UpstreamExplicit "explicit_http option"

record UpstreamHttpProtocolOptions =
  upo_UpstreamProtocolOptions :: upstream_options
  upo_CommonHttpProtocolOptions :: "pb_HttpProtocolOptions option"

record 'any Cluster =
  cls_Name :: string
  cls_ConnectTimeout :: duration
  cls_CommonLbConfig :: CommonLbConfig
  cls_ClusterDiscoveryType :: discovery_type
  cls_EdsConfig :: ConfigSource
  cls_CircuitBreakers :: "CircuitBreakers option"
  cls_TypedExtensionProtocolOptions :: "(string \<times> 'any option) list"
  cls_MaxRequestsPerConnection :: "u32 option"
  cls_PerConnectionBufferLimitBytes :: "u32 option"
  cls_LbPolicy :: lb_policy
  cls_ChoiceCount :: "u32 option"
  cls_TransportSocket :: "'any TransportSocket option"
  cls_HealthChecks :: "HealthCheck list"

section \<open>Routes\<close>

datatype path_specifier =
    RouteMatch_Prefix string
  | RouteMatch_Path string
  | RouteMatch_SafeRegex RegexMatcher

datatype header_match_specifier = ExactMatch string | SafeRegexMatch RegexMatcher

record HeaderMatcher =
  mh_Name :: string
  mh_HeaderMatchSpecifier :: "header_match_specifier option"

record RouteMatch =
  rmt_PathSpecifier :: path_specifier
  rmt_Headers :: "HeaderMatcher list"

datatype rl_action =
    RL_RequestHeaders string string bool
  | RL_GenericKey string string

record pb_RateLimit =
  prl_Actions :: "rl_action list"

datatype hash_specifier =
    Hash_Cookie string duration
  | Hash_ConnectionProperties bool
  | Hash_QueryParameter string
  | Hash_Header string "RegexMatchAndSubstitute option"

record HashPolicy =
  hsp_Terminal :: bool
  hsp_PolicySpecifier :: "hash_specifier option"

record RouteAction =
  act_Cluster :: string
  act_Timeout :: "duration option"
  act_RateLimits :: "pb_RateLimit list"
  act_PrefixRewrite :: string
  act_HostRewriteLiteral :: "string option"
  act_RegexRewrite :: "RegexMatchAndSubstitute option"
  act_HashPolicy :: "HashPolicy list"

datatype path_rewrite = PathRedirect string | PrefixRewrite string

record RedirectAction =
  rda_HttpsRedirect :: bool
  rda_HostRedirect :: string
  rda_PathRewriteSpecifier :: "path_rewrite option"

datatype route_kind = Route_Route RouteAction | Route_Redirect RedirectAction

record Route =
  rte_Name :: string
  rte_Match :: "RouteMatch option"
  rte_Action :: "route_kind option"

record VirtualHost =
  vhs_Name :: string
  vhs_Domains :: "string list"
  vhs_RateLimits :: "pb_RateLimit list"
  vhs_Routes :: "Route list"

record RouteConfiguration =
  rcf_Name :: string
  rcf_VirtualHosts :: "VirtualHost list"

section \<open>Network and HTTP filters\<close>

record CommonGrpcAccessLogConfig =
  gal_TransportApiVersion :: api_version
  gal_LogName :: string
  gal_GrpcService :: GrpcService

record HttpGrpcAccessLogConfig =
  hal_CommonConfig :: CommonGrpcAccessLogConfig
  hal_AdditionalResponseHeadersToLog :: "string list"
  hal_AdditionalRequestHeadersToLog :: "string list"

record 'any AccessLog =
  acl_Name :: string
  acl_TypedConfig :: "'any option"

record 'any HttpFilter =
  htf_Name :: string
  htf_TypedConfig :: "'any option"

record ExtAuthz =
  exa_GrpcService :: GrpcService
  exa_TransportApiVersion :: api_version
  exa_FailureModeAllow :: bool
  exa_ClearRouteCache :: bool
  exa_IncludePeerCertificate :: bool

record RateLimitFilter =
  rlf_Domain :: string
  rlf_FailureModeDeny :: bool
  rlf_TransportApiVersion :: api_version
  rlf_GrpcService :: GrpcService

record LocalRateLimit =
  lrl_StatPrefix :: string
  lrl_MaxTokens :: u32
  lrl_TokensPerFill :: "u32 option"
  lrl_FillInterval :: duration

record 'any TcpProxy =
  tcp_StatPrefix :: string
  tcp_Cluster :: string
  tcp_HashSourceIp :: "unit list"
  tcp_IdleTimeout :: "duration option"
  tcp_AccessLog :: "'any AccessLog list"

datatype codec_type = CODEC_AUTO

record 'any HttpConnectionManager =
  hcm_CodecType :: codec_type
  hcm_StatPrefix :: string
  hcm_RouteConfig :: RouteConfiguration
  hcm_HttpProtocolOptions :: Http1ProtocolOptions
  hcm_UpgradeConfigs :: "string list"
  hcm_HttpFilters :: "'any HttpFilter list"
  hcm_CommonHttpProtocolOptions :: "pb_HttpProtocolOptions option"
  hcm_MaxRequestHeadersKb :: "u32 option"
  hcm_UseRemoteAddress :: "bool option"
  hcm_SkipXffAppend :: bool
  hcm_AccessLog :: "'any AccessLog list"

section \<open>Listeners\<close>

record 'any ListenerFilter =
  lsf_Name :: string
  lsf_TypedConfig :: "'any option"

record 'any Filter =
  flt_Name :: string
  flt_TypedConfig :: "'any option"

record FilterChainMatch =
  fm_ServerNames :: "string list"
  fm_SourcePrefixRanges :: "CidrRange list"
  fm_PrefixRanges :: "CidrRange list"

text \<open>A filter chain's filters are pointers; nil is a value the loader can append.\<close>

record 'any FilterChain =
  ch_FilterChainMatch :: "FilterChainMatch option"
  ch_Filters :: "'any Filter option list"
  ch_TransportSocket :: "'any TransportSocket option"

record 'any Listener =
  lst_Name :: string
  lst_Address :: core_Address
  lst_ListenerFilters :: "'any ListenerFilter list"
  lst_FilterChains :: "'any FilterChain list"
  lst_PerConnectionBufferLimitBytes :: "u32 option"

section \<open>Environment\<close>

text \<open>The messages the loader packs into an \<open>Any\<close>.\<close>

datatype 'any message =
    M_TlsInspector
  | M_LocalRateLimit LocalRateLimit
  | M_TcpGrpcAccessLogConfig CommonGrpcAccessLogConfig
  | M_TcpProxy "'any TcpProxy"
  | M_ExtAuthz ExtAuthz
  | M_RateLimit RateLimitFilter
  | M_RateLimitPerRoute int
  | M_Router
  | M_HttpGrpcAccessLogConfig HttpGrpcAccessLogConfig
  | M_HttpConnectionManager "'any HttpConnectionManager"
  | M_DownstreamTlsContext DownstreamTlsContext
  | M_UpstreamTlsContext UpstreamTlsContext
  | M_HttpProtocolOptions UpstreamHttpProtocolOptions

text \<open>
  What the loader takes from elsewhere.  \<open>marshal m\<close> is the first result of
  \<open>ptypes.MarshalAny\<close>, \<open>None\<close> (nil) when serialization fails: the loader drops the error.
  \<open>parse_duration\<close> is \<open>time.ParseDuration\<close>, a parameter because it rounds fractions through
  floating point; the tables are generated with the protobuf enums, the names are
  constants of the package \<open>wellknown\<close>.
\<close>

record 'any loader_env =
  parse_duration :: "string \<Rightarrow> go_int option"
  marshal :: "'any message \<Rightarrow> 'any option"
  VhRateLimitsOptions_value :: "string \<rightharpoonup> int"
  TlsProtocol_value :: "string \<rightharpoonup> int"
  wk_TlsInspector :: string
  wk_TCPProxy :: string
  wk_HTTPExternalAuthorization :: string
  wk_HTTPRateLimit :: string
  wk_RateLimit :: string
  wk_HTTPConnectionManager :: string

text \<open>An environment for examples: a message is serialized to its kind and name.\<close>

fun sample_marshal :: "string message \<Rightarrow> string option" where
  "sample_marshal (M_RateLimit f) = Some (''ratelimit '' @ rlf_Domain f)"
| "sample_marshal (M_TcpProxy t) = Some (''tcp '' @ tcp_Cluster t)"
| "sample_marshal (M_HttpConnectionManager h) = Some (''hcm '' @ hcm_StatPrefix h)"
| "sample_marshal M_Router = Some ''router''"
| "sample_marshal _ = Some ''message''"

definition sample_env :: "string loader_env" where
  "sample_env = \<lparr>parse_duration = [''1s'' \<mapsto> 1000000000], marshal = sample_marshal,
     VhRateLimitsOptions_value = [''OVERRIDE'' \<mapsto> 0, ''INCLUDE'' \<mapsto> 1, ''IGNORE'' \<mapsto> 2],
     TlsProtocol_value = [''TLSv1_2'' \<mapsto> 3, ''TLSv1_3'' \<mapsto> 4],
     wk_TlsInspector = ''envoy.filters.listener.tls_inspector'',
     wk_TCPProxy = ''envoy.filters.network.tcp_proxy'',
     wk_HTTPExternalAuthorization = ''envoy.filters.http.ext_authz'',
     wk_HTTPRateLimit = ''envoy.filters.http.ratelimit'',
     wk_RateLimit = ''envoy.filters.network.ratelimit'',
     wk_HTTPConnectionManager = ''envoy.filters.network.http_connection_manager''\<rparr>"

end
