(* ===== verification/LoaderCluster.thy ===== *)
theory LoaderCluster
  imports ApiTypes EnvoyTypes
begin

text \<open>
  \<open>parseEndpoint\<close> and \<open>parseCluster\<close> of \<open>loader/mongoloader.go\<close>: the translation of stored
  endpoints and clusters into Envoy's messages.
\<close>

section \<open>Endpoints\<close>

text \<open>The address of an endpoint or listener; the port is cut to 32 bits.\<close>

definition tcp_address :: "SocketAddressConfigType \<Rightarrow> core_Address" where
  "tcp_address sa = SocketAddressOf
     \<lparr>sk_Address = sa_Address sa, sk_Protocol = TCP, sk_PortSpecifier = PortValue (to_u32 (sa_PortValue sa))\<rparr>"

definition parse_lb_endpoint :: "EndpointConfigType \<Rightarrow> LbEndpoint" where
  "parse_lb_endpoint lben =
     (case ep_LoadBalancingWeight lben of
        Some weight \<Rightarrow>
          \<lparr>lbp_HostIdentifier = tcp_address (ea_SocketAddress (ev2_Address (ep_Endpoint lben))),
           lbp_LoadBalancingWeight = Some (to_u32 weight)\<rparr>
      | None \<Rightarrow>
          \<lparr>lbp_HostIdentifier = tcp_address (ea_SocketAddress (ev2_Address (ep_Endpoint lben))),
           lbp_LoadBalancingWeight = None\<rparr>)"

definition parse_locality :: "LbEndpointConfigType \<Rightarrow> LocalityLbEndpoints" where
  "parse_locality en =
     \<lparr>loc_LbEndpoints = map parse_lb_endpoint (lbe_LbEndpoints en),
      loc_Priority = to_u32 (lbe_Priority en)\<rparr>"

definition parseEndpoint :: "EndpointsConfigType \<Rightarrow> ClusterLoadAssignment" where
  "parseEndpoint e =
     \<lparr>cla_ClusterName = es_ClusterName e,
      cla_Endpoints = map parse_locality (es_Endpoints e),
      cla_OverprovisioningFactor =
        (case es_Policy e of
           None \<Rightarrow> None
         | Some p \<Rightarrow> map_option to_u32 (epp_OverprovisioningFactor p))\<rparr>"

section \<open>Clusters\<close>

text \<open>\<open>time.Duration(5 * time.Second)\<close>, the duration of a text that does not parse.\<close>

definition five_seconds :: go_int where
  "five_seconds = 5000000000"

definition duration_or_default :: "'any loader_env \<Rightarrow> string \<Rightarrow> duration" where
  "duration_or_default env s =
     DurationProto (case parse_duration env s of Some d \<Rightarrow> d | None \<Rightarrow> five_seconds)"

definition optional_duration :: "'any loader_env \<Rightarrow> string \<Rightarrow> duration option" where
  "optional_duration env s = map_option DurationProto (parse_duration env s)"

definition ads_source :: "duration option \<Rightarrow> api_version \<Rightarrow> ConfigSource" where
  "ads_source timeout version =
     \<lparr>cs_InitialFetchTimeout = timeout, cs_ResourceApiVersion = version, cs_ConfigSourceSpecifier = Ads\<rparr>"

definition parse_threshold :: "CircuitBreakers_ThresholdsConfigType \<Rightarrow> Thresholds" where
  "parse_threshold t =
     \<lparr>ct_Priority = th_Priority t, ct_MaxConnections = th_MaxConnections t,
      ct_MaxPendingRequests = th_MaxPendingRequests t, ct_MaxRequests = th_MaxRequests t,
      ct_MaxRetries = th_MaxRetries t\<rparr>"

definition parse_circuit_breakers :: "CircuitBreakersConfigType \<Rightarrow> CircuitBreakers" where
  "parse_circuit_breakers cb =
     \<lparr>cbk_Thresholds =
        (case cb_Thresholds cb of None \<Rightarrow> [] | Some ts \<Rightarrow> map parse_threshold ts)\<rparr>"

text \<open>
  The block the code has three times: the options start empty, then the two optional fields
  are set.
\<close>

definition parse_common_http ::
    "'any loader_env \<Rightarrow> CommonHttpProtocolOptionsConfigType \<Rightarrow> pb_HttpProtocolOptions" where
  "parse_common_http env o' =
     \<lparr>po_MaxHeadersCount = map_option to_u32 (chp_MaxHeadersCount o'),
      po_MaxStreamDuration =
        (case chp_MaxStreamDuration o' of None \<Rightarrow> None | Some s \<Rightarrow> optional_duration env s)\<rparr>"

definition http_options_key :: string where
  "http_options_key = ''envoy.extensions.upstreams.http.v3.HttpProtocolOptions''"

definition parse_explicit_http :: "ExplicitHttpConfigConfigType \<Rightarrow> upstream_options" where
  "parse_explicit_http ex =
     (if ehc_HttpProtocolOptions ex \<noteq> None
      then UpstreamExplicit (Some (ExplicitHttp1 \<lparr>h1_AcceptHttp_10 = False\<rparr>))
      else if ehc_Http2ProtocolOptions ex \<noteq> None
      then UpstreamExplicit (Some ExplicitHttp2)
      else UpstreamExplicit None)"

text \<open>The protocol options: the defaults, the cluster's common options, then the typed options.\<close>

definition parse_protocol_options ::
    "'any loader_env \<Rightarrow> ClusterConfigType \<Rightarrow> UpstreamHttpProtocolOptions" where
  "parse_protocol_options env c =
     (let protoopts =
        \<lparr>upo_UpstreamProtocolOptions = UseDownstreamProtocol,
         upo_CommonHttpProtocolOptions =
           map_option (parse_common_http env) (cl_CommonHttpProtocolOptions c)\<rparr>
      in case cl_TypedExtensionProtocolOptions c http_options_key of
           None \<Rightarrow> protoopts
         | Some None \<Rightarrow> protoopts
         | Some (Some val) \<Rightarrow>
             (let protoopts =
                (case tep_ExplicitHttpConfig val of
                   None \<Rightarrow> protoopts
                 | Some ex \<Rightarrow> protoopts\<lparr>upo_UpstreamProtocolOptions := parse_explicit_http ex\<rparr>)
              in case tep_CommonHttpProtocolOptions val of
                   None \<Rightarrow> protoopts
                 | Some co \<Rightarrow> protoopts\<lparr>upo_CommonHttpProtocolOptions := Some (parse_common_http env co)\<rparr>))"

definition parse_common_lb :: "CommonLbConfigConfigType option \<Rightarrow> CommonLbConfig" where
  "parse_common_lb cfg =
     (let initial = \<lparr>cmn_HealthyPanicThreshold = Float64 0, cmn_LocalityWeighted = False\<rparr>
      in case cfg of
           None \<Rightarrow> initial
         | Some lb \<Rightarrow>
             (let res = initial\<lparr>cmn_HealthyPanicThreshold := Float64 (pv_Value (clb_HealthyPanicThreshold lb))\<rparr>
              in if clb_LocalityWeightedLbConfig lb \<noteq> None then res\<lparr>cmn_LocalityWeighted := True\<rparr> else res))"

definition parse_lb_policy :: "string option \<Rightarrow> lb_policy" where
  "parse_lb_policy p =
     (case p of
        None \<Rightarrow> ROUND_ROBIN
      | Some name \<Rightarrow>
          if name = ''LEAST_REQUEST'' then LEAST_REQUEST
          else if name = ''MAGLEV'' then MAGLEV
          else ROUND_ROBIN)"

definition parse_upstream_tls ::
    "'any loader_env \<Rightarrow> TransportSocketConfigType \<Rightarrow> 'any TransportSocket" where
  "parse_upstream_tls env ts =
     (let tls = \<lparr>utc_Sni = (case tst_Sni (ts_TypedConfig ts) of None \<Rightarrow> [] | Some sni \<Rightarrow> sni)\<rparr>
      in \<lparr>tsk_Name = ''envoy.transport_sockets.tls'', tsk_TypedConfig = marshal env (M_UpstreamTlsContext tls)\<rparr>)"

definition parse_http_health_check :: "HttpHealthCheckConfigType \<Rightarrow> pb_HttpHealthCheck" where
  "parse_http_health_check h =
     \<lparr>hh_Path = hhc_Path h,
      hh_Host = (case hhc_Host h of None \<Rightarrow> [] | Some host \<Rightarrow> host),
      hh_ExpectedStatuses =
        map (\<lambda>hces. \<lparr>rng_Start = ir_Start hces, rng_End = ir_End hces\<rparr>) (hhc_ExpectedStatuses h)\<rparr>"

definition parse_health_check :: "'any loader_env \<Rightarrow> HealthChecksConfigType \<Rightarrow> HealthCheck" where
  "parse_health_check env hc =
     \<lparr>hc_HealthyThreshold = Some (to_u32 (hck_HealthyThreshold hc)),
      hc_UnhealthyThreshold = Some (to_u32 (hck_UnhealthyThreshold hc)),
      hc_Timeout = Some (duration_or_default env (hck_Timeout hc)),
      hc_Interval = Some (duration_or_default env (hck_Interval hc)),
      hc_HealthChecker =
        (case hck_HttpHealthCheck hc of
           Some h \<Rightarrow> HttpHealthCheck (parse_http_health_check h)
         | None \<Rightarrow> TcpHealthCheck)\<rparr>"

definition parseCluster :: "'any loader_env \<Rightarrow> ClusterConfigType \<Rightarrow> 'any Cluster" where
  "parseCluster env c =
     \<lparr>cls_Name = cl_Name c,
      cls_ConnectTimeout = duration_or_default env (cl_ConnectTimeout c),
      cls_CommonLbConfig = parse_common_lb (cl_CommonLbConfig c),
      cls_ClusterDiscoveryType = EDS,
      cls_EdsConfig = ads_source (Some (DurationProto 0)) API_V3,
      cls_CircuitBreakers = map_option parse_circuit_breakers (cl_CircuitBreakers c),
      cls_TypedExtensionProtocolOptions =
        [(http_options_key, marshal env (M_HttpProtocolOptions (parse_protocol_options env c)))],
      cls_MaxRequestsPerConnection = map_option to_u32 (cl_MaxRequestsPerConnection c),
      cls_PerConnectionBufferLimitBytes = map_option to_u32 (cl_PerConnectionBufferLimitBytes c),
      cls_LbPolicy = parse_lb_policy (cl_LbPolicy c),
      cls_ChoiceCount = map_option (\<lambda>lr. to_u32 (lr_ChoiceCount lr)) (cl_LeastRequestLbConfig c),
      cls_TransportSocket = map_option (parse_upstream_tls env) (cl_TransportSocket c),
      cls_HealthChecks = map (parse_health_check env) (cl_HealthChecks c)\<rparr>"

section \<open>Endpoints survive the translation\<close>

text \<open>Reading an assignment back, and the endpoints whose numbers fit Envoy's 32-bit fields.\<close>

definition read_endpoint :: "LbEndpoint \<Rightarrow> EndpointConfigType" where
  "read_endpoint lb =
     (case lbp_HostIdentifier lb of SocketAddressOf sk \<Rightarrow>
       (case sk_PortSpecifier sk of PortValue p \<Rightarrow>
         \<lparr>ep_Endpoint = \<lparr>ev2_Address = \<lparr>ea_SocketAddress =
            \<lparr>sa_Address = sk_Address sk, sa_PortValue = ucast p\<rparr>\<rparr>\<rparr>,
          ep_LoadBalancingWeight = map_option ucast (lbp_LoadBalancingWeight lb)\<rparr>))"

definition read_assignment :: "string \<Rightarrow> ClusterLoadAssignment \<Rightarrow> EndpointsConfigType" where
  "read_assignment node a =
     \<lparr>es_NodeID = node, es_ClusterName = cla_ClusterName a,
      es_Endpoints = map (\<lambda>loc. \<lparr>lbe_Priority = ucast (loc_Priority loc),
        lbe_LbEndpoints = map read_endpoint (loc_LbEndpoints loc)\<rparr>) (cla_Endpoints a),
      es_Policy = map_option (\<lambda>f. \<lparr>epp_OverprovisioningFactor = Some (ucast f)\<rparr>)
        (cla_OverprovisioningFactor a)\<rparr>"

definition fits32 :: "go_int \<Rightarrow> bool" where
  "fits32 x \<longleftrightarrow> x < 4294967296"

definition endpoint_fits :: "EndpointConfigType \<Rightarrow> bool" where
  "endpoint_fits e \<longleftrightarrow>
     fits32 (sa_PortValue (ea_SocketAddress (ev2_Address (ep_Endpoint e)))) \<and>
     pred_option fits32 (ep_LoadBalancingWeight e)"

definition endpoints_fit :: "EndpointsConfigType \<Rightarrow> bool" where
  "endpoints_fit e \<longleftrightarrow>
     list_all (\<lambda>loc. fits32 (lbe_Priority loc) \<and> list_all endpoint_fits (lbe_LbEndpoints loc)) (es_Endpoints e) \<and>
     pred_option (\<lambda>p. epp_OverprovisioningFactor p \<noteq> None \<and>
       pred_option fits32 (epp_OverprovisioningFactor p)) (es_Policy e)"

lemma fits32_ucast [simp]: "fits32 x \<Longrightarrow> ucast (to_u32 x) = x"
  by (rule ucast_to_u32) (simp add: fits32_def word_less_nat_alt)

lemma read_parse_lb_endpoint [simp]: "endpoint_fits e \<Longrightarrow> read_endpoint (parse_lb_endpoint e) = e"
  by (cases e) (auto simp: endpoint_fits_def read_endpoint_def parse_lb_endpoint_def tcp_address_def
      split: option.splits)

lemma read_parse_lb_endpoints [simp]:
  "list_all endpoint_fits es \<Longrightarrow> map (\<lambda>x. read_endpoint (parse_lb_endpoint x)) es = es"
  by (induction es) auto

lemma map_idem: "list_all P xs \<Longrightarrow> (\<And>x. P x \<Longrightarrow> f x = x) \<Longrightarrow> map f xs = xs"
  by (induction xs) auto

text \<open>Endpoints whose priorities, weights, ports and overprovisioning factor fit into 32 bits, and
  whose policy (if any) names a factor, survive the translation: they can be read back from
  the assignment sent to Envoy.\<close>

theorem parseEndpoint_roundtrip:
  assumes "endpoints_fit e"
  shows "read_assignment (es_NodeID e) (parseEndpoint e) = e"
proof -
  have "map ((\<lambda>loc. \<lparr>lbe_Priority = ucast (loc_Priority loc),
      lbe_LbEndpoints = map read_endpoint (loc_LbEndpoints loc)\<rparr>) \<circ> parse_locality) (es_Endpoints e)
    = es_Endpoints e"
    using assms
    by (intro map_idem [where P = "\<lambda>loc. fits32 (lbe_Priority loc) \<and>
        list_all endpoint_fits (lbe_LbEndpoints loc)"])
      (auto simp: endpoints_fit_def parse_locality_def comp_def)
  moreover have "map_option (\<lambda>f. \<lparr>epp_OverprovisioningFactor = Some (ucast f)\<rparr>)
      (cla_OverprovisioningFactor (parseEndpoint e)) = es_Policy e"
    using assms by (cases "es_Policy e") (auto simp: endpoints_fit_def parseEndpoint_def)
  ultimately show ?thesis
    by (cases e) (simp add: read_assignment_def parseEndpoint_def)
qed

definition sample_endpoints :: "go_int \<Rightarrow> EndpointsConfigType" where
  "sample_endpoints port = \<lparr>es_NodeID = ''n1'', es_ClusterName = ''web'', es_Endpoints =
     [\<lparr>lbe_Priority = 1, lbe_LbEndpoints = [\<lparr>ep_Endpoint = \<lparr>ev2_Address = \<lparr>ea_SocketAddress =
        \<lparr>sa_Address = ''10.0.0.1'', sa_PortValue = port\<rparr>\<rparr>\<rparr>, ep_LoadBalancingWeight = Some 3\<rparr>]\<rparr>],
     es_Policy = Some \<lparr>epp_OverprovisioningFactor = Some 140\<rparr>\<rparr>"

theorem parseEndpoint_roundtrip_witness:
  "read_assignment ''n1'' (parseEndpoint (sample_endpoints 8080)) = sample_endpoints 8080"
proof -
  have "endpoints_fit (sample_endpoints 8080)"
    by (simp add: endpoints_fit_def endpoint_fits_def fits32_def sample_endpoints_def)
  from parseEndpoint_roundtrip [OF this] show ?thesis by (simp add: sample_endpoints_def)
qed

text \<open>A number of an endpoint outside that range is not rejected but cut to its low 32 bits: two
  endpoints are translated to the same message exactly if their addresses agree and their
  ports and weights agree modulo 2^32.\<close>

theorem parse_lb_endpoint_collision:
  "parse_lb_endpoint a = parse_lb_endpoint b \<longleftrightarrow>
     (let sa = ea_SocketAddress (ev2_Address (ep_Endpoint a));
          sb = ea_SocketAddress (ev2_Address (ep_Endpoint b))
      in sa_Address sa = sa_Address sb \<and>
         unat (sa_PortValue sa) mod 2 ^ 32 = unat (sa_PortValue sb) mod 2 ^ 32 \<and>
         map_option (\<lambda>w. unat w mod 2 ^ 32) (ep_LoadBalancingWeight a) =
         map_option (\<lambda>w. unat w mod 2 ^ 32) (ep_LoadBalancingWeight b))"
  by (auto simp: parse_lb_endpoint_def tcp_address_def Let_def to_u32_eq_iff simp del: One_nat_def
      split: option.splits)

section \<open>Clusters\<close>

text \<open>The common HTTP options in force: those of the typed options, else those of the cluster.\<close>

definition typed_options :: "ClusterConfigType \<Rightarrow> TypedExtensionProtocolOptionsConfigType option" where
  "typed_options c = (case cl_TypedExtensionProtocolOptions c http_options_key of
     Some (Some val) \<Rightarrow> Some val | _ \<Rightarrow> None)"

definition common_options :: "ClusterConfigType \<Rightarrow> CommonHttpProtocolOptionsConfigType option" where
  "common_options c =
     (case Option.bind (typed_options c) tep_CommonHttpProtocolOptions of
        Some co \<Rightarrow> Some co | None \<Rightarrow> cl_CommonHttpProtocolOptions c)"

definition explicit_options :: "ClusterConfigType \<Rightarrow> ExplicitHttpConfigConfigType option" where
  "explicit_options c = Option.bind (typed_options c) tep_ExplicitHttpConfig"

text \<open>The protocol options sent for a cluster: the common options are the typed ones when present,
  else the cluster's own; the upstream speaks the downstream's protocol unless explicit
  options exist; HTTP/1 options win over HTTP/2 options; and an explicit HTTP/1 choice never
  accepts HTTP/1.0, even where the stored configuration asks for it.\<close>

theorem parseCluster_protocol_options:
  "\<exists>opts. cls_TypedExtensionProtocolOptions (parseCluster env c) =
       [(http_options_key, marshal env (M_HttpProtocolOptions opts))] \<and>
     upo_CommonHttpProtocolOptions opts = map_option (parse_common_http env) (common_options c) \<and>
     upo_UpstreamProtocolOptions opts =
       (case explicit_options c of
          None \<Rightarrow> UseDownstreamProtocol
        | Some ex \<Rightarrow> UpstreamExplicit
            (if ehc_HttpProtocolOptions ex \<noteq> None then Some (ExplicitHttp1 \<lparr>h1_AcceptHttp_10 = False\<rparr>)
             else if ehc_Http2ProtocolOptions ex \<noteq> None then Some ExplicitHttp2 else None))"
  by (intro exI [of _ "parse_protocol_options env c"])
    (auto simp: parseCluster_def parse_protocol_options_def parse_explicit_http_def common_options_def
      explicit_options_def typed_options_def Let_def split: option.splits)

definition duration_texts :: "ClusterConfigType \<Rightarrow> string set" where
  "duration_texts c = {cl_ConnectTimeout c} \<union>
     (\<Union>hc \<in> set (cl_HealthChecks c). {hck_Timeout hc, hck_Interval hc}) \<union>
     set_option (Option.bind (common_options c) chp_MaxStreamDuration)"

text \<open>On durations that do not parse, the connect timeout and the timeout and interval of every
  health check become five seconds, while a maximal stream duration is dropped, which leaves
  the streams unbounded.\<close>

theorem parseCluster_bad_durations:
  assumes "\<forall>s \<in> duration_texts c. parse_duration env s = None"
  shows "cls_ConnectTimeout (parseCluster env c) = DurationProto 5000000000 \<and>
    (\<forall>hc \<in> set (cls_HealthChecks (parseCluster env c)).
       hc_Timeout hc = Some (DurationProto 5000000000) \<and> hc_Interval hc = Some (DurationProto 5000000000)) \<and>
    pred_option (\<lambda>o'. po_MaxStreamDuration o' = None)
      (upo_CommonHttpProtocolOptions (parse_protocol_options env c))"
proof -
  have "upo_CommonHttpProtocolOptions (parse_protocol_options env c) =
      map_option (parse_common_http env) (common_options c)"
    by (auto simp: parse_protocol_options_def common_options_def typed_options_def Let_def
        split: option.splits)
  then have "pred_option (\<lambda>o'. po_MaxStreamDuration o' = None)
      (upo_CommonHttpProtocolOptions (parse_protocol_options env c))"
    using assms by (cases "common_options c")
      (auto simp: parse_common_http_def optional_duration_def duration_texts_def split: option.splits)
  moreover have "parse_duration env (cl_ConnectTimeout c) = None"
    using assms by (simp add: duration_texts_def)
  moreover have "parse_duration env (hck_Timeout hc) = None \<and> parse_duration env (hck_Interval hc) = None"
    if "hc \<in> set (cl_HealthChecks c)" for hc
    using assms that by (fastforce simp: duration_texts_def)
  ultimately show ?thesis
    by (auto simp: parseCluster_def parse_health_check_def duration_or_default_def five_seconds_def)
qed

definition sample_cluster :: ClusterConfigType where
  "sample_cluster = \<lparr>cl_NodeID = ''n1'', cl_PerConnectionBufferLimitBytes = None, cl_Name = ''web'',
     cl_ConnectTimeout = ''soon'', cl_LbPolicy = Some ''MAGLEV'', cl_LeastRequestLbConfig = None,
     cl_TransportSocket = None, cl_HealthChecks = [\<lparr>hck_Timeout = ''x'', hck_Interval = ''y'',
       hck_UnhealthyThreshold = 3, hck_HealthyThreshold = 2, hck_HttpHealthCheck = None\<rparr>],
     cl_CommonLbConfig = None, cl_MaxRequestsPerConnection = None,
     cl_CommonHttpProtocolOptions = Some \<lparr>chp_MaxHeadersCount = None, chp_MaxStreamDuration = Some ''1 h''\<rparr>,
     cl_TypedExtensionProtocolOptions = Map.empty, cl_CircuitBreakers = None\<rparr>"

theorem parseCluster_bad_durations_witness:
  "cls_ConnectTimeout (parseCluster sample_env sample_cluster) = DurationProto 5000000000 \<and>
   map hc_Timeout (cls_HealthChecks (parseCluster sample_env sample_cluster)) = [Some (DurationProto 5000000000)]"
proof -
  have "\<forall>s \<in> duration_texts sample_cluster. parse_duration sample_env s = None"
    by (simp add: duration_texts_def common_options_def typed_options_def sample_cluster_def sample_env_def)
  from parseCluster_bad_durations [OF this] show ?thesis
    by (simp add: parseCluster_def sample_cluster_def)
qed

end
