(* ===== verification/LoaderTls.thy ===== *)
theory LoaderTls
  imports LoaderCluster
begin

text \<open>
  Secrets and TLS of \<open>loader/mongoloader.go\<close>: \<open>parseSecret\<close>, and the downstream TLS context
  \<open>parseListener\<close> makes for a filter chain.
\<close>

section \<open>Secrets\<close>

definition inline_source :: "InlineStringConfigType \<Rightarrow> DataSource" where
  "inline_source s = InlineString (is_InlineString s)"

definition parseSecret :: "SecretConfigType \<Rightarrow> Secret go" where
  "parseSecret s =
     (let sec = \<lparr>scr_Name = sec_Name s, scr_Type = None\<rparr>;
          sec =
            (case sec_TlsCertificate s of
               None \<Rightarrow> sec
             | Some c \<Rightarrow> sec\<lparr>scr_Type := Some (Secret_TlsCertificate
                 \<lparr>crt_CertificateChain = Some (inline_source (tc_CertificateChain c)),
                  crt_PrivateKey = Some (inline_source (tc_PrivateKey c)), crt_Password = None\<rparr>)\<rparr>)
      in case sec_ValidationContext s of
           None \<Rightarrow> Inr sec
         | Some vc \<Rightarrow>
             bind_go (deref (vc_TrustedCa vc)) (\<lambda>ca.
             Inr (sec\<lparr>scr_Type := Some (Secret_ValidationContext
               \<lparr>cvc_TrustedCa = Some (inline_source ca)\<rparr>)\<rparr>)))"

section \<open>Downstream TLS\<close>

definition parse_sds :: "SdsConfigType \<Rightarrow> SdsSecretConfig" where
  "parse_sds sds =
     \<lparr>ssc_Name = sds_Name sds, ssc_SdsConfig = ads_source (Some (DurationProto 0)) API_V3\<rparr>"

definition parse_tls_certificate :: "TlsCertificateConfigType \<Rightarrow> TlsCertificate" where
  "parse_tls_certificate c =
     (let cert = \<lparr>crt_CertificateChain = Some (inline_source (tc_CertificateChain c)),
                  crt_PrivateKey = Some (inline_source (tc_PrivateKey c)), crt_Password = None\<rparr>
      in case tc_Password c of
           None \<Rightarrow> cert
         | Some p \<Rightarrow> cert\<lparr>crt_Password := Some (inline_source p)\<rparr>)"

text \<open>A protocol version: an unknown name leaves the default 0 (\<open>TLS_AUTO\<close>).\<close>

definition tls_version :: "'any loader_env \<Rightarrow> string option \<Rightarrow> int" where
  "tls_version env name =
     (case name of
        None \<Rightarrow> 0
      | Some n \<Rightarrow> (case TlsProtocol_value env n of Some v \<Rightarrow> v | None \<Rightarrow> 0))"

definition parse_tls_params :: "'any loader_env \<Rightarrow> TlsParamsConfigType \<Rightarrow> TlsParameters" where
  "parse_tls_params env p =
     \<lparr>tlp_TlsMinimumProtocolVersion = tls_version env (tp_TlsMinimumProtocolVersion p),
      tlp_TlsMaximumProtocolVersion = tls_version env (tp_TlsMaximumProtocolVersion p),
      tlp_CipherSuites = tp_CipherSuites p\<rparr>"

text \<open>Of the two kinds of validation context the one named by a secret wins.\<close>

definition parse_validation :: "ValidationContextConfigType \<Rightarrow> validation_context_type option" where
  "parse_validation vc =
     (let t = (case vc_TrustedCa vc of
                 None \<Rightarrow> None
               | Some ca \<Rightarrow> Some (VC_ValidationContext \<lparr>cvc_TrustedCa = Some (inline_source ca)\<rparr>))
      in case vc_SdsConfig vc of
           None \<Rightarrow> t
         | Some sds \<Rightarrow> Some (VC_SdsSecretConfig
             \<lparr>ssc_Name = sds_Name sds, ssc_SdsConfig = ads_source None API_AUTO\<rparr>))"

text \<open>The parameters and, only inside their block, the validation context.\<close>

definition parse_tls_verification ::
    "'any loader_env \<Rightarrow> CommonTlsContextType \<Rightarrow> CommonTlsContext \<Rightarrow> CommonTlsContext" where
  "parse_tls_verification env ctx tls =
     (case ctc_TlsParams ctx of
        None \<Rightarrow> tls
      | Some p \<Rightarrow>
          (let tls = tls\<lparr>cx_TlsParams := Some (parse_tls_params env p)\<rparr>
           in case ctc_ValidationContext ctx of
                None \<Rightarrow> tls
              | Some vc \<Rightarrow> tls\<lparr>cx_ValidationContextType := parse_validation vc\<rparr>))"

definition parse_downstream_tls ::
    "'any loader_env \<Rightarrow> CommonTlsContextType \<Rightarrow> DownstreamTlsContext" where
  "parse_downstream_tls env ctx =
     (let common = \<lparr>cx_TlsCertificateSdsSecretConfigs = map parse_sds (ctc_SdsConfig ctx),
                    cx_TlsCertificates = map parse_tls_certificate (ctc_TlsCertificates ctx),
                    cx_TlsParams = None, cx_ValidationContextType = None\<rparr>
      in \<lparr>dtc_CommonTlsContext = parse_tls_verification env ctx common,
          dtc_RequireClientCertificate =
            (if ctc_RequestClientCertificate ctx \<noteq> None then Some True else None)\<rparr>)"

definition parse_transport_socket ::
    "'any loader_env \<Rightarrow> TransportSocketConfigType \<Rightarrow> 'any TransportSocket" where
  "parse_transport_socket env ts =
     \<lparr>tsk_Name = ''envoy.transport_sockets.tls'',
      tsk_TypedConfig = marshal env (M_DownstreamTlsContext
        (parse_downstream_tls env (tst_CommonTlsContext (ts_TypedConfig ts))))\<rparr>"

section \<open>Properties\<close>

text \<open>Translating a secret panics exactly if it has a validation context without a trusted CA,
  for instance one that only names another secret; otherwise the message keeps the name, and
  its content is the trusted CA when there is a validation context, else the certificate.\<close>

theorem parseSecret_result:
  "parseSecret s =
     (case sec_ValidationContext s of
        Some vc \<Rightarrow>
          (case vc_TrustedCa vc of
             None \<Rightarrow> Inl NilDereference
           | Some ca \<Rightarrow> Inr \<lparr>scr_Name = sec_Name s, scr_Type = Some (Secret_ValidationContext
               \<lparr>cvc_TrustedCa = Some (InlineString (is_InlineString ca))\<rparr>)\<rparr>)
      | None \<Rightarrow> Inr \<lparr>scr_Name = sec_Name s, scr_Type = map_option (\<lambda>c. Secret_TlsCertificate
          \<lparr>crt_CertificateChain = Some (InlineString (is_InlineString (tc_CertificateChain c))),
           crt_PrivateKey = Some (InlineString (is_InlineString (tc_PrivateKey c))),
           crt_Password = None\<rparr>) (sec_TlsCertificate s)\<rparr>)"
  by (auto simp: parseSecret_def inline_source_def Let_def split: option.splits)

text \<open>The validation a listener asks for: what its TLS context names, a secret before a CA.\<close>

definition wanted_validation :: "CommonTlsContextType \<Rightarrow> validation_context_type option" where
  "wanted_validation ctx = Option.bind (ctc_ValidationContext ctx) parse_validation"

text \<open>A listener's client-certificate validation reaches Envoy exactly if the stored TLS context
  also has TLS parameters: without them the validation context is dropped, although the
  requirement of a client certificate, which any stored value of the flag turns on, is kept.\<close>

theorem downstream_validation_needs_params:
  "cx_ValidationContextType (dtc_CommonTlsContext (parse_downstream_tls env ctx)) =
     (if ctc_TlsParams ctx = None then None else wanted_validation ctx) \<and>
   (dtc_RequireClientCertificate (parse_downstream_tls env ctx) = Some True \<longleftrightarrow>
     ctc_RequestClientCertificate ctx \<noteq> None)"
  by (auto simp: parse_downstream_tls_def parse_tls_verification_def wanted_validation_def Let_def
      split: option.splits)

text \<open>Reading certificates back.\<close>

definition read_certificate :: "TlsCertificate \<Rightarrow> TlsCertificateConfigType option" where
  "read_certificate c =
     (case (crt_CertificateChain c, crt_PrivateKey c) of
        (Some (InlineString chain), Some (InlineString key)) \<Rightarrow>
          Some \<lparr>tc_CertificateChain = \<lparr>is_InlineString = chain\<rparr>, tc_PrivateKey = \<lparr>is_InlineString = key\<rparr>,
            tc_Password = map_option (\<lambda>p. case p of InlineString t \<Rightarrow> \<lparr>is_InlineString = t\<rparr>) (crt_Password c)\<rparr>
      | _ \<Rightarrow> None)"

lemma read_parse_certificate: "read_certificate (parse_tls_certificate c) = Some c"
  by (cases c) (auto simp: read_certificate_def parse_tls_certificate_def inline_source_def Let_def
      split: option.splits)

text \<open>The certificates of a listener, with their chains, keys and passwords, and the names of
  its secrets survive the translation in their order, whatever else the context holds.\<close>

theorem downstream_certificates_kept:
  "map read_certificate (cx_TlsCertificates (dtc_CommonTlsContext (parse_downstream_tls env ctx)))
     = map Some (ctc_TlsCertificates ctx) \<and>
   map ssc_Name (cx_TlsCertificateSdsSecretConfigs (dtc_CommonTlsContext (parse_downstream_tls env ctx)))
     = map sds_Name (ctc_SdsConfig ctx)"
  by (auto simp: parse_downstream_tls_def parse_tls_verification_def read_parse_certificate parse_sds_def
      Let_def split: option.splits)

end
