(* ===== verification/LoaderRoutes.thy ===== *)
theory LoaderRoutes
  imports LoaderCluster
begin

text \<open>
  Virtual hosts and routes in \<open>parseListener\<close> of \<open>loader/mongoloader.go\<close>: rate limits, route
  matches, route actions, redirects.  The loops append to the message they build and then
  fill in its last element, which is the element built here.
\<close>

section \<open>Rate limits\<close>

text \<open>An action yields an entry for each of its two kinds that is present.\<close>

definition parse_rl_action :: "RateLimitActionConfigType \<Rightarrow> rl_action list" where
  "parse_rl_action a =
     (case rla_RequestHeaders a of
        None \<Rightarrow> []
      | Some h \<Rightarrow> [RL_RequestHeaders (rlh_HeaderName h) (rlh_DescriptorKey h) (rlh_SkipIfAbsent h)]) @
     (case rla_GenericKey a of
        None \<Rightarrow> []
      | Some g \<Rightarrow> [RL_GenericKey (rlg_DescriptorValue g) (rlg_DescriptorKey g)])"

definition parse_rate_limit :: "RateLimitConfigType \<Rightarrow> pb_RateLimit" where
  "parse_rate_limit rl = \<lparr>prl_Actions = concat (map parse_rl_action (rlc_Actions rl))\<rparr>"

text \<open>
  The loop over the rate limits of a virtual host, and the one over those of a route: each
  round makes the list anew, \<open>make([]*route.RateLimit, 0)\<close>, before it appends to it.
\<close>

fun set_rate_limits :: "pb_RateLimit list \<Rightarrow> RateLimitConfigType list \<Rightarrow> pb_RateLimit list" where
  "set_rate_limits limits [] = limits"
| "set_rate_limits limits (rl # rls) =
     (let limits = [] in set_rate_limits (limits @ [parse_rate_limit rl]) rls)"

section \<open>Route matches\<close>

definition re2_matcher :: "string \<Rightarrow> RegexMatcher" where
  "re2_matcher regex = \<lparr>rm_Regex = regex, rm_MaxProgramSize = Some 32\<rparr>"

definition regex_rewrite :: "RegexRewriteConfigType \<Rightarrow> RegexMatchAndSubstitute" where
  "regex_rewrite r =
     \<lparr>rs_Pattern = re2_matcher (rx_Regex (rr_Pattern r)), rs_Substitution = rr_Substitution r\<rparr>"

definition parse_header_matcher :: "HeaderMatcherConfigType \<Rightarrow> HeaderMatcher" where
  "parse_header_matcher hm =
     (let m = \<lparr>mh_Name = hm_Name hm, mh_HeaderMatchSpecifier = None\<rparr>;
          m = (case hm_ExactMatch hm of None \<Rightarrow> m
               | Some v \<Rightarrow> m\<lparr>mh_HeaderMatchSpecifier := Some (ExactMatch v)\<rparr>)
      in case hm_SafeRegexMatch hm of None \<Rightarrow> m
         | Some r \<Rightarrow> m\<lparr>mh_HeaderMatchSpecifier := Some (SafeRegexMatch (re2_matcher (rx_Regex r)))\<rparr>)"

text \<open>
  Each of the three path specifiers replaces the match; the headers are stored into it and
  panic if no path specifier has made one.
\<close>

definition path_match :: "MatchConfigType \<Rightarrow> RouteMatch option" where
  "path_match mc =
     (let rm = None;
          rm = (case mc_Prefix mc of None \<Rightarrow> rm
                | Some p \<Rightarrow> Some \<lparr>rmt_PathSpecifier = RouteMatch_Prefix p, rmt_Headers = []\<rparr>);
          rm = (case mc_Path mc of None \<Rightarrow> rm
                | Some p \<Rightarrow> Some \<lparr>rmt_PathSpecifier = RouteMatch_Path p, rmt_Headers = []\<rparr>)
      in case mc_Regex mc of None \<Rightarrow> rm
         | Some r \<Rightarrow> Some \<lparr>rmt_PathSpecifier = RouteMatch_SafeRegex (re2_matcher (rx_Regex r)), rmt_Headers = []\<rparr>)"

definition parse_match :: "MatchConfigType \<Rightarrow> RouteMatch option go" where
  "parse_match mc =
     (case mc_Headers mc of
        None \<Rightarrow> Inr (path_match mc)
      | Some hs \<Rightarrow>
          bind_go (deref (path_match mc)) (\<lambda>rm.
          Inr (Some (rm\<lparr>rmt_Headers := map parse_header_matcher hs\<rparr>))))"

section \<open>Route actions\<close>

definition parse_hash_header :: "HashPolicyHeaderConfigType \<Rightarrow> hash_specifier" where
  "parse_hash_header h =
     (case hph_RegexRewrite h of
        Some r \<Rightarrow> Hash_Header (hph_HeaderName h) (Some (regex_rewrite r))
      | None \<Rightarrow> Hash_Header (hph_HeaderName h) None)"

text \<open>Of several kinds of hash policy in one entry the last one wins.\<close>

definition parse_hash_policy :: "'any loader_env \<Rightarrow> HashPolicyConfigType \<Rightarrow> HashPolicy" where
  "parse_hash_policy env hp =
     (let hash = \<lparr>hsp_Terminal = hp_Terminal hp, hsp_PolicySpecifier = None\<rparr>;
          hash = (case hp_Cookie hp of None \<Rightarrow> hash
                  | Some c \<Rightarrow> (case parse_duration env (hpc_Ttl c) of None \<Rightarrow> hash
                     | Some d \<Rightarrow> hash\<lparr>hsp_PolicySpecifier := Some (Hash_Cookie (hpc_Name c) (DurationProto d))\<rparr>));
          hash = (case hp_ConnectionProperties hp of None \<Rightarrow> hash
                  | Some cp \<Rightarrow> hash\<lparr>hsp_PolicySpecifier := Some (Hash_ConnectionProperties (hpp_SourceIp cp))\<rparr>);
          hash = (case hp_QueryParameter hp of None \<Rightarrow> hash
                  | Some q \<Rightarrow> hash\<lparr>hsp_PolicySpecifier := Some (Hash_QueryParameter (hpq_Name q))\<rparr>)
      in case hp_Header hp of None \<Rightarrow> hash
         | Some h \<Rightarrow> hash\<lparr>hsp_PolicySpecifier := Some (parse_hash_header h)\<rparr>)"

definition parse_route_action :: "'any loader_env \<Rightarrow> RouteActionConfigType \<Rightarrow> RouteAction" where
  "parse_route_action env r =
     \<lparr>act_Cluster = ra_Cluster r,
      act_Timeout = (case ra_Timeout r of None \<Rightarrow> None | Some t \<Rightarrow> optional_duration env t),
      act_RateLimits = set_rate_limits [] (ra_RateLimits r),
      act_PrefixRewrite = (case ra_PrefixRewrite r of None \<Rightarrow> [] | Some p \<Rightarrow> p),
      act_HostRewriteLiteral = ra_HostRewrite r,
      act_RegexRewrite = map_option regex_rewrite (ra_RegexRewrite r),
      act_HashPolicy =
        (case ra_HashPolicy r of None \<Rightarrow> [] | Some hps \<Rightarrow> map (parse_hash_policy env) hps)\<rparr>"

definition parse_redirect :: "HttpRedirectConfigType \<Rightarrow> RedirectAction" where
  "parse_redirect rd =
     (let redir = \<lparr>rda_HttpsRedirect = False, rda_HostRedirect = [], rda_PathRewriteSpecifier = None\<rparr>;
          redir = (if rd_HttpsRedirect rd \<noteq> None then redir\<lparr>rda_HttpsRedirect := True\<rparr> else redir);
          redir = (case rd_HostRedirect rd of None \<Rightarrow> redir
                   | Some h \<Rightarrow> redir\<lparr>rda_HostRedirect := h\<rparr>);
          redir = (case rd_PathRedirect rd of None \<Rightarrow> redir
                   | Some p \<Rightarrow> redir\<lparr>rda_PathRewriteSpecifier := Some (PathRedirect p)\<rparr>)
      in case rd_PrefixRewrite rd of None \<Rightarrow> redir
         | Some p \<Rightarrow> redir\<lparr>rda_PathRewriteSpecifier := Some (PrefixRewrite p)\<rparr>)"

section \<open>Routes and virtual hosts\<close>

text \<open>A redirect replaces the route action.\<close>

definition parse_route :: "'any loader_env \<Rightarrow> RouteConfigType \<Rightarrow> Route go" where
  "parse_route env r =
     bind_go (case rt_Match r of None \<Rightarrow> Inr None | Some mc \<Rightarrow> parse_match mc) (\<lambda>rm.
     let action = (case rt_Route r of None \<Rightarrow> None
                   | Some ra \<Rightarrow> Some (Route_Route (parse_route_action env ra)));
         action = (case rt_Redirect r of None \<Rightarrow> action
                   | Some rd \<Rightarrow> Some (Route_Redirect (parse_redirect rd)))
     in Inr \<lparr>rte_Name = rt_Name r, rte_Match = rm, rte_Action = action\<rparr>)"

definition parse_virtual_host :: "'any loader_env \<Rightarrow> VirtualHostConfigType \<Rightarrow> VirtualHost go" where
  "parse_virtual_host env vh =
     bind_go (traverse (parse_route env) (vh_Routes vh)) (\<lambda>routes.
     Inr \<lparr>vhs_Name = vh_Name vh, vhs_Domains = vh_Domains vh,
          vhs_RateLimits = set_rate_limits [] (vh_RateLimits vh), vhs_Routes = routes\<rparr>)"

definition parse_virtual_hosts ::
    "'any loader_env \<Rightarrow> VirtualHostConfigType list \<Rightarrow> VirtualHost list go" where
  "parse_virtual_hosts env vhs = traverse (parse_virtual_host env) vhs"

section \<open>Properties\<close>

lemma set_rate_limits_eq:
  "set_rate_limits limits rls = (if rls = [] then limits else [parse_rate_limit (last rls)])"
  by (induction limits rls rule: set_rate_limits.induct) auto

lemma path_match_None_iff [simp]:
  "path_match mc = None \<longleftrightarrow> mc_Prefix mc = None \<and> mc_Path mc = None \<and> mc_Regex mc = None"
  by (auto simp: path_match_def Let_def split: option.splits)

text \<open>A route is well formed if its header matchers come with a path.\<close>

definition match_ok :: "RouteConfigType \<Rightarrow> bool" where
  "match_ok r \<longleftrightarrow>
     (case rt_Match r of
        None \<Rightarrow> True
      | Some mc \<Rightarrow> mc_Headers mc = None \<or> mc_Prefix mc \<noteq> None \<or> mc_Path mc \<noteq> None \<or> mc_Regex mc \<noteq> None)"

lemma parse_match_ok:
  "parse_match mc = Inl p \<longleftrightarrow> mc_Headers mc \<noteq> None \<and> path_match mc = None \<and> p = NilDereference"
  by (auto simp: parse_match_def go_simps split: option.splits)

lemma parse_route_Inl_iff: "parse_route env r = Inl p \<longleftrightarrow> \<not> match_ok r \<and> p = NilDereference"
  by (auto simp: parse_route_def match_ok_def parse_match_ok go_simps Let_def split: option.splits)

lemma traverse_panics_iff:
  assumes "\<And>x p. f x = Inl p \<longleftrightarrow> \<not> ok x \<and> p = NilDereference"
  shows "traverse f xs = Inl p \<longleftrightarrow> \<not> list_all ok xs \<and> p = NilDereference"
proof (induction xs)
  case Nil
  show ?case by simp
next
  case (Cons x xs)
  then show ?case
    using assms [of x] by (cases "f x") (auto simp: go_simps)
qed

lemma parse_virtual_host_Inl_iff:
  "parse_virtual_host env vh = Inl p \<longleftrightarrow> \<not> list_all match_ok (vh_Routes vh) \<and> p = NilDereference"
  using traverse_panics_iff [of "parse_route env" match_ok, OF parse_route_Inl_iff]
  by (auto simp: parse_virtual_host_def go_simps)

lemma parse_virtual_hosts_Inl_iff:
  "parse_virtual_hosts env vhs = Inl p \<longleftrightarrow>
     (\<exists>vh \<in> set vhs. \<exists>r \<in> set (vh_Routes vh). \<not> match_ok r) \<and> p = NilDereference"
  using traverse_panics_iff [of "parse_virtual_host env" "\<lambda>vh. list_all match_ok (vh_Routes vh)",
      OF parse_virtual_host_Inl_iff, of vhs p]
  by (auto simp: parse_virtual_hosts_def list_all_iff)

text \<open>Translating the virtual hosts of a listener panics exactly if some route matches on headers
  without a prefix, path or regular expression; otherwise every virtual host and every
  route is translated, in the stored order and under its name.\<close>

theorem parse_virtual_hosts_result:
  "(case parse_virtual_hosts env vhs of
      Inl p \<Rightarrow> p = NilDereference \<and> (\<exists>vh \<in> set vhs. \<exists>r \<in> set (vh_Routes vh). \<not> match_ok r)
    | Inr res \<Rightarrow> (\<forall>vh \<in> set vhs. \<forall>r \<in> set (vh_Routes vh). match_ok r) \<and>
        map (\<lambda>v. (vhs_Name v, vhs_Domains v, map rte_Name (vhs_Routes v))) res =
        map (\<lambda>v. (vh_Name v, vh_Domains v, map rt_Name (vh_Routes v))) vhs)"
proof (cases "parse_virtual_hosts env vhs")
  case (Inl p)
  then show ?thesis using parse_virtual_hosts_Inl_iff [of env vhs p] by simp
next
  case (Inr res)
  have names: "map rte_Name rs' = map rt_Name rs" if "traverse (parse_route env) rs = Inr rs'" for rs rs'
    using that by (induction rs arbitrary: rs') (auto simp: parse_route_def go_simps Let_def)
  from Inr have "\<forall>vh \<in> set vhs. \<forall>r \<in> set (vh_Routes vh). match_ok r"
    using parse_virtual_hosts_Inl_iff [of env vhs NilDereference] by auto
  moreover from Inr have "map (\<lambda>v. (vhs_Name v, vhs_Domains v, map rte_Name (vhs_Routes v))) res =
      map (\<lambda>v. (vh_Name v, vh_Domains v, map rt_Name (vh_Routes v))) vhs"
    unfolding parse_virtual_hosts_def
    by (induction vhs arbitrary: res) (auto simp: parse_virtual_host_def go_simps dest: names)
  ultimately show ?thesis using Inr by simp
qed

definition headers_only :: RouteConfigType where
  "headers_only = \<lparr>rt_Name = ''r'', rt_Match = Some \<lparr>mc_Prefix = None, mc_Path = None, mc_Regex = None,
     mc_Headers = Some [\<lparr>hm_Name = ''x'', hm_ExactMatch = Some ''1'', hm_SafeRegexMatch = None\<rparr>]\<rparr>,
     rt_Route = None, rt_Redirect = None\<rparr>"

definition one_route :: "RouteConfigType \<Rightarrow> VirtualHostConfigType" where
  "one_route r = \<lparr>vh_Name = ''v'', vh_Domains = [''*''], vh_Routes = [r], vh_RateLimits = []\<rparr>"

theorem parse_virtual_hosts_result_witness:
  "parse_virtual_hosts sample_env [one_route headers_only] = Inl NilDereference \<and>
   (\<exists>res. parse_virtual_hosts sample_env [one_route (headers_only\<lparr>rt_Match := None\<rparr>)] = Inr res \<and>
     map (\<lambda>v. map rte_Name (vhs_Routes v)) res = [[''r'']])"
proof -
  have bad: "\<not> match_ok headers_only" and good: "match_ok (headers_only\<lparr>rt_Match := None\<rparr>)"
    by (simp_all add: match_ok_def headers_only_def)
  have "parse_virtual_hosts sample_env [one_route headers_only] = Inl NilDereference"
    using parse_virtual_hosts_result [where env = sample_env and vhs = "[one_route headers_only]"] bad
    by (auto simp: one_route_def split: sum.splits)
  moreover have "\<exists>res. parse_virtual_hosts sample_env [one_route (headers_only\<lparr>rt_Match := None\<rparr>)] = Inr res \<and>
     map (\<lambda>v. map rte_Name (vhs_Routes v)) res = [[''r'']]"
    using parse_virtual_hosts_result [where env = sample_env and vhs = "[one_route (headers_only\<lparr>rt_Match := None\<rparr>)]"] good
    by (auto simp: one_route_def headers_only_def split: sum.splits)
  ultimately show ?thesis ..
qed

text \<open>Of the rate limits stored for a virtual host or for a route only the last one reaches Envoy:
  the loop makes the list anew in every round.\<close>

theorem only_last_rate_limit:
  assumes "parse_virtual_host env vh = Inr v"
  shows "vhs_RateLimits v = (if vh_RateLimits vh = [] then [] else [parse_rate_limit (last (vh_RateLimits vh))]) \<and>
    act_RateLimits (parse_route_action env ra) =
      (if ra_RateLimits ra = [] then [] else [parse_rate_limit (last (ra_RateLimits ra))])"
  using assms by (auto simp: parse_virtual_host_def parse_route_action_def set_rate_limits_eq go_simps)

definition two_limits :: VirtualHostConfigType where
  "two_limits = \<lparr>vh_Name = ''v'', vh_Domains = [''*''], vh_Routes = [],
     vh_RateLimits = [
       \<lparr>rlc_Actions = [\<lparr>rla_RequestHeaders = None,
          rla_GenericKey = Some \<lparr>rlg_DescriptorValue = ''all'', rlg_DescriptorKey = ''k''\<rparr>\<rparr>]\<rparr>,
       \<lparr>rlc_Actions = []\<rparr>]\<rparr>"

theorem only_last_rate_limit_witness:
  "\<exists>v. parse_virtual_host sample_env two_limits = Inr v \<and> vhs_RateLimits v = [\<lparr>prl_Actions = []\<rparr>]"
proof -
  obtain v where v: "parse_virtual_host sample_env two_limits = Inr v"
    by (simp add: parse_virtual_host_def two_limits_def)
  from only_last_rate_limit [OF v] v show ?thesis
    by (simp add: two_limits_def parse_rate_limit_def)
qed

text \<open>The action of a translated route: a redirect if one is stored, whatever route it also has.
  A redirect goes to https if the flag is stored at all, even as false, and its path is the
  stored prefix rewrite before the stored path.\<close>

theorem parse_route_action_choice:
  assumes "parse_route env r = Inr rte"
  shows "rte_Action rte =
    (case rt_Redirect r of
       Some rd \<Rightarrow> Some (Route_Redirect
         \<lparr>rda_HttpsRedirect = (rd_HttpsRedirect rd \<noteq> None),
          rda_HostRedirect = (case rd_HostRedirect rd of None \<Rightarrow> [] | Some h \<Rightarrow> h),
          rda_PathRewriteSpecifier =
            (case rd_PrefixRewrite rd of
               Some p \<Rightarrow> Some (PrefixRewrite p)
             | None \<Rightarrow> map_option PathRedirect (rd_PathRedirect rd))\<rparr>)
     | None \<Rightarrow> map_option (\<lambda>ra. Route_Route (parse_route_action env ra)) (rt_Route r))"
  using assms
  by (auto simp: parse_route_def parse_redirect_def go_simps Let_def split: option.splits)

theorem parse_route_action_choice_witness:
  "\<exists>rte. parse_route sample_env \<lparr>rt_Name = ''r'', rt_Match = None, rt_Route = None,
       rt_Redirect = Some \<lparr>rd_HttpsRedirect = Some False, rd_HostRedirect = None,
         rd_PathRedirect = None, rd_PrefixRewrite = None\<rparr>\<rparr> = Inr rte \<and>
     rte_Action rte = Some (Route_Redirect
       \<lparr>rda_HttpsRedirect = True, rda_HostRedirect = [], rda_PathRewriteSpecifier = None\<rparr>)"
proof -
  let ?r = "\<lparr>rt_Name = ''r'', rt_Match = None, rt_Route = None,
       rt_Redirect = Some \<lparr>rd_HttpsRedirect = Some False, rd_HostRedirect = None,
         rd_PathRedirect = None, rd_PrefixRewrite = None\<rparr>\<rparr>"
  obtain rte where rte: "parse_route sample_env ?r = Inr rte"
    by (simp add: parse_route_def)
  from parse_route_action_choice [OF rte] rte show ?thesis by simp
qed

end
