(* ===== verification/LoaderListener.thy ===== *)
theory LoaderListener
  imports LoaderTls LoaderRoutes GoStrings
begin

text \<open>
  \<open>parseListener\<close> and \<open>LoadNode\<close> of \<open>loader/mongoloader.go\<close>: network filters, HTTP filters,
  filter chains, and the resources of a node.  A listener that cannot be translated panics;
  \<open>listener_ok\<close> says which those are.
\<close>

section \<open>Local rate limit\<close>

text \<open>On a fill interval that does not parse the filter pointer stays nil and is appended.\<close>

definition parse_local_ratelimit ::
    "'any loader_env \<Rightarrow> FilterTypedConfigType \<Rightarrow> 'any Filter option go" where
  "parse_local_ratelimit env tc =
     bind_go (deref (ft_TokenBucket tc)) (\<lambda>tb.
     case parse_duration env (tb_FillInterval tb) of
       None \<Rightarrow> Inr None
     | Some d \<Rightarrow> Inr (Some
         \<lparr>flt_Name = ''envoy.filters.network.local_ratelimit'',
          flt_TypedConfig = marshal env (M_LocalRateLimit
            \<lparr>lrl_StatPrefix = ft_StatPrefix tc, lrl_MaxTokens = to_u32 (tb_MaxTokens tb),
             lrl_TokensPerFill = Some (to_u32 (tb_TokensPerFill tb)), lrl_FillInterval = DurationProto d\<rparr>)\<rparr>))"

section \<open>Access logs\<close>

definition grpc_log :: "string \<Rightarrow> CommonGrpcAccessLogConfig" where
  "grpc_log name =
     \<lparr>gal_TransportApiVersion = API_V3, gal_LogName = name, gal_GrpcService = EnvoyGrpc ''log_cluster''\<rparr>"

definition remote_access_log :: "'any loader_env \<Rightarrow> 'any message \<Rightarrow> 'any AccessLog" where
  "remote_access_log env m = \<lparr>acl_Name = ''RemoteAccessLog'', acl_TypedConfig = marshal env m\<rparr>"

text \<open>\<open>AccessLog[0]\<close>, then a field of what it points to.\<close>

definition first_access_log :: "AccessLogConfigType option list \<Rightarrow> AccessLogConfigType go" where
  "first_access_log als = bind_go (index_go als 0) deref"

definition parse_tcp_access_log ::
    "'any loader_env \<Rightarrow> AccessLogConfigType option list option \<Rightarrow> 'any AccessLog list go" where
  "parse_tcp_access_log env als =
     (case als of
        None \<Rightarrow> Inr []
      | Some als \<Rightarrow> bind_go (first_access_log als) (\<lambda>al.
          Inr [remote_access_log env (M_TcpGrpcAccessLogConfig (grpc_log (al_Name al)))]))"

definition parse_http_access_log ::
    "'any loader_env \<Rightarrow> string \<Rightarrow> AccessLogConfigType option list option \<Rightarrow> 'any AccessLog list go" where
  "parse_http_access_log env node als =
     (case als of
        None \<Rightarrow> Inr []
      | Some als \<Rightarrow> bind_go (first_access_log als) (\<lambda>al.
          Inr [remote_access_log env (M_HttpGrpcAccessLogConfig
            \<lparr>hal_CommonConfig = grpc_log node,
             hal_AdditionalResponseHeadersToLog = alt_AdditionalResponseHeadersToLog (al_TypedConfig al),
             hal_AdditionalRequestHeadersToLog = alt_AdditionalRequestHeadersToLog (al_TypedConfig al)\<rparr>)]))"

section \<open>TCP proxy\<close>

definition parse_tcp_proxy :: "'any loader_env \<Rightarrow> FilterTypedConfigType \<Rightarrow> 'any Filter go" where
  "parse_tcp_proxy env tc =
     bind_go (deref (ft_Cluster tc)) (\<lambda>cluster.
     bind_go (parse_tcp_access_log env (ft_AccessLog tc)) (\<lambda>al.
     let tcpp = \<lparr>tcp_StatPrefix = ft_StatPrefix tc, tcp_Cluster = cluster,
           tcp_HashSourceIp = (if ft_HashPolicy tc \<noteq> None then [()] else []),
           tcp_IdleTimeout = (case ft_IdleTimeout tc of None \<Rightarrow> None | Some t \<Rightarrow> optional_duration env t),
           tcp_AccessLog = al\<rparr>
     in Inr \<lparr>flt_Name = wk_TCPProxy env, flt_TypedConfig = marshal env (M_TcpProxy tcpp)\<rparr>))"

section \<open>HTTP connection manager\<close>

definition http_filter :: "'any loader_env \<Rightarrow> string \<Rightarrow> 'any message \<Rightarrow> 'any HttpFilter" where
  "http_filter env name m = \<lparr>htf_Name = name, htf_TypedConfig = marshal env m\<rparr>"

definition parse_ext_authz :: "'any loader_env \<Rightarrow> HttpFiltersConfigType \<Rightarrow> 'any HttpFilter list" where
  "parse_ext_authz env httpf =
     (if hf_Name httpf = wk_HTTPExternalAuthorization env then
        (let fma = (case hft_FailureModeAllow (hf_TypedConfig httpf) of None \<Rightarrow> True | Some b \<Rightarrow> b)
         in [http_filter env (wk_HTTPExternalAuthorization env) (M_ExtAuthz
               \<lparr>exa_GrpcService = EnvoyGrpc ''authz_cluster'', exa_TransportApiVersion = API_V3,
                exa_FailureModeAllow = fma, exa_ClearRouteCache = True, exa_IncludePeerCertificate = False\<rparr>)])
      else [])"

definition parse_http_ratelimit :: "'any loader_env \<Rightarrow> HttpFiltersConfigType \<Rightarrow> 'any HttpFilter list" where
  "parse_http_ratelimit env httpf =
     (if hf_Name httpf = wk_HTTPRateLimit env then
        (case hft_Domain (hf_TypedConfig httpf) of
           None \<Rightarrow> []
         | Some domain \<Rightarrow>
             (let fmd = (case hft_FailureModeDeny (hf_TypedConfig httpf) of None \<Rightarrow> False | Some b \<Rightarrow> b)
              in [http_filter env (wk_HTTPRateLimit env) (M_RateLimit
                    \<lparr>rlf_Domain = domain, rlf_FailureModeDeny = fmd, rlf_TransportApiVersion = API_V3,
                     rlf_GrpcService = EnvoyGrpc ''ratelimit_cluster''\<rparr>)]))
      else [])"

definition parse_vh_ratelimit :: "'any loader_env \<Rightarrow> HttpFiltersConfigType \<Rightarrow> 'any HttpFilter list" where
  "parse_vh_ratelimit env httpf =
     (if hf_Name httpf = wk_HTTPRateLimit env then
        (case hft_VhRateLimits (hf_TypedConfig httpf) of
           None \<Rightarrow> []
         | Some name \<Rightarrow>
             (case VhRateLimitsOptions_value env (to_upper name) of
                None \<Rightarrow> []
              | Some vhRLO \<Rightarrow> [http_filter env (wk_RateLimit env) (M_RateLimitPerRoute vhRLO)]))
      else [])"

text \<open>The loop over the HTTP filters, and the router filter after it.\<close>

definition parse_http_filters :: "'any loader_env \<Rightarrow> HttpFiltersConfigType list \<Rightarrow> 'any HttpFilter list" where
  "parse_http_filters env fs =
     concat (map (\<lambda>f. parse_ext_authz env f @ parse_http_ratelimit env f @ parse_vh_ratelimit env f) fs)
       @ [http_filter env ''envoy.filters.http.router'' M_Router]"

definition accept_http_10 :: "HttpProtocolOptionsConfigType option \<Rightarrow> bool" where
  "accept_http_10 o' =
     (case o' of None \<Rightarrow> True
      | Some h \<Rightarrow> (case hpo_AcceptHttp_10 h of None \<Rightarrow> True | Some b \<Rightarrow> b))"

definition parse_http_manager :: "'any loader_env \<Rightarrow> string \<Rightarrow> FilterTypedConfigType \<Rightarrow> 'any Filter go" where
  "parse_http_manager env node tc =
     bind_go (deref (ft_RouteConfig tc)) (\<lambda>rc.
     bind_go (parse_http_access_log env node (ft_AccessLog tc)) (\<lambda>al.
     bind_go (parse_virtual_hosts env (rcc_VirtualHosts rc)) (\<lambda>vhs.
     let httpp = \<lparr>hcm_CodecType = CODEC_AUTO, hcm_StatPrefix = ft_StatPrefix tc,
           hcm_RouteConfig = \<lparr>rcf_Name = rcc_Name rc, rcf_VirtualHosts = vhs\<rparr>,
           hcm_HttpProtocolOptions = \<lparr>h1_AcceptHttp_10 = accept_http_10 (ft_HttpProtocolOptions tc)\<rparr>,
           hcm_UpgradeConfigs = map uc_UpgradeType (ft_UpgradeConfigs tc),
           hcm_HttpFilters = parse_http_filters env (ft_HttpFilters tc),
           hcm_CommonHttpProtocolOptions =
             map_option (parse_common_http env) (ft_CommonHttpProtocolOptions tc),
           hcm_MaxRequestHeadersKb = map_option to_u32 (ft_MaxRequestHeadersKb tc),
           hcm_UseRemoteAddress = ft_UseRemoteAddress tc,
           hcm_SkipXffAppend = (case ft_SkipXffAppend tc of None \<Rightarrow> False | Some b \<Rightarrow> b),
           hcm_AccessLog = al\<rparr>
     in Inr \<lparr>flt_Name = wk_HTTPConnectionManager env,
             flt_TypedConfig = marshal env (M_HttpConnectionManager httpp)\<rparr>)))"

section \<open>Filter chains\<close>

text \<open>The three name tests of the loop over the filters; a filter of another name adds nothing.\<close>

definition parse_filter ::
    "'any loader_env \<Rightarrow> string \<Rightarrow> FilterConfigType \<Rightarrow> 'any Filter option list go" where
  "parse_filter env node f =
     (if fl_Name f = ''envoy.filters.network.local_ratelimit''
      then bind_go (parse_local_ratelimit env (fl_TypedConfig f)) (\<lambda>cf. Inr [cf])
      else if fl_Name f = ''envoy.filters.network.tcp_proxy''
      then bind_go (parse_tcp_proxy env (fl_TypedConfig f)) (\<lambda>cf. Inr [Some cf])
      else if fl_Name f = ''envoy.filters.network.http_connection_manager''
      then bind_go (parse_http_manager env node (fl_TypedConfig f)) (\<lambda>cf. Inr [Some cf])
      else Inr [])"

definition parse_prefix :: "PrefixConfigType \<Rightarrow> CidrRange" where
  "parse_prefix p =
     \<lparr>cr_AddressPrefix = px_AddressPrefix p, cr_PrefixLen = Some (to_u32 (px_PrefixLen p))\<rparr>"

definition parse_chain_match :: "FilterChainMatchConfigType \<Rightarrow> FilterChainMatch" where
  "parse_chain_match m =
     \<lparr>fm_ServerNames = fcm_ServerNames m,
      fm_SourcePrefixRanges = map parse_prefix (fcm_SourcePrefixRanges m),
      fm_PrefixRanges = map parse_prefix (fcm_PrefixRanges m)\<rparr>"

definition parse_filter_chain ::
    "'any loader_env \<Rightarrow> string \<Rightarrow> FilterChainsConfigType \<Rightarrow> 'any FilterChain go" where
  "parse_filter_chain env node fc =
     bind_go (traverse (parse_filter env node) (fc_Filters fc)) (\<lambda>fss.
     Inr \<lparr>ch_FilterChainMatch = map_option parse_chain_match (fc_FilterChainMatch fc),
          ch_Filters = concat fss,
          ch_TransportSocket = map_option (parse_transport_socket env) (fc_TransportSocket fc)\<rparr>)"

text \<open>The first chain with a match installs the TLS inspector.\<close>

definition add_inspector ::
    "'any loader_env \<Rightarrow> FilterChainsConfigType \<Rightarrow> 'any ListenerFilter list \<Rightarrow> 'any ListenerFilter list" where
  "add_inspector env fc lfs =
     (if fc_FilterChainMatch fc \<noteq> None \<and> length lfs = 0
      then lfs @ [\<lparr>lsf_Name = wk_TlsInspector env, lsf_TypedConfig = marshal env M_TlsInspector\<rparr>]
      else lfs)"

definition add_chain ::
    "'any loader_env \<Rightarrow> string \<Rightarrow> FilterChainsConfigType \<Rightarrow> 'any Listener \<Rightarrow> 'any Listener go" where
  "add_chain env node fc res =
     (let res = res\<lparr>lst_ListenerFilters := add_inspector env fc (lst_ListenerFilters res)\<rparr>
      in bind_go (parse_filter_chain env node fc) (\<lambda>cfc.
         Inr (res\<lparr>lst_FilterChains := lst_FilterChains res @ [cfc]\<rparr>)))"

definition parseListener :: "'any loader_env \<Rightarrow> ListenerConfigType \<Rightarrow> 'any Listener go" where
  "parseListener env l =
     foldM (add_chain env (li_NodeID l)) (li_FilterChains l)
       \<lparr>lst_Name = li_Name l, lst_Address = tcp_address (addr_SocketAddress (li_Address l)),
        lst_ListenerFilters = [], lst_FilterChains = [],
        lst_PerConnectionBufferLimitBytes = map_option to_u32 (li_PerConnectionBufferLimitBytes l)\<rparr>"

section \<open>The resources of a node\<close>

text \<open>
  The outcome of a query of one collection for the node: an error, or the documents in their
  order, each decoded or not.
\<close>

type_synonym 'cfg query = "string + 'cfg option list"

definition decoded :: "'cfg query \<Rightarrow> 'cfg list" where
  "decoded q = (case q of Inl err \<Rightarrow> [] | Inr docs \<Rightarrow> decode_all (\<lambda>d. d) docs)"

record 'any node_resources =
  nr_Listeners :: "'any Listener list"
  nr_Clusters :: "'any Cluster list"
  nr_Endpoints :: "ClusterLoadAssignment list"
  nr_Secrets :: "Secret list"

text \<open>The second component is the error, always nil.\<close>

definition LoadNode ::
    "'any loader_env \<Rightarrow> ListenerConfigType query \<Rightarrow> ClusterConfigType query \<Rightarrow> EndpointsConfigType query
       \<Rightarrow> SecretConfigType query \<Rightarrow> ('any node_resources \<times> string option) go" where
  "LoadNode env listeners clusters endpoints secrets =
     bind_go (traverse (parseListener env) (decoded listeners)) (\<lambda>lres.
     let cres = map (parseCluster env) (decoded clusters);
         eres = map parseEndpoint (decoded endpoints)
     in bind_go (traverse parseSecret (decoded secrets)) (\<lambda>sres.
        Inr (\<lparr>nr_Listeners = lres, nr_Clusters = cres, nr_Endpoints = eres, nr_Secrets = sres\<rparr>, None)))"

end
