(* ===== verification/LoaderProps.thy ===== *)
theory LoaderProps
  imports LoaderListener
begin

text \<open>
  Properties of the translation of listeners and of \<open>LoadNode\<close>: when it panics, what it
  keeps, and the order of filters.
\<close>

section \<open>When a listener can be translated\<close>

definition log_ok :: "AccessLogConfigType option list option \<Rightarrow> bool" where
  "log_ok als = (case als of None \<Rightarrow> True | Some [] \<Rightarrow> False | Some (a # _) \<Rightarrow> a \<noteq> None)"

definition routes_ok :: "RouteConfigConfigType \<Rightarrow> bool" where
  "routes_ok rc \<longleftrightarrow> (\<forall>vh \<in> set (rcc_VirtualHosts rc). \<forall>r \<in> set (vh_Routes vh). match_ok r)"

definition filter_ok :: "FilterConfigType \<Rightarrow> bool" where
  "filter_ok f =
     (let tc = fl_TypedConfig f in
      if fl_Name f = ''envoy.filters.network.local_ratelimit'' then ft_TokenBucket tc \<noteq> None
      else if fl_Name f = ''envoy.filters.network.tcp_proxy'' then ft_Cluster tc \<noteq> None \<and> log_ok (ft_AccessLog tc)
      else if fl_Name f = ''envoy.filters.network.http_connection_manager''
      then log_ok (ft_AccessLog tc) \<and>
        (case ft_RouteConfig tc of None \<Rightarrow> False | Some rc \<Rightarrow> routes_ok rc)
      else True)"

definition listener_ok :: "ListenerConfigType \<Rightarrow> bool" where
  "listener_ok l \<longleftrightarrow> (\<forall>fc \<in> set (li_FilterChains l). \<forall>f \<in> set (fc_Filters fc). filter_ok f)"

lemma first_access_log_returns: "(\<exists>al. first_access_log als = Inr al) \<longleftrightarrow> log_ok (Some als)"
  by (cases als) (auto simp: first_access_log_def log_ok_def go_simps)

lemma access_log_returns:
  "(\<exists>al. parse_tcp_access_log env als = Inr al) \<longleftrightarrow> log_ok als"
  "(\<exists>al. parse_http_access_log env node als = Inr al) \<longleftrightarrow> log_ok als"
  using first_access_log_returns
  by (cases als; simp add: parse_tcp_access_log_def parse_http_access_log_def log_ok_def go_simps)+

lemma virtual_hosts_return:
  "(\<exists>vhs. parse_virtual_hosts env (rcc_VirtualHosts rc) = Inr vhs) \<longleftrightarrow> routes_ok rc"
  using parse_virtual_hosts_Inl_iff [of env "rcc_VirtualHosts rc"]
  by (cases "parse_virtual_hosts env (rcc_VirtualHosts rc)") (auto simp: routes_ok_def)

lemma parse_filter_returns: "(\<exists>fs. parse_filter env node f = Inr fs) \<longleftrightarrow> filter_ok f"
proof -
  let ?tc = "fl_TypedConfig f"
  have "(\<exists>cf. parse_local_ratelimit env ?tc = Inr cf) \<longleftrightarrow> ft_TokenBucket ?tc \<noteq> None"
    by (cases "ft_TokenBucket ?tc") (auto simp: parse_local_ratelimit_def split: option.splits)
  moreover have "(\<exists>cf. parse_tcp_proxy env ?tc = Inr cf) \<longleftrightarrow> ft_Cluster ?tc \<noteq> None \<and> log_ok (ft_AccessLog ?tc)"
    using access_log_returns(1) [of env "ft_AccessLog ?tc"]
    by (auto simp: parse_tcp_proxy_def Let_def go_simps)
  moreover have "(\<exists>cf. parse_http_manager env node ?tc = Inr cf) \<longleftrightarrow> log_ok (ft_AccessLog ?tc) \<and>
      (case ft_RouteConfig ?tc of None \<Rightarrow> False | Some rc \<Rightarrow> routes_ok rc)"
    using access_log_returns(2) [of env node "ft_AccessLog ?tc"] virtual_hosts_return [of env]
    by (auto simp: parse_http_manager_def Let_def go_simps split: option.splits)
  ultimately show ?thesis
    by (auto simp: parse_filter_def filter_ok_def Let_def go_simps)
qed

lemma traverse_returns_iff: "(\<exists>ys. traverse f xs = Inr ys) \<longleftrightarrow> (\<forall>x \<in> set xs. \<exists>y. f x = Inr y)"
  by (induction xs) (auto simp: go_simps)

lemma parse_filter_chain_returns:
  "(\<exists>c. parse_filter_chain env node fc = Inr c) \<longleftrightarrow> (\<forall>f \<in> set (fc_Filters fc). filter_ok f)"
  using traverse_returns_iff [of "parse_filter env node" "fc_Filters fc"]
  by (auto simp: parse_filter_chain_def go_simps parse_filter_returns)

text \<open>The loop over the chains: the chains one by one, the inspector beside them.\<close>

lemma add_chain_cases:
  "parse_filter_chain env node fc = Inl p \<Longrightarrow> add_chain env node fc res = Inl p"
  "parse_filter_chain env node fc = Inr c \<Longrightarrow> add_chain env node fc res =
     Inr (res\<lparr>lst_ListenerFilters := add_inspector env fc (lst_ListenerFilters res),
              lst_FilterChains := lst_FilterChains res @ [c]\<rparr>)"
  by (simp_all add: add_chain_def)

lemma foldM_add_chain:
  "foldM (add_chain env node) fcs res =
     bind_go (traverse (parse_filter_chain env node) fcs) (\<lambda>cs.
     Inr (res\<lparr>lst_ListenerFilters := fold (add_inspector env) fcs (lst_ListenerFilters res),
              lst_FilterChains := lst_FilterChains res @ cs\<rparr>))"
proof (induction fcs arbitrary: res)
  case Nil
  show ?case by simp
next
  case (Cons fc fcs)
  show ?case
    by (cases "parse_filter_chain env node fc") (simp_all add: add_chain_cases Cons.IH bind_go_assoc)
qed

lemma fold_add_inspector_some: "lfs \<noteq> [] \<Longrightarrow> fold (add_inspector env) fcs lfs = lfs"
  by (induction fcs) (simp_all add: add_inspector_def)

lemma add_inspector_step:
  "fc_FilterChainMatch fc = None \<Longrightarrow> add_inspector env fc lfs = lfs"
  "fc_FilterChainMatch fc = Some m \<Longrightarrow> add_inspector env fc [] =
     [\<lparr>lsf_Name = wk_TlsInspector env, lsf_TypedConfig = marshal env M_TlsInspector\<rparr>]"
  by (simp_all add: add_inspector_def)

lemma fold_add_inspector:
  "fold (add_inspector env) fcs [] =
     (if \<forall>fc \<in> set fcs. fc_FilterChainMatch fc = None then []
      else [\<lparr>lsf_Name = wk_TlsInspector env, lsf_TypedConfig = marshal env M_TlsInspector\<rparr>])"
proof (induction fcs)
  case (Cons fc fcs)
  then show ?case
    by (cases "fc_FilterChainMatch fc") (simp_all add: add_inspector_step fold_add_inspector_some)
qed simp

lemma parseListener_eq:
  "parseListener env l =
     bind_go (traverse (parse_filter_chain env (li_NodeID l)) (li_FilterChains l)) (\<lambda>cs.
     Inr \<lparr>lst_Name = li_Name l, lst_Address = tcp_address (addr_SocketAddress (li_Address l)),
       lst_ListenerFilters =
         (if \<forall>fc \<in> set (li_FilterChains l). fc_FilterChainMatch fc = None then []
          else [\<lparr>lsf_Name = wk_TlsInspector env, lsf_TypedConfig = marshal env M_TlsInspector\<rparr>]),
       lst_FilterChains = cs,
       lst_PerConnectionBufferLimitBytes = map_option to_u32 (li_PerConnectionBufferLimitBytes l)\<rparr>)"
  by (simp add: parseListener_def foldM_add_chain fold_add_inspector)

lemma parseListener_returns: "(\<exists>res. parseListener env l = Inr res) \<longleftrightarrow> listener_ok l"
  using traverse_returns_iff [of "parse_filter_chain env (li_NodeID l)" "li_FilterChains l"]
  by (auto simp: parseListener_eq go_simps parse_filter_chain_returns listener_ok_def)

section \<open>What a listener keeps\<close>

text \<open>The filters a stored filter becomes: one for a known name, nil for a bad fill interval.\<close>

definition filter_names :: "'any loader_env \<Rightarrow> FilterConfigType \<Rightarrow> string option list" where
  "filter_names env f =
     (if fl_Name f = ''envoy.filters.network.local_ratelimit'' then
        [if Option.bind (ft_TokenBucket (fl_TypedConfig f)) (\<lambda>tb. parse_duration env (tb_FillInterval tb)) = None
         then None else Some ''envoy.filters.network.local_ratelimit'']
      else if fl_Name f = ''envoy.filters.network.tcp_proxy'' then [Some (wk_TCPProxy env)]
      else if fl_Name f = ''envoy.filters.network.http_connection_manager''
      then [Some (wk_HTTPConnectionManager env)]
      else [])"

lemma parse_filter_names:
  "parse_filter env node f = Inr fs \<Longrightarrow> map (map_option flt_Name) fs = filter_names env f"
  by (auto simp: parse_filter_def filter_names_def parse_local_ratelimit_def parse_tcp_proxy_def
      parse_http_manager_def go_simps Let_def split: if_splits option.splits)

lemma parse_filters_names:
  "traverse (parse_filter env node) fs = Inr fss \<Longrightarrow>
     map (map_option flt_Name) (concat fss) = concat (map (filter_names env) fs)"
  by (induction fs arbitrary: fss) (auto simp: go_simps dest: parse_filter_names)

lemma parse_chains_names:
  "traverse (parse_filter_chain env node) fcs = Inr cs \<Longrightarrow>
     map (\<lambda>c. map (map_option flt_Name) (ch_Filters c)) cs =
     map (\<lambda>fc. concat (map (filter_names env) (fc_Filters fc))) fcs"
  by (induction fcs arbitrary: cs)
    (auto simp: go_simps parse_filter_chain_def dest!: parse_filters_names)

text \<open>The translation of a listener returns exactly if the listener is well formed: every local
  rate limit has a token bucket, every TCP proxy a cluster, every HTTP connection manager a
  route configuration whose header matches come with a path, and an access log list, if
  stored, starts with an entry.  Otherwise it panics.\<close>

theorem parseListener_returns_iff:
  "(\<exists>res. parseListener env l = Inr res) \<longleftrightarrow>
     (\<forall>fc \<in> set (li_FilterChains l). \<forall>f \<in> set (fc_Filters fc). filter_ok f)"
  using parseListener_returns [of env l] by (simp add: listener_ok_def)

text \<open>C8: a translated listener has the stored name, one chain for each stored chain in order, in each
  chain one filter for each stored filter of the three known names in order, where a local rate
  limit whose fill interval does not parse is a nil pointer; filters of other names are
  dropped; and the TLS inspector is there once if some chain has a match, else not.\<close>

theorem parseListener_structure:
  assumes "parseListener env l = Inr res"
  shows "lst_Name res = li_Name l \<and>
    map (\<lambda>c. map (map_option flt_Name) (ch_Filters c)) (lst_FilterChains res) =
      map (\<lambda>fc. concat (map (filter_names env) (fc_Filters fc))) (li_FilterChains l) \<and>
    map lsf_Name (lst_ListenerFilters res) =
      (if \<exists>fc \<in> set (li_FilterChains l). fc_FilterChainMatch fc \<noteq> None then [wk_TlsInspector env] else [])"
proof -
  from assms obtain cs where
    cs: "traverse (parse_filter_chain env (li_NodeID l)) (li_FilterChains l) = Inr cs"
    and res: "lst_Name res = li_Name l" "lst_FilterChains res = cs" "lst_ListenerFilters res =
      (if \<forall>fc \<in> set (li_FilterChains l). fc_FilterChainMatch fc = None then []
       else [\<lparr>lsf_Name = wk_TlsInspector env, lsf_TypedConfig = marshal env M_TlsInspector\<rparr>])"
    by (auto simp: parseListener_eq go_simps)
  have "(\<exists>fc \<in> set (li_FilterChains l). fc_FilterChainMatch fc \<noteq> None) \<longleftrightarrow>
      \<not> (\<forall>fc \<in> set (li_FilterChains l). fc_FilterChainMatch fc = None)" by simp
  with parse_chains_names [OF cs] res show ?thesis by simp
qed

definition tcp_config :: FilterTypedConfigType where
  "tcp_config = \<lparr>ft_StatPrefix = ''t'', ft_RouteConfig = None, ft_AccessLog = None,
     ft_Cluster = Some ''web'',
     ft_TokenBucket = Some \<lparr>tb_MaxTokens = 1, tb_TokensPerFill = 1, tb_FillInterval = ''soon''\<rparr>,
     ft_IdleTimeout = None, ft_UseRemoteAddress = None, ft_SkipXffAppend = None, ft_HttpFilters = [],
     ft_MaxRequestHeadersKb = None, ft_CommonHttpProtocolOptions = None, ft_HttpProtocolOptions = None,
     ft_UpgradeConfigs = [], ft_HashPolicy = None\<rparr>"

definition sample_listener :: ListenerConfigType where
  "sample_listener = \<lparr>li_NodeID = ''n1'', li_Name = ''tcp'',
     li_Address = \<lparr>addr_SocketAddress = \<lparr>sa_Address = ''0.0.0.0'', sa_PortValue = 443\<rparr>\<rparr>,
     li_FilterChains = [\<lparr>fc_FilterChainMatch = None, fc_Filters =
        [\<lparr>fl_Name = ''envoy.filters.network.local_ratelimit'', fl_TypedConfig = tcp_config\<rparr>,
         \<lparr>fl_Name = ''envoy.filters.network.redis_proxy'', fl_TypedConfig = tcp_config\<rparr>,
         \<lparr>fl_Name = ''envoy.filters.network.tcp_proxy'', fl_TypedConfig = tcp_config\<rparr>],
        fc_TransportSocket = None\<rparr>],
     li_PerConnectionBufferLimitBytes = None\<rparr>"

lemma sample_listener_ok: "listener_ok sample_listener"
  by (simp add: listener_ok_def sample_listener_def filter_ok_def tcp_config_def log_ok_def)

theorem parseListener_structure_witness:
  "\<exists>res. parseListener sample_env sample_listener = Inr res \<and>
     map (\<lambda>c. map (map_option flt_Name) (ch_Filters c)) (lst_FilterChains res) =
       [[None, Some ''envoy.filters.network.tcp_proxy'']]"
proof -
  obtain res where res: "parseListener sample_env sample_listener = Inr res"
    using parseListener_returns sample_listener_ok by blast
  from parseListener_structure [OF res] res show ?thesis
    by (simp add: sample_listener_def filter_names_def sample_env_def tcp_config_def)
qed

text \<open>In every HTTP connection manager the router comes last, after the filters stored for it;
  external authorization lets requests through when its server fails unless the configuration
  says otherwise, the rate limit lets them through unless it says otherwise, and a per-route
  rate-limit option becomes a filter of its own under the network filter's name.\<close>

theorem http_filters_result:
  assumes "wk_HTTPExternalAuthorization env \<noteq> wk_HTTPRateLimit env"
  shows "parse_http_filters env fs =
    concat (map (\<lambda>f. let tc = hf_TypedConfig f in
      if hf_Name f = wk_HTTPExternalAuthorization env then
        [http_filter env (hf_Name f) (M_ExtAuthz \<lparr>exa_GrpcService = EnvoyGrpc ''authz_cluster'',
           exa_TransportApiVersion = API_V3, exa_FailureModeAllow = (hft_FailureModeAllow tc \<noteq> Some False),
           exa_ClearRouteCache = True, exa_IncludePeerCertificate = False\<rparr>)]
      else if hf_Name f = wk_HTTPRateLimit env then
        map (\<lambda>d. http_filter env (hf_Name f) (M_RateLimit \<lparr>rlf_Domain = d,
           rlf_FailureModeDeny = (hft_FailureModeDeny tc = Some True),
           rlf_TransportApiVersion = API_V3, rlf_GrpcService = EnvoyGrpc ''ratelimit_cluster''\<rparr>))
          (case hft_Domain tc of None \<Rightarrow> [] | Some d \<Rightarrow> [d]) @
        map (\<lambda>v. http_filter env (wk_RateLimit env) (M_RateLimitPerRoute v))
          (case Option.bind (hft_VhRateLimits tc) (\<lambda>n. VhRateLimitsOptions_value env (to_upper n)) of
             None \<Rightarrow> [] | Some v \<Rightarrow> [v])
      else []) fs) @ [http_filter env ''envoy.filters.http.router'' M_Router]"
proof -
  have "parse_ext_authz env f @ parse_http_ratelimit env f @ parse_vh_ratelimit env f =
     (let tc = hf_TypedConfig f in
      if hf_Name f = wk_HTTPExternalAuthorization env then
        [http_filter env (hf_Name f) (M_ExtAuthz \<lparr>exa_GrpcService = EnvoyGrpc ''authz_cluster'',
           exa_TransportApiVersion = API_V3, exa_FailureModeAllow = (hft_FailureModeAllow tc \<noteq> Some False),
           exa_ClearRouteCache = True, exa_IncludePeerCertificate = False\<rparr>)]
      else if hf_Name f = wk_HTTPRateLimit env then
        map (\<lambda>d. http_filter env (hf_Name f) (M_RateLimit \<lparr>rlf_Domain = d,
           rlf_FailureModeDeny = (hft_FailureModeDeny tc = Some True),
           rlf_TransportApiVersion = API_V3, rlf_GrpcService = EnvoyGrpc ''ratelimit_cluster''\<rparr>))
          (case hft_Domain tc of None \<Rightarrow> [] | Some d \<Rightarrow> [d]) @
        map (\<lambda>v. http_filter env (wk_RateLimit env) (M_RateLimitPerRoute v))
          (case Option.bind (hft_VhRateLimits tc) (\<lambda>n. VhRateLimitsOptions_value env (to_upper n)) of
             None \<Rightarrow> [] | Some v \<Rightarrow> [v])
      else [])" for f
    using assms
    by (auto simp: parse_ext_authz_def parse_http_ratelimit_def parse_vh_ratelimit_def Let_def
        split: option.splits)
  then show ?thesis by (simp add: parse_http_filters_def)
qed

theorem http_filters_result_witness:
  "map htf_Name (parse_http_filters sample_env
     [\<lparr>hf_Name = ''envoy.filters.http.ratelimit'', hf_TypedConfig = \<lparr>hft_Domain = Some ''web'',
        hft_Descriptors = [], hft_FailureModeDeny = None, hft_VhRateLimits = Some ''include'',
        hft_FailureModeAllow = None\<rparr>\<rparr>]) =
   [''envoy.filters.http.ratelimit'', ''envoy.filters.network.ratelimit'', ''envoy.filters.http.router'']"
proof -
  have names: "wk_HTTPExternalAuthorization sample_env \<noteq> wk_HTTPRateLimit sample_env"
    by (simp add: sample_env_def)
  have vals: "wk_HTTPRateLimit sample_env = ''envoy.filters.http.ratelimit''"
      "wk_HTTPExternalAuthorization sample_env = ''envoy.filters.http.ext_authz''"
      "wk_RateLimit sample_env = ''envoy.filters.network.ratelimit''"
      "VhRateLimitsOptions_value sample_env (to_upper ''include'') = Some 1"
    by code_simp+
  show ?thesis
    unfolding http_filters_result [OF names] by (simp add: http_filter_def vals Let_def)
qed

section \<open>The resources of a node\<close>

definition secret_ok :: "SecretConfigType \<Rightarrow> bool" where
  "secret_ok s \<longleftrightarrow> (\<forall>vc. sec_ValidationContext s = Some vc \<longrightarrow> vc_TrustedCa vc \<noteq> None)"

lemma parseSecret_returns: "(\<exists>r. parseSecret s = Inr r) \<longleftrightarrow> secret_ok s"
  by (auto simp: parseSecret_def secret_ok_def Let_def go_simps split: option.splits)

lemma parseSecret_name: "parseSecret s = Inr r \<Longrightarrow> scr_Name r = sec_Name s"
  by (auto simp: parseSecret_def Let_def go_simps split: option.splits)

lemma parseListener_name: "parseListener env l = Inr r \<Longrightarrow> lst_Name r = li_Name l"
  by (auto simp: parseListener_eq go_simps)

lemma traverse_names:
  assumes "traverse f xs = Inr ys" and "\<And>x y. f x = Inr y \<Longrightarrow> g y = h x"
  shows "map g ys = map h xs"
  using assms by (induction xs arbitrary: ys) (auto simp: go_simps)

lemma LoadNode_returns:
  "(\<exists>r. LoadNode env listeners clusters endpoints secrets = Inr r) \<longleftrightarrow>
     (\<forall>l \<in> set (decoded listeners). listener_ok l) \<and> (\<forall>s \<in> set (decoded secrets). secret_ok s)"
  using traverse_returns_iff [of "parseListener env" "decoded listeners"]
    traverse_returns_iff [of parseSecret "decoded secrets"]
  by (auto simp: LoadNode_def go_simps Let_def parseListener_returns parseSecret_returns)

text \<open>Loading a node returns if and only if every listener and every secret of the node that
  decodes can be translated: one bad document takes the whole load, and with it the process,
  down.\<close>

theorem LoadNode_returns_iff:
  "(\<exists>r. LoadNode env listeners clusters endpoints secrets = Inr r) \<longleftrightarrow>
     (\<forall>l \<in> set (decoded listeners). \<forall>fc \<in> set (li_FilterChains l). \<forall>f \<in> set (fc_Filters fc). filter_ok f) \<and>
     (\<forall>s \<in> set (decoded secrets). \<forall>vc. sec_ValidationContext s = Some vc \<longrightarrow> vc_TrustedCa vc \<noteq> None)"
  using LoadNode_returns [of env listeners clusters endpoints secrets]
  by (simp add: listener_ok_def secret_ok_def)

theorem LoadNode_returns_iff_witness:
  "\<exists>r. LoadNode sample_env (Inr [Some sample_listener, None]) (Inl ''timeout'') (Inr []) (Inr []) = Inr r"
  using LoadNode_returns_iff [of sample_env "Inr [Some sample_listener, None]" "Inl ''timeout''" "Inr []" "Inr []"]
    sample_listener_ok
  by (simp add: decoded_def listener_ok_def)

text \<open>A load that returns never reports an error: it yields one resource for each document that
  decodes, in the collections' order and under the stored names, and a collection whose query
  failed yields no resources, as if the node had none.\<close>

theorem LoadNode_result:
  assumes "LoadNode env listeners clusters endpoints secrets = Inr (res, err)"
  shows "err = None \<and>
    map lst_Name (nr_Listeners res) = map li_Name (decoded listeners) \<and>
    map cls_Name (nr_Clusters res) = map cl_Name (decoded clusters) \<and>
    nr_Endpoints res = map parseEndpoint (decoded endpoints) \<and>
    map scr_Name (nr_Secrets res) = map sec_Name (decoded secrets) \<and>
    (\<forall>e. listeners = Inl e \<longrightarrow> nr_Listeners res = []) \<and> (\<forall>e. clusters = Inl e \<longrightarrow> nr_Clusters res = []) \<and>
    (\<forall>e. endpoints = Inl e \<longrightarrow> nr_Endpoints res = []) \<and> (\<forall>e. secrets = Inl e \<longrightarrow> nr_Secrets res = [])"
proof -
  from assms obtain ls ss where ls: "traverse (parseListener env) (decoded listeners) = Inr ls"
    and ss: "traverse parseSecret (decoded secrets) = Inr ss"
    and res: "nr_Listeners res = ls" "nr_Clusters res = map (parseCluster env) (decoded clusters)"
      "nr_Endpoints res = map parseEndpoint (decoded endpoints)" "nr_Secrets res = ss" "err = None"
    by (auto simp: LoadNode_def go_simps Let_def)
  have "map lst_Name ls = map li_Name (decoded listeners)"
    using ls parseListener_name by (rule traverse_names)
  moreover have "map scr_Name ss = map sec_Name (decoded secrets)"
    using ss parseSecret_name by (rule traverse_names)
  moreover have "map cls_Name (map (parseCluster env) (decoded clusters)) = map cl_Name (decoded clusters)"
    by (simp add: parseCluster_def)
  ultimately show ?thesis using res ls ss by (auto simp: decoded_def)
qed

theorem LoadNode_result_witness:
  "\<exists>res. LoadNode sample_env (Inl ''timeout'') (Inr [Some sample_cluster]) (Inr []) (Inr []) = Inr (res, None) \<and>
     nr_Listeners res = [] \<and> map cls_Name (nr_Clusters res) = [''web'']"
proof -
  obtain res err where run:
    "LoadNode sample_env (Inl ''timeout'') (Inr [Some sample_cluster]) (Inr []) (Inr []) = Inr (res, err)"
    by (simp add: LoadNode_def decoded_def)
  from LoadNode_result [OF run] run show ?thesis
    by (simp add: decoded_def sample_cluster_def)
qed

end
