(* ===== verification/ControlPlane.thy ===== *)
theory ControlPlane
  imports Process LoaderProps
begin

text \<open>
  The control plane's main program (\<open>main.go\<close>): load every node at start, then load a node
  again whenever its document in the collection \<open>nodes\<close> is inserted or updated.  What the
  program hands to go-control-plane's snapshot cache is the state of the model, the list of
  \<open>SetSnapshot\<close> calls in their order; the last call for a node is what its Envoys are sent.
\<close>

section \<open>State and environment\<close>

record NodeStaticConfigType =
  nd_Name :: string
  nd_Address :: string
  nd_Version :: string
  nd_Addresses :: "string list"

text \<open>What the four queries of \<open>LoadNode\<close> find for one node.\<close>

record node_docs =
  nd_listeners :: "ListenerConfigType query"
  nd_clusters :: "ClusterConfigType query"
  nd_endpoints :: "EndpointsConfigType query"
  nd_secrets :: "SecretConfigType query"

text \<open>\<open>cache.NewSnapshot\<close> (\<open>None\<close>: an error) and \<open>Snapshot.Consistent\<close> of go-control-plane.\<close>

record ('any, 'snap) cp_env =
  cp_loader :: "'any loader_env"
  NewSnapshot :: "string \<Rightarrow> 'any node_resources \<Rightarrow> 'snap option"
  Consistent :: "'snap \<Rightarrow> bool"

type_synonym 'snap calls = "(string \<times> 'snap) list"

definition load_docs :: "'any loader_env \<Rightarrow> node_docs \<Rightarrow> ('any node_resources \<times> string option) go" where
  "load_docs env d = LoadNode env (nd_listeners d) (nd_clusters d) (nd_endpoints d) (nd_secrets d)"

definition loadNodeConfig ::
    "('any, 'snap) cp_env \<Rightarrow> node_docs \<Rightarrow> string \<Rightarrow> string \<Rightarrow> 'snap calls \<Rightarrow> 'snap calls go" where
  "loadNodeConfig env docs node v calls =
     bind_go (load_docs (cp_loader env) docs) (\<lambda>(configMap, err).
     case err of
       None \<Rightarrow>
         (case NewSnapshot env v configMap of
            None \<Rightarrow> Inr calls
          | Some snap \<Rightarrow> if Consistent env snap then Inr (calls @ [(node, snap)]) else Inr calls)
     | Some e \<Rightarrow> Inr calls)"

text \<open>The loop over the nodes at start; \<open>docs\<close> gives each node's documents.\<close>

definition cp_start ::
    "('any, 'snap) cp_env \<Rightarrow> (string \<Rightarrow> node_docs) \<Rightarrow> NodeStaticConfigType query \<Rightarrow> 'snap calls go" where
  "cp_start env docs found =
     foldM (\<lambda>node. loadNodeConfig env (docs (nd_Name node)) (nd_Name node) (nd_Version node)) (decoded found) []"

section \<open>The watch loop\<close>

text \<open>
  An event of the collection \<open>nodes\<close>: whether it decodes, its operation type and whether its
  document key has the expected types (the code asserts both), what \<open>FindOne\<close> then decodes,
  and the node's documents at that time.
\<close>

record node_event =
  ne_decoded :: bool
  ne_operation :: "string option"
  ne_key_ok :: bool
  ne_node :: "string + NodeStaticConfigType"
  ne_docs :: node_docs

definition cp_watch :: "('any, 'snap) cp_env \<Rightarrow> node_event \<Rightarrow> 'snap calls \<Rightarrow> 'snap calls process" where
  "cp_watch env e calls =
     (if \<not> ne_decoded e then Exited ''decode''
      else case ne_operation e of
        None \<Rightarrow> Crashed (Panicked ''interface conversion'')
      | Some operation \<Rightarrow>
          if operation = ''insert'' \<or> operation = ''update'' then
            (if \<not> ne_key_ok e then Crashed (Panicked ''interface conversion'')
             else case ne_node e of
               Inl err \<Rightarrow> Running calls
             | Inr newNode \<Rightarrow>
                 (case loadNodeConfig env (ne_docs e) (nd_Name newNode) (nd_Version newNode) calls of
                    Inl p \<Rightarrow> Crashed p
                  | Inr calls' \<Rightarrow> Running calls'))
          else Running calls)"

text \<open>The HTTP gateway writes the body first; the first write sends the status line, 200.\<close>

record response_writer =
  wr_status :: "int option"
  wr_body :: string

definition rw_WriteHeader :: "int \<Rightarrow> response_writer \<Rightarrow> response_writer" where
  "rw_WriteHeader code w = (case wr_status w of None \<Rightarrow> w\<lparr>wr_status := Some code\<rparr> | Some _ \<Rightarrow> w)"

definition rw_Write :: "string \<Rightarrow> response_writer \<Rightarrow> response_writer" where
  "rw_Write body w = (rw_WriteHeader 200 w)\<lparr>wr_body := wr_body w @ body\<rparr>"

text \<open>\<open>ServeHTTP\<close>, with the body and the code the xDS gateway answered.\<close>

definition gateway_ServeHTTP :: "string \<times> int \<Rightarrow> response_writer \<Rightarrow> response_writer" where
  "gateway_ServeHTTP answer w =
     (let (respBytes, code) = answer in rw_WriteHeader code (rw_Write respBytes w))"

definition hasher_ID :: "string option \<Rightarrow> string" where
  "hasher_ID node = (case node of None \<Rightarrow> ''unknown'' | Some nodeId \<Rightarrow> nodeId)"

section \<open>What reaches the snapshot cache\<close>

text \<open>The snapshot a node's documents make, if they translate and the snapshot is consistent.\<close>

definition good_snapshot :: "('any, 'snap) cp_env \<Rightarrow> node_docs \<Rightarrow> string \<Rightarrow> 'snap option" where
  "good_snapshot env docs v =
     (case load_docs (cp_loader env) docs of
        Inl _ \<Rightarrow> None
      | Inr (res, _) \<Rightarrow>
          (case NewSnapshot env v res of
             None \<Rightarrow> None | Some snap \<Rightarrow> if Consistent env snap then Some snap else None))"

definition docs_ok :: "node_docs \<Rightarrow> bool" where
  "docs_ok d \<longleftrightarrow> (\<forall>l \<in> set (decoded (nd_listeners d)). listener_ok l) \<and>
     (\<forall>s \<in> set (decoded (nd_secrets d)). secret_ok s)"

lemma LoadNode_no_error: "LoadNode env ls cs es ss = Inr (res, err) \<Longrightarrow> err = None"
  by (auto simp: LoadNode_def Let_def go_simps)

lemma load_docs_returns: "(\<exists>r. load_docs env d = Inr r) \<longleftrightarrow> docs_ok d"
  unfolding load_docs_def docs_ok_def by (rule LoadNode_returns)

lemma loadNodeConfig_cases:
  assumes "docs_ok docs"
  shows "loadNodeConfig env docs node v calls = Inr (calls @
    (case good_snapshot env docs v of None \<Rightarrow> [] | Some snap \<Rightarrow> [(node, snap)]))"
proof -
  obtain res err where run: "load_docs (cp_loader env) docs = Inr (res, err)"
    using assms load_docs_returns [of "cp_loader env" docs] by auto
  then have "err = None" unfolding load_docs_def by (rule LoadNode_no_error)
  with run show ?thesis
    by (auto simp: loadNodeConfig_def good_snapshot_def split: option.splits)
qed

lemma loadNodeConfig_crash:
  assumes "\<not> docs_ok docs"
  obtains p where "loadNodeConfig env docs node v calls = Inl p"
proof -
  from assms load_docs_returns [of "cp_loader env" docs]
  obtain p where "load_docs (cp_loader env) docs = Inl p"
    by (cases "load_docs (cp_loader env) docs") auto
  then show ?thesis by (intro that [of p]) (simp add: loadNodeConfig_def)
qed

text \<open>What an event asks the cache to do.\<close>

definition event_calls :: "('any, 'snap) cp_env \<Rightarrow> node_event \<Rightarrow> 'snap calls" where
  "event_calls env e =
     (if ne_operation e \<in> {Some ''insert'', Some ''update''} then
        (case ne_node e of
           Inl _ \<Rightarrow> []
         | Inr n \<Rightarrow> (case good_snapshot env (ne_docs e) (nd_Version n) of
             None \<Rightarrow> [] | Some snap \<Rightarrow> [(nd_Name n, snap)]))
      else [])"

definition event_ok :: "node_event \<Rightarrow> bool" where
  "event_ok e \<longleftrightarrow> ne_decoded e \<and> ne_operation e \<noteq> None \<and>
     (ne_operation e \<in> {Some ''insert'', Some ''update''} \<longrightarrow>
        ne_key_ok e \<and> (\<forall>n. ne_node e = Inr n \<longrightarrow> docs_ok (ne_docs e)))"

lemma cp_watch_ok: "event_ok e \<Longrightarrow> cp_watch env e calls = Running (calls @ event_calls env e)"
  by (auto simp: cp_watch_def event_ok_def event_calls_def loadNodeConfig_cases
      split: option.splits sum.splits)

lemma cp_watch_not_ok:
  assumes "\<not> event_ok e"
  shows "cp_watch env e calls \<noteq> Running calls'"
proof (cases "ne_decoded e \<and> ne_operation e \<in> {Some ''insert'', Some ''update''} \<and> ne_key_ok e")
  case True
  with assms obtain n where n: "ne_node e = Inr n" "\<not> docs_ok (ne_docs e)"
    by (auto simp: event_ok_def)
  then obtain p where "loadNodeConfig env (ne_docs e) (nd_Name n) (nd_Version n) calls = Inl p"
    using loadNodeConfig_crash by blast
  with True n show ?thesis by (auto simp: cp_watch_def)
next
  case False
  with assms show ?thesis by (auto simp: cp_watch_def event_ok_def split: option.splits)
qed

text \<open>C6: the control plane stays up through a history of node events exactly if each event can be
  read and each insert or update finds documents that translate; and then the calls to the
  snapshot cache are, event by event, the consistent snapshot of the node's documents under
  the node's version for an insert or update, and none for any other event.\<close>

theorem cp_watch_history:
  "run_loop (cp_watch env) es calls = Running calls' \<longleftrightarrow>
     (\<forall>e \<in> set es. event_ok e) \<and> calls' = calls @ concat (map (event_calls env) es)"
proof (induction es arbitrary: calls)
  case Nil
  show ?case by auto
next
  case (Cons e es)
  show ?case
  proof (cases "event_ok e")
    case True
    then show ?thesis using Cons.IH [of "calls @ event_calls env e"] by (simp add: cp_watch_ok)
  next
    case False
    then have "cp_watch env e calls \<noteq> Running s" for s by (rule cp_watch_not_ok)
    with False show ?thesis by (auto split: process.splits)
  qed
qed

definition n1_docs :: node_docs where
  "n1_docs = \<lparr>nd_listeners = Inr [Some sample_listener], nd_clusters = Inr [], nd_endpoints = Inr [],
     nd_secrets = Inr []\<rparr>"

definition n1_event :: "string \<Rightarrow> node_event" where
  "n1_event operation = \<lparr>ne_decoded = True, ne_operation = Some operation, ne_key_ok = True,
     ne_node = Inr \<lparr>nd_Name = ''n1'', nd_Address = [], nd_Version = ''v2'', nd_Addresses = []\<rparr>,
     ne_docs = n1_docs\<rparr>"

definition sample_cp :: "(string, string \<times> string list) cp_env" where
  "sample_cp = \<lparr>cp_loader = sample_env,
     NewSnapshot = (\<lambda>v res. Some (v, map lst_Name (nr_Listeners res))), Consistent = (\<lambda>_. True)\<rparr>"

lemma n1_docs_ok [simp]: "docs_ok n1_docs"
  using sample_listener_ok by (simp add: docs_ok_def n1_docs_def decoded_def)

lemma n1_snapshot: "good_snapshot sample_cp n1_docs v = Some (v, [''tcp''])"
proof -
  obtain res err where run: "load_docs sample_env n1_docs = Inr (res, err)"
    using load_docs_returns [of sample_env n1_docs] by auto
  then have "map lst_Name (nr_Listeners res) = [''tcp'']"
    unfolding load_docs_def LoadNode_def Let_def
    by (auto simp: go_simps n1_docs_def decoded_def sample_listener_def dest!: parseListener_name)
  with run show ?thesis by (simp add: good_snapshot_def sample_cp_def)
qed

theorem cp_watch_history_witness:
  "run_loop (cp_watch sample_cp) [n1_event ''update'', n1_event ''replace''] [] =
     Running [(''n1'', (''v2'', [''tcp'']))]"
  using cp_watch_history [of sample_cp "[n1_event ''update'', n1_event ''replace'']" "[]"
      "[(''n1'', (''v2'', [''tcp'']))]"]
  by (simp add: event_ok_def event_calls_def n1_event_def n1_snapshot)

text \<open>While the database is down, an update of a node replaces its configuration by an empty one:
  all four queries fail, the load still reports success, and the snapshot without resources,
  if go-control-plane finds it consistent, is handed to the cache under the node's new version.\<close>

theorem cp_outage_empties_node:
  assumes "docs = \<lparr>nd_listeners = Inl e1, nd_clusters = Inl e2, nd_endpoints = Inl e3, nd_secrets = Inl e4\<rparr>"
    and "NewSnapshot env v \<lparr>nr_Listeners = [], nr_Clusters = [], nr_Endpoints = [], nr_Secrets = []\<rparr> = Some snap"
    and "Consistent env snap"
  shows "loadNodeConfig env docs node v calls = Inr (calls @ [(node, snap)])"
  using assms by (simp add: loadNodeConfig_def load_docs_def LoadNode_def decoded_def)

theorem cp_outage_empties_node_witness:
  "loadNodeConfig sample_cp \<lparr>nd_listeners = Inl ''timeout'', nd_clusters = Inl ''timeout'',
     nd_endpoints = Inl ''timeout'', nd_secrets = Inl ''timeout''\<rparr> ''n1'' ''v2'' [(''n1'', (''v1'', [''web'']))]
   = Inr [(''n1'', (''v1'', [''web''])), (''n1'', (''v2'', []))]"
  using cp_outage_empties_node [where env = sample_cp and v = "''v2''" and snap = "(''v2'', [])"
      and node = "''n1''" and calls = "[(''n1'', (''v1'', [''web'']))]", OF refl]
  by (simp add: sample_cp_def)

text \<open>At start the program panics if and only if a listener or secret of some registered node
  does not translate, wherever in the list of nodes it is; otherwise every node whose snapshot
  is consistent gets it, in the order of the nodes.\<close>

theorem cp_start_result:
  "case cp_start env docs found of
     Inl p \<Rightarrow> \<exists>n \<in> set (decoded found). \<not> docs_ok (docs (nd_Name n))
   | Inr calls \<Rightarrow> (\<forall>n \<in> set (decoded found). docs_ok (docs (nd_Name n))) \<and>
       calls = concat (map (\<lambda>n. case good_snapshot env (docs (nd_Name n)) (nd_Version n) of
         None \<Rightarrow> [] | Some snap \<Rightarrow> [(nd_Name n, snap)]) (decoded found))"
proof -
  let ?load = "\<lambda>n. loadNodeConfig env (docs (nd_Name n)) (nd_Name n) (nd_Version n)"
  have "case foldM ?load ns calls0 of
      Inl p \<Rightarrow> \<exists>n \<in> set ns. \<not> docs_ok (docs (nd_Name n))
    | Inr calls \<Rightarrow> (\<forall>n \<in> set ns. docs_ok (docs (nd_Name n))) \<and>
        calls = calls0 @ concat (map (\<lambda>n. case good_snapshot env (docs (nd_Name n)) (nd_Version n) of
          None \<Rightarrow> [] | Some snap \<Rightarrow> [(nd_Name n, snap)]) ns)" for ns calls0
  proof (induction ns arbitrary: calls0)
    case (Cons n ns)
    show ?case
    proof (cases "docs_ok (docs (nd_Name n))")
      case True
      show ?thesis
        using Cons.IH [of "calls0 @ (case good_snapshot env (docs (nd_Name n)) (nd_Version n) of
          None \<Rightarrow> [] | Some snap \<Rightarrow> [(nd_Name n, snap)])"] True
        by (simp add: loadNodeConfig_cases split: sum.splits)
    next
      case False
      then obtain p where "?load n calls0 = Inl p" using loadNodeConfig_crash by blast
      with False show ?thesis by auto
    qed
  qed simp
  from this [of "decoded found" "[]"] show ?thesis
    by (simp add: cp_start_def split: sum.splits)
qed

theorem cp_start_result_witness:
  "\<exists>calls. cp_start sample_cp (\<lambda>_. n1_docs)
     (Inr [Some \<lparr>nd_Name = ''n1'', nd_Address = [], nd_Version = ''v1'', nd_Addresses = []\<rparr>]) = Inr calls \<and>
     calls = [(''n1'', (''v1'', [''tcp'']))]"
  using cp_start_result [where env = sample_cp and docs = "\<lambda>_. n1_docs"
      and found = "Inr [Some \<lparr>nd_Name = ''n1'', nd_Address = [], nd_Version = ''v1'', nd_Addresses = []\<rparr>]"]
  by (simp add: decoded_def n1_snapshot split: sum.splits)

text \<open>The HTTP gateway answers every request with status 200, whatever code the xDS server gave:
  the body is written before the code.\<close>

theorem gateway_status_is_200:
  "wr_status (gateway_ServeHTTP (body, code) \<lparr>wr_status = None, wr_body = []\<rparr>) = Some 200"
  by (simp add: gateway_ServeHTTP_def rw_Write_def rw_WriteHeader_def)

end
