(* ===== verification/RestApi.thy ===== *)
theory RestApi
  imports ControlPlane RLConfig Authz AuthzS3
begin

text \<open>
  The configuration handlers of \<open>rapi/rapi.go\<close>.  A handler works on an \<open>api\<close> state: the
  abstract world behind MongoDB, the write operations it has issued and the replies it has
  written, both in order.  What MongoDB answers is the environment's; a reply after the first
  is written too, as the code does when a guard lacks its \<open>return\<close>.
\<close>

section \<open>Operations and replies\<close>

datatype stored_doc =
    ListenerDoc ListenerConfigType
  | ClusterDoc ClusterConfigType
  | EndpointsDoc EndpointsConfigType
  | SecretDoc SecretConfigType
  | RateLimitDoc RLEntry
  | AuthzDoc AuthzConfigType
  | AuthzS3Doc Authzs3ConfigType

text \<open>A filter names the fields that must be equal; every update and replacement upserts.\<close>

type_synonym bson_filter = "(string \<times> string) list"

datatype db_op =
    DeleteOne string bson_filter
  | DeleteMany string bson_filter
  | UpdateOne string bson_filter "(string \<times> string) list"
  | ReplaceOne string bson_filter stored_doc

datatype reply =
    JSON int string
  | Status int
  | JSON_RateLimits "RLEntry list"
  | JSON_Authz AuthzConfigType
  | JSON_AuthzS3 Authzs3ConfigType
  | Data string

record 'w api =
  api_world :: 'w
  api_ops :: "db_op list"
  api_replies :: "reply list"

text \<open>
  \<open>exec\<close> runs a write and tells whether it succeeded; \<open>marshals\<close> is whether \<open>bson.Marshal\<close>
  accepts a document, \<open>parse_ip\<close> whether \<open>net.ParseIP\<close> accepts a text (a parameter: it
  differs between Go releases).  A decode that fails leaves some value behind.
\<close>

record 'w rapi_env =
  exec :: "db_op \<Rightarrow> 'w \<Rightarrow> bool \<times> 'w"
  find_endpoints :: "bson_filter \<Rightarrow> 'w \<Rightarrow> EndpointsConfigType option \<times> 'w"
  find_ratelimits :: "bson_filter \<Rightarrow> 'w \<Rightarrow> (string + RLEntry option list) \<times> 'w"
  find_authz :: "'w \<Rightarrow> (AuthzConfigType \<times> bool) \<times> 'w"
  find_authzs3 :: "'w \<Rightarrow> (Authzs3ConfigType \<times> bool) \<times> 'w"
  new_uuid :: "'w \<Rightarrow> string \<times> 'w"
  marshals :: "stored_doc \<Rightarrow> bool"
  parse_ip :: "string \<Rightarrow> bool"

definition run_op :: "'w rapi_env \<Rightarrow> db_op \<Rightarrow> 'w api \<Rightarrow> bool \<times> 'w api" where
  "run_op env op st =
     (let (ok, w) = exec env op (api_world st)
      in (ok, st\<lparr>api_world := w, api_ops := api_ops st @ [op]\<rparr>))"

definition reply :: "reply \<Rightarrow> 'w api \<Rightarrow> 'w api" where
  "reply r st = st\<lparr>api_replies := api_replies st @ [r]\<rparr>"

text \<open>The tail of every handler that changes a node: a new version, then 204.\<close>

definition bump_version :: "'w rapi_env \<Rightarrow> string \<Rightarrow> 'w api \<Rightarrow> 'w api" where
  "bump_version env node st =
     (let (u, w) = new_uuid env (api_world st);
          (ok, st) = run_op env (UpdateOne ''nodes'' [(''name'', node)] [(''version'', u)]) (st\<lparr>api_world := w\<rparr>)
      in if \<not> ok then reply (JSON 400 ''failed to update node version'') st
         else reply (Status 204) st)"

text \<open>The guard on names, which goes on after its reply.\<close>

definition name_guard :: "string \<Rightarrow> string \<Rightarrow> 'w api \<Rightarrow> 'w api" where
  "name_guard name msg st = (if length name < 2 then reply (JSON 400 msg) st else st)"

section \<open>Deleting\<close>

definition DeleteConfigListeners :: "'w rapi_env \<Rightarrow> string \<Rightarrow> string \<Rightarrow> 'w api \<Rightarrow> 'w api" where
  "DeleteConfigListeners env node name st =
     (let (ok, st) = run_op env (DeleteOne ''listeners'' [(''nodeId'', node), (''name'', name)]) st
      in if \<not> ok then reply (JSON 400 ''failed to delete'') st else bump_version env node st)"

definition DeleteConfigClusters :: "'w rapi_env \<Rightarrow> string \<Rightarrow> string \<Rightarrow> 'w api \<Rightarrow> 'w api" where
  "DeleteConfigClusters env node name st =
     (let (ok, st) = run_op env (DeleteOne ''clusters'' [(''nodeId'', node), (''name'', name)]) st
      in if \<not> ok then reply (JSON 400 ''failed to delete cluster'') st
         else (let (ok, st) = run_op env (DeleteMany ''endpoints'' [(''nodeId'', node), (''clusterName'', name)]) st
               in if \<not> ok then reply (JSON 400 ''failed to delete endpoints'') st
                  else bump_version env node st))"

text \<open>Despite its name the handler replaces the cluster's endpoints by those of the request.\<close>

definition DeleteConfigEndpoints ::
    "'w rapi_env \<Rightarrow> string \<Rightarrow> string \<Rightarrow> string + EndpointsConfigType \<Rightarrow> 'w api \<Rightarrow> 'w api" where
  "DeleteConfigEndpoints env node name body st =
     (case body of
        Inl err \<Rightarrow> reply (JSON 400 err) st
      | Inr e \<Rightarrow>
          (let e = e\<lparr>es_NodeID := node\<rparr>
           in if \<not> marshals env (EndpointsDoc e) then reply (JSON 400 ''failed to parse endpoints'') st
              else (let (ok, st) = run_op env (ReplaceOne ''endpoints''
                          [(''nodeId'', node), (''clusterName'', name)] (EndpointsDoc e)) st
                    in if \<not> ok then reply (JSON 400 ''failed to update endpoints'') st
                       else bump_version env node st)))"

definition DeleteConfigNodes :: "'w rapi_env \<Rightarrow> string \<Rightarrow> 'w api \<Rightarrow> 'w api" where
  "DeleteConfigNodes env node st =
     (let st = name_guard node ''invalid name'' st;
          (ok, st) = run_op env (DeleteMany ''listeners'' [(''nodeId'', node)]) st
      in if \<not> ok then reply (JSON 400 ''failed to delete listeners'') st
      else (let (ok, st) = run_op env (DeleteMany ''clusters'' [(''nodeId'', node)]) st
      in if \<not> ok then reply (JSON 400 ''failed to delete cluster'') st
      else (let (ok, st) = run_op env (DeleteMany ''endpoints'' [(''nodeId'', node)]) st
      in if \<not> ok then reply (JSON 400 ''failed to delete endpoints'') st
      else (let (ok, st) = run_op env (DeleteOne ''nodes'' [(''name'', node)]) st
      in if \<not> ok then reply (JSON 400 ''failed to delete node'') st
      else reply (Status 204) st))))"

definition DeleteConfigSecrets :: "'w rapi_env \<Rightarrow> string \<Rightarrow> string \<Rightarrow> 'w api \<Rightarrow> 'w api" where
  "DeleteConfigSecrets env node name st =
     (let (ok, st) = run_op env (DeleteOne ''secrets'' [(''nodeId'', node), (''name'', name)]) st
      in if \<not> ok then reply (JSON 400 ''failed to delete'') st else bump_version env node st)"

section \<open>Storing listeners, clusters and nodes\<close>

definition PutConfigListeners ::
    "'w rapi_env \<Rightarrow> string \<Rightarrow> string + ListenerConfigType \<Rightarrow> 'w api \<Rightarrow> 'w api" where
  "PutConfigListeners env node body st =
     (let st = name_guard node ''invalid name'' st in
      case body of
        Inl err \<Rightarrow> reply (JSON 400 err) st
      | Inr l \<Rightarrow>
          if \<not> parse_ip env (sa_Address (addr_SocketAddress (li_Address l)))
          then reply (JSON 400 ''Error parsing ip'') st
          else (let l = l\<lparr>li_NodeID := node\<rparr>
                in if \<not> marshals env (ListenerDoc l) then reply (JSON 400 ''failed to parse listener'') st
                   else (let (ok, st) = run_op env (ReplaceOne ''listeners''
                               [(''nodeId'', node), (''name'', li_Name l)] (ListenerDoc l)) st
                         in if \<not> ok then reply (JSON 400 ''failed to update listener'') st
                            else bump_version env node st)))"

definition PutConfigClusters ::
    "'w rapi_env \<Rightarrow> string \<Rightarrow> string + ClusterConfigType \<Rightarrow> 'w api \<Rightarrow> 'w api" where
  "PutConfigClusters env node body st =
     (let st = name_guard node ''invalid name'' st in
      case body of
        Inl err \<Rightarrow> reply (JSON 400 err) st
      | Inr c \<Rightarrow>
          if cl_ConnectTimeout c = ''0s'' \<or> cl_ConnectTimeout c = ''0''
          then reply (JSON 400 ''ConnectTimeout should be greater than 0'') st
          else (let c = c\<lparr>cl_NodeID := node\<rparr>
                in if \<not> marshals env (ClusterDoc c) then reply (JSON 400 ''failed to parse cluster'') st
                   else (let (ok, st) = run_op env (ReplaceOne ''clusters''
                               [(''nodeId'', node), (''name'', cl_Name c)] (ClusterDoc c)) st
                         in if \<not> ok then reply (JSON 400 ''failed to update listener'') st
                            else bump_version env node st)))"

definition PutConfigNode ::
    "'w rapi_env \<Rightarrow> string \<Rightarrow> string + NodeStaticConfigType \<Rightarrow> 'w api \<Rightarrow> 'w api" where
  "PutConfigNode env node body st =
     (let st = name_guard node ''invalid name'' st in
      case body of
        Inl err \<Rightarrow> reply (JSON 400 err) st
      | Inr n \<Rightarrow>
          if \<not> parse_ip env (nd_Address n) then reply (JSON 400 ''Error parsing ip'') st
          else (let (ok, st) = run_op env (UpdateOne ''nodes'' [(''name'', node)] [(''address'', nd_Address n)]) st
                in if \<not> ok then reply (JSON 400 ''failed to update node version'') st
                   else reply (Status 204) st))"

section \<open>Storing endpoints\<close>

text \<open>
  \<open>len(e.Endpoints) == 0 || len(e.Endpoints[0].LbEndpoints) == 0\<close>, and the first locality and
  endpoint that the rest of the handlers reads.
\<close>

definition first_endpoint :: "EndpointsConfigType \<Rightarrow> (LbEndpointConfigType \<times> EndpointConfigType) option" where
  "first_endpoint e =
     (case es_Endpoints e of
        [] \<Rightarrow> None
      | loc # _ \<Rightarrow> (case lbe_LbEndpoints loc of [] \<Rightarrow> None | lb # _ \<Rightarrow> Some (loc, lb)))"

text \<open>The loop over the stored localities: one endpoint is appended where the priority agrees.\<close>

definition merge_endpoints ::
    "EndpointsConfigType \<Rightarrow> LbEndpointConfigType \<Rightarrow> EndpointConfigType \<Rightarrow> EndpointsConfigType" where
  "merge_endpoints stored loc lb =
     (let merged = map (\<lambda>p. if lbe_Priority p = lbe_Priority loc
                            then p\<lparr>lbe_LbEndpoints := lbe_LbEndpoints p @ [lb]\<rparr> else p) (es_Endpoints stored);
          updated = list_ex (\<lambda>p. lbe_Priority p = lbe_Priority loc) (es_Endpoints stored)
      in stored\<lparr>es_Endpoints :=
           (if updated then merged
            else merged @ [\<lparr>lbe_Priority = lbe_Priority loc, lbe_LbEndpoints = lbe_LbEndpoints loc\<rparr>])\<rparr>)"

definition store_endpoints ::
    "'w rapi_env \<Rightarrow> string \<Rightarrow> string \<Rightarrow> EndpointsConfigType \<Rightarrow> 'w api \<Rightarrow> 'w api" where
  "store_endpoints env node cluster endpoints st =
     (if \<not> marshals env (EndpointsDoc endpoints) then reply (JSON 400 ''failed to parse endpoints'') st
      else (let (ok, st) = run_op env (ReplaceOne ''endpoints''
                  [(''nodeId'', node), (''clusterName'', cluster)] (EndpointsDoc endpoints)) st
            in if \<not> ok then reply (JSON 400 ''failed to update endpoints'') st
               else bump_version env node st))"

definition lb_address :: "EndpointConfigType \<Rightarrow> string" where
  "lb_address lb = sa_Address (ea_SocketAddress (ev2_Address (ep_Endpoint lb)))"

definition PutConfigEndpoints ::
    "'w rapi_env \<Rightarrow> string \<Rightarrow> string + EndpointsConfigType \<Rightarrow> 'w api \<Rightarrow> 'w api" where
  "PutConfigEndpoints env node body st =
     (let st = name_guard node ''invalid name'' st in
      case body of
        Inl err \<Rightarrow> reply (JSON 400 err) st
      | Inr e \<Rightarrow>
          (case first_endpoint e of
             None \<Rightarrow> reply (JSON 400 ''No endpoints found'') st
           | Some (loc, lb) \<Rightarrow>
               if \<not> parse_ip env (lb_address lb) then reply (JSON 400 ''Error parsing ip'') st
               else (let e = e\<lparr>es_NodeID := node\<rparr>;
                         (found, w) = find_endpoints env
                           [(''nodeId'', node), (''clusterName'', es_ClusterName e)] (api_world st);
                         endpoints = (case found of Some stored \<Rightarrow> merge_endpoints stored loc lb | None \<Rightarrow> e)
                     in store_endpoints env node (es_ClusterName e) endpoints (st\<lparr>api_world := w\<rparr>))))"

definition PutConfigEndpointsNamed ::
    "'w rapi_env \<Rightarrow> string \<Rightarrow> string + EndpointsConfigType \<Rightarrow> 'w api \<Rightarrow> 'w api" where
  "PutConfigEndpointsNamed env node body st =
     (let st = name_guard node ''invalid name'' st in
      case body of
        Inl err \<Rightarrow> reply (JSON 400 err) st
      | Inr e \<Rightarrow>
          (case first_endpoint e of
             None \<Rightarrow> reply (JSON 400 ''No endpoints found'') st
           | Some (loc, lb) \<Rightarrow>
               if \<not> parse_ip env (lb_address lb) then reply (JSON 400 ''Error parsing ip'') st
               else (let e = e\<lparr>es_NodeID := node\<rparr>
                     in store_endpoints env node (es_ClusterName e) e st)))"

section \<open>Storing secrets\<close>

text \<open>
  The library calls of the secret check: \<open>pem.Decode\<close> gives the first block's bytes (\<open>None\<close>:
  a nil block) and the rest of the text; \<open>verify_chain\<close> verifies a certificate against the
  pool made of the rest.
\<close>

record ('cert, 'key) crypto_env =
  pem_decode :: "string \<Rightarrow> string option \<times> string"
  parse_certificate :: "string \<Rightarrow> 'cert option"
  verify_chain :: "'cert \<Rightarrow> string \<Rightarrow> bool"
  parse_pkcs1 :: "string \<Rightarrow> 'key option"
  key_matches :: "'key \<Rightarrow> 'cert \<Rightarrow> bool"

text \<open>A check yields the error to reply, or nothing; \<open>cblock.Bytes\<close> on a nil block panics.\<close>

definition check_certificate ::
    "('cert, 'key) crypto_env \<Rightarrow> TlsCertificateConfigType \<Rightarrow> string option go" where
  "check_certificate cr c =
     (let (pblock, rest) = pem_decode cr (is_InlineString (tc_PrivateKey c)) in
      if length rest > 0 then Inr (Some ''Error parsing private key'')
      else
        (let (cblock, rest) = pem_decode cr (is_InlineString (tc_CertificateChain c)) in
         bind_go (deref cblock) (\<lambda>cbytes.
         case parse_certificate cr cbytes of
           None \<Rightarrow> Inr (Some ''certificate'')
         | Some crt \<Rightarrow>
             if length rest > 0 \<and> \<not> verify_chain cr crt rest then Inr (Some ''chain'')
             else bind_go (deref pblock) (\<lambda>pbytes.
               case parse_pkcs1 cr pbytes of
                 None \<Rightarrow> Inr (Some ''private key'')
               | Some pkey \<Rightarrow>
                   if \<not> key_matches cr pkey crt
                   then Inr (Some ''Private key do not correspond certificate'')
                   else Inr None))))"

definition check_validation ::
    "('cert, 'key) crypto_env \<Rightarrow> ValidationContextConfigType \<Rightarrow> string option go" where
  "check_validation cr vc =
     bind_go (deref (vc_TrustedCa vc)) (\<lambda>ca.
     let (cblock, rest) = pem_decode cr (is_InlineString ca) in
     bind_go (deref cblock) (\<lambda>cbytes.
     case parse_certificate cr cbytes of
       None \<Rightarrow> Inr (Some ''certificate'')
     | Some crt \<Rightarrow> Inr None))"

definition check_secret ::
    "('cert, 'key) crypto_env \<Rightarrow> SecretConfigType \<Rightarrow> string option go" where
  "check_secret cr s =
     bind_go (case sec_TlsCertificate s of None \<Rightarrow> Inr None | Some c \<Rightarrow> check_certificate cr c) (\<lambda>err.
     case err of
       Some e \<Rightarrow> Inr (Some e)
     | None \<Rightarrow> (case sec_ValidationContext s of None \<Rightarrow> Inr None | Some vc \<Rightarrow> check_validation cr vc))"

definition PutConfigSecrets ::
    "('cert, 'key) crypto_env \<Rightarrow> 'w rapi_env \<Rightarrow> string \<Rightarrow> string + SecretConfigType \<Rightarrow> 'w api \<Rightarrow> 'w api go" where
  "PutConfigSecrets cr env node body st =
     (let st = name_guard node ''invalid name'' st in
      case body of
        Inl err \<Rightarrow> Inr (reply (JSON 400 err) st)
      | Inr s \<Rightarrow>
          (let s = s\<lparr>sec_NodeID := node\<rparr> in
           bind_go (check_secret cr s) (\<lambda>err.
           case err of
             Some e \<Rightarrow> Inr (reply (JSON 400 e) st)
           | None \<Rightarrow>
               if \<not> marshals env (SecretDoc s) then Inr (reply (JSON 400 ''failed to parse secret'') st)
               else (let (ok, st) = run_op env (ReplaceOne ''secrets''
                           [(''nodeId'', node), (''name'', sec_Name s)] (SecretDoc s)) st
                     in Inr (if \<not> ok then reply (JSON 400 ''failed to update secret'') st
                             else bump_version env node st)))))"

section \<open>Rate limits and authorization rules\<close>

text \<open>The route parameter of the list handler starts with a slash, as gin's wildcards do.\<close>

definition GetRateLimit :: "'w rapi_env \<Rightarrow> string \<Rightarrow> 'w api \<Rightarrow> 'w api" where
  "GetRateLimit env domain st =
     (let q = (if domain = ''/'' then [] else [(''domain'', domain)]);
          (found, w) = find_ratelimits env q (api_world st)
      in reply (JSON_RateLimits (decoded found)) (st\<lparr>api_world := w\<rparr>))"

definition rate_limit_filter :: "string \<Rightarrow> RLEntry \<Rightarrow> bson_filter" where
  "rate_limit_filter domain e = [(''domain'', domain), (''key'', rl_Key e), (''value'', rl_Value e)]"

definition PutRateLimit :: "'w rapi_env \<Rightarrow> string \<Rightarrow> string + RLEntry \<Rightarrow> 'w api \<Rightarrow> 'w api" where
  "PutRateLimit env domain body st =
     (let st = name_guard domain ''invalid domain'' st in
      case body of
        Inl err \<Rightarrow> reply (JSON 400 err) st
      | Inr e \<Rightarrow>
          (let e = e\<lparr>rl_Domain := domain\<rparr>;
               (ok, st) = run_op env (ReplaceOne ''ratelimits'' (rate_limit_filter domain e) (RateLimitDoc e)) st
           in if \<not> ok then reply (JSON 400 ''failed to update ratelimit'') st else reply (Status 204) st))"

definition DeleteRateLimit :: "'w rapi_env \<Rightarrow> string \<Rightarrow> string + RLEntry \<Rightarrow> 'w api \<Rightarrow> 'w api" where
  "DeleteRateLimit env domain body st =
     (let st = name_guard domain ''invalid domain'' st in
      case body of
        Inl err \<Rightarrow> reply (JSON 400 err) st
      | Inr e \<Rightarrow>
          (let (ok, st) = run_op env (DeleteOne ''ratelimits'' (rate_limit_filter domain e)) st
           in if \<not> ok then reply (JSON 400 ''failed to delete ratelimit'') st else reply (Status 204) st))"

text \<open>The handler answers with the configuration when there is an error, not when there is none.\<close>

definition GetConfigAuthz :: "'w rapi_env \<Rightarrow> 'w api \<Rightarrow> 'w api" where
  "GetConfigAuthz env st =
     (let ((authzconfig, ok), w) = find_authz env (api_world st); st = st\<lparr>api_world := w\<rparr>
      in if \<not> ok then reply (JSON_Authz authzconfig) st else reply (JSON 400 ''{}'') st)"

definition PutConfigAuthz :: "'w rapi_env \<Rightarrow> string + AuthzConfigType \<Rightarrow> 'w api \<Rightarrow> 'w api" where
  "PutConfigAuthz env body st =
     (case body of
        Inl err \<Rightarrow> reply (JSON 400 err) st
      | Inr c \<Rightarrow>
          (let (ok, st) = run_op env (ReplaceOne ''authz'' [] (AuthzDoc c)) st
           in if \<not> ok then reply (JSON 400 ''failed to update authz'') st else reply (Status 204) st))"

definition GetConfigAuthzS3 :: "'w rapi_env \<Rightarrow> 'w api \<Rightarrow> 'w api" where
  "GetConfigAuthzS3 env st =
     (let ((authzconfig, ok), w) = find_authzs3 env (api_world st); st = st\<lparr>api_world := w\<rparr>
      in if ok then reply (JSON_AuthzS3 authzconfig) st else reply (JSON 200 ''{}'') st)"

definition PutConfigAuthzS3 :: "'w rapi_env \<Rightarrow> string + Authzs3ConfigType \<Rightarrow> 'w api \<Rightarrow> 'w api" where
  "PutConfigAuthzS3 env body st =
     (case body of
        Inl err \<Rightarrow> reply (JSON 400 err) st
      | Inr c \<Rightarrow>
          (let (ok, st) = run_op env (ReplaceOne ''authzs3'' [] (AuthzS3Doc c)) st
           in if \<not> ok then reply (JSON 400 ''failed to update authz'') st else reply (Status 204) st))"

section \<open>Listing\<close>

text \<open>
  The three listings share this text building: a header, every selected item followed by a
  comma, the last byte cut off when the buffer is longer than a constant, a footer.
\<close>

definition list_json :: "string \<Rightarrow> nat \<Rightarrow> string list \<Rightarrow> string" where
  "list_json header limit items =
     (let res = fold (\<lambda>item res. res @ item @ '','') items header;
          res = (if length res > limit then take (length res - 1) res else res)
      in res @ ''] }'')"

definition selected :: "string \<Rightarrow> string \<Rightarrow> bool" where
  "selected name item_name \<longleftrightarrow> ''/'' @ item_name = name \<or> name = ''/''"

definition GetConfigListeners ::
    "'any loader_env \<Rightarrow> ('any Listener \<Rightarrow> string) \<Rightarrow> node_docs \<Rightarrow> string \<Rightarrow> string go" where
  "GetConfigListeners env json docs name =
     bind_go (load_docs env docs) (\<lambda>(res, err).
     Inr (list_json ''{ \"listeners\": ['' 16
       (map json (filter (\<lambda>e. selected name (lst_Name e)) (nr_Listeners res)))))"

definition GetConfigClusters ::
    "'any loader_env \<Rightarrow> ('any Cluster \<Rightarrow> string) \<Rightarrow> node_docs \<Rightarrow> string \<Rightarrow> string go" where
  "GetConfigClusters env json docs name =
     bind_go (load_docs env docs) (\<lambda>(res, err).
     Inr (list_json ''{ \"clusters\": ['' 15
       (map json (filter (\<lambda>e. selected name (cls_Name e)) (nr_Clusters res)))))"

definition GetConfigEndpoints ::
    "'any loader_env \<Rightarrow> (ClusterLoadAssignment \<Rightarrow> string) \<Rightarrow> node_docs \<Rightarrow> string \<Rightarrow> string go" where
  "GetConfigEndpoints env json docs name =
     bind_go (load_docs env docs) (\<lambda>(res, err).
     Inr (list_json ''{ \"endpoints\": ['' 16
       (map json (filter (\<lambda>e. selected name (cla_ClusterName e)) (nr_Endpoints res)))))"

text \<open>\<open>None\<close>: the handler returns without a reply, when \<open>NewSnapshot\<close> fails.\<close>

definition GetConfigStatus :: "('any, 'snap) cp_env \<Rightarrow> node_docs \<Rightarrow> string \<Rightarrow> reply option go" where
  "GetConfigStatus env docs node =
     bind_go (load_docs (cp_loader env) docs) (\<lambda>(configMap, err).
     case err of
       None \<Rightarrow>
         (case NewSnapshot env node configMap of
            None \<Rightarrow> Inr None
          | Some snap \<Rightarrow>
              if Consistent env snap then Inr (Some (JSON 200 ''consistent''))
              else Inr (Some (JSON 200 ''inconsistent'')))
     | Some e \<Rightarrow> Inr (Some (JSON 400 e)))"

record WorkerSyncConfigType =
  ws_Name :: string
  ws_Version :: string
  ws_Status :: string
  ws_Updated :: string

text \<open>The reply's fields: synced, updated, status.\<close>

definition GetLiveSyncStatus ::
    "string + NodeStaticConfigType \<Rightarrow> string + WorkerSyncConfigType \<Rightarrow> string + string \<times> string \<times> string" where
  "GetLiveSyncStatus node_found worker_found =
     (case node_found of
        Inl err \<Rightarrow> Inl err
      | Inr nodeStatus \<Rightarrow>
          (case worker_found of
             Inr syncStatus \<Rightarrow>
               if nd_Version nodeStatus = ws_Version syncStatus
               then Inr (''True'', ws_Updated syncStatus, ws_Status syncStatus)
               else Inr (''False'', ws_Updated syncStatus, ws_Status syncStatus)
           | Inl e \<Rightarrow> Inr (''False'', '' '', ''Not yet synced'')))"

end
