(* ===== verification/ApiProps.thy ===== *)
theory ApiProps
  imports RestApi
begin

text \<open>
  Properties of the REST handlers: what a successful change does to the database, what the
  checks keep out and what they let through to the control plane, and the texts of listings.
\<close>

section \<open>Rolling out a change\<close>

definition successful :: "'w api \<Rightarrow> 'w api \<Rightarrow> bool" where
  "successful st st' \<longleftrightarrow> (\<exists>rs. api_replies st' = api_replies st @ rs @ [Status 204])"

text \<open>The node an operation on a node's resources names.\<close>

fun op_node :: "db_op \<Rightarrow> string option" where
  "op_node (DeleteOne c f) = map_of f ''nodeId''"
| "op_node (DeleteMany c f) = map_of f ''nodeId''"
| "op_node (UpdateOne c f u) = map_of f ''nodeId''"
| "op_node (ReplaceOne c f d) = map_of f ''nodeId''"

text \<open>
  A handler rolls out its change: if it ends in 204, its writes on the node's resources are
  followed by exactly one new version of the node, its last write.
\<close>

definition rolls_out :: "string \<Rightarrow> 'w api \<Rightarrow> 'w api \<Rightarrow> bool" where
  "rolls_out node st st' \<longleftrightarrow>
     (successful st st' \<longrightarrow>
       (\<exists>ops u. api_ops st' = api_ops st @ ops @ [UpdateOne ''nodes'' [(''name'', node)] [(''version'', u)]] \<and>
          ops \<noteq> [] \<and> (\<forall>op \<in> set ops. op_node op = Some node)))"

lemma reply_simps [simp]:
  "api_ops (reply r st) = api_ops st"
  "api_world (reply r st) = api_world st"
  "api_replies (reply r st) = api_replies st @ [r]"
  by (simp_all add: reply_def)

lemma name_guard_ops [simp]: "api_ops (name_guard n msg st) = api_ops st"
  by (simp add: name_guard_def)

lemma name_guard_world [simp]: "api_world (name_guard n msg st) = api_world st"
  by (simp add: name_guard_def)

lemma name_guard_replies:
  "\<exists>rs. api_replies (name_guard n msg st) = api_replies st @ rs \<and> Status 204 \<notin> set rs"
  by (auto simp: name_guard_def)

lemma run_op_simps:
  "run_op env op st = (ok, st') \<Longrightarrow>
     api_ops st' = api_ops st @ [op] \<and> api_replies st' = api_replies st"
  by (auto simp: run_op_def split: prod.splits)

lemma bump_version_ops:
  "\<exists>u. api_ops (bump_version env node st) =
     api_ops st @ [UpdateOne ''nodes'' [(''name'', node)] [(''version'', u)]]"
  by (fastforce simp: bump_version_def dest: run_op_simps split: prod.splits)

lemma not_successful_reply: "r \<noteq> Status 204 \<Longrightarrow> \<not> successful st0 (reply r st)"
  by (simp add: successful_def)

text \<open>The common end of the handlers: some writes, then the new version.\<close>

lemma rolls_out_bump:
  assumes "api_ops st = api_ops st0 @ ops" and "ops \<noteq> []" and "\<forall>op \<in> set ops. op_node op = Some node"
  shows "rolls_out node st0 (bump_version env node st)"
  using bump_version_ops [of env node st] assms by (auto simp: rolls_out_def)

lemma rolls_out_failed: "r \<noteq> Status 204 \<Longrightarrow> rolls_out node st0 (reply r st)"
  by (simp add: rolls_out_def not_successful_reply)

text \<open>One write on the node's resources, then the new version.\<close>

lemma rolls_out_write:
  assumes "api_ops st = api_ops st0" and "op_node op = Some node" and "r \<noteq> Status 204"
  shows "rolls_out node st0 (case run_op env op st of (ok, st) \<Rightarrow>
     if \<not> ok then reply r st else bump_version env node st)"
  using assms
  by (auto simp: rolls_out_failed dest!: run_op_simps intro!: rolls_out_bump [where ops = "[op]"]
      split: prod.splits)

lemma rolls_out_store_endpoints:
  "api_ops st = api_ops st0 \<Longrightarrow> rolls_out node st0 (store_endpoints env node cluster e st)"
  unfolding store_endpoints_def Let_def by (auto simp: rolls_out_failed intro!: rolls_out_write)

lemma rolls_out_put_listener: "rolls_out node st (PutConfigListeners env node body st)"
  unfolding PutConfigListeners_def Let_def
  by (auto simp: rolls_out_failed intro!: rolls_out_write split: sum.splits)

lemma rolls_out_put_cluster: "rolls_out node st (PutConfigClusters env node body st)"
  unfolding PutConfigClusters_def Let_def
  by (auto simp: rolls_out_failed intro!: rolls_out_write split: sum.splits)

lemma rolls_out_put_endpoints: "rolls_out node st (PutConfigEndpoints env node body st)"
  unfolding PutConfigEndpoints_def
  by (auto simp: rolls_out_failed Let_def intro!: rolls_out_store_endpoints
      split: sum.splits option.splits prod.splits)

lemma rolls_out_put_endpoints_named: "rolls_out node st (PutConfigEndpointsNamed env node body st)"
  unfolding PutConfigEndpointsNamed_def
  by (auto simp: rolls_out_failed Let_def intro!: rolls_out_store_endpoints
      split: sum.splits option.splits prod.splits)

lemma rolls_out_delete_listener: "rolls_out node st (DeleteConfigListeners env node name st)"
  unfolding DeleteConfigListeners_def Let_def by (rule rolls_out_write) simp_all

lemma rolls_out_delete_secret: "rolls_out node st (DeleteConfigSecrets env node name st)"
  unfolding DeleteConfigSecrets_def Let_def by (rule rolls_out_write) simp_all

lemma rolls_out_delete_endpoints: "rolls_out node st (DeleteConfigEndpoints env node name body st)"
  unfolding DeleteConfigEndpoints_def Let_def
  by (auto simp: rolls_out_failed intro!: rolls_out_write split: sum.splits)

lemma rolls_out_delete_cluster: "rolls_out node st (DeleteConfigClusters env node name st)"
  unfolding DeleteConfigClusters_def Let_def
  by (auto simp: rolls_out_failed dest!: run_op_simps split: prod.splits
      intro!: rolls_out_bump [where ops = "[DeleteOne ''clusters'' [(''nodeId'', node), (''name'', name)],
        DeleteMany ''endpoints'' [(''nodeId'', node), (''clusterName'', name)]]"])

lemmas handlers_roll_out = rolls_out_put_listener rolls_out_put_cluster rolls_out_put_endpoints
  rolls_out_put_endpoints_named rolls_out_delete_listener rolls_out_delete_cluster
  rolls_out_delete_endpoints rolls_out_delete_secret


text \<open>A database that accepts every write and holds nothing.\<close>

definition accept_env :: "unit rapi_env" where
  "accept_env = \<lparr>exec = (\<lambda>op w. (True, w)), find_endpoints = (\<lambda>q w. (None, w)),
     find_ratelimits = (\<lambda>q w. (Inr [], w)), find_authz = (\<lambda>w. ((\<lparr>az_Config = \<lparr>az_Domains = None\<rparr>\<rparr>, False), w)),
     find_authzs3 = (\<lambda>w. ((\<lparr>s3_Config = \<lparr>s3_Namespaces = None\<rparr>\<rparr>, False), w)), new_uuid = (\<lambda>w. (''v'', w)),
     marshals = (\<lambda>d. True), parse_ip = (\<lambda>s. True)\<rparr>"

definition fresh :: "unit api" where
  "fresh = \<lparr>api_world = (), api_ops = [], api_replies = []\<rparr>"


section \<open>Guards\<close>

text \<open>A database that does not fail, for the statements on what a handler goes on to do.\<close>

definition writes_succeed :: "'w rapi_env \<Rightarrow> bool" where
  "writes_succeed env \<longleftrightarrow> (\<forall>op w. fst (exec env op w)) \<and> (\<forall>d. marshals env d)"

lemma run_op_succeeds:
  "writes_succeed env \<Longrightarrow> \<exists>w. run_op env op st = (True, st\<lparr>api_world := w, api_ops := api_ops st @ [op]\<rparr>)"
  by (cases "exec env op (api_world st)") (simp add: run_op_def writes_succeed_def, metis fst_conv)

lemma bump_version_succeeds:
  assumes "writes_succeed env"
  shows "\<exists>u. api_ops (bump_version env node st) =
      api_ops st @ [UpdateOne ''nodes'' [(''name'', node)] [(''version'', u)]] \<and>
    api_replies (bump_version env node st) = api_replies st @ [Status 204]"
proof -
  obtain u w where u: "new_uuid env (api_world st) = (u, w)" by (cases "new_uuid env (api_world st)")
  obtain w' where "run_op env (UpdateOne ''nodes'' [(''name'', node)] [(''version'', u)]) (st\<lparr>api_world := w\<rparr>)
    = (True, st\<lparr>api_world := w', api_ops := api_ops st @ [UpdateOne ''nodes'' [(''name'', node)] [(''version'', u)]]\<rparr>)"
    using run_op_succeeds [OF assms, of "UpdateOne ''nodes'' [(''name'', node)] [(''version'', u)]"
        "st\<lparr>api_world := w\<rparr>"] by auto
  with u show ?thesis by (auto simp: bump_version_def)
qed

lemma PutConfigListeners_stores:
  assumes "writes_succeed env" and "parse_ip env (sa_Address (addr_SocketAddress (li_Address l)))"
  shows "\<exists>u. api_ops (PutConfigListeners env node (Inr l) st) = api_ops st @
      [ReplaceOne ''listeners'' [(''nodeId'', node), (''name'', li_Name l)] (ListenerDoc (l\<lparr>li_NodeID := node\<rparr>)),
       UpdateOne ''nodes'' [(''name'', node)] [(''version'', u)]] \<and>
    api_replies (PutConfigListeners env node (Inr l) st) = api_replies st @
      (if length node < 2 then [JSON 400 ''invalid name''] else []) @ [Status 204]"
proof -
  let ?st = "name_guard node ''invalid name'' st"
  let ?op = "ReplaceOne ''listeners'' [(''nodeId'', node), (''name'', li_Name l)] (ListenerDoc (l\<lparr>li_NodeID := node\<rparr>))"
  obtain w where w: "run_op env ?op ?st = (True, ?st\<lparr>api_world := w, api_ops := api_ops st @ [?op]\<rparr>)"
    using run_op_succeeds [OF assms(1), of ?op ?st] by auto
  from assms w have "PutConfigListeners env node (Inr l) st =
      bump_version env node (?st\<lparr>api_world := w, api_ops := api_ops st @ [?op]\<rparr>)"
    by (simp add: PutConfigListeners_def writes_succeed_def Let_def)
  with bump_version_succeeds [OF assms(1), of node "?st\<lparr>api_world := w, api_ops := api_ops st @ [?op]\<rparr>"]
  show ?thesis by (auto simp: name_guard_def)
qed

text \<open>The guard on node names does not stop a request: for a node name shorter than two characters
  the handler replies 400 "invalid name" and then stores the listener and the new version all
  the same, and replies again.\<close>

theorem api_short_name_still_stores:
  assumes "writes_succeed env" and "parse_ip env (sa_Address (addr_SocketAddress (li_Address l)))"
    and "length node < 2"
  shows "\<exists>u. api_ops (PutConfigListeners env node (Inr l) st) = api_ops st @
      [ReplaceOne ''listeners'' [(''nodeId'', node), (''name'', li_Name l)] (ListenerDoc (l\<lparr>li_NodeID := node\<rparr>)),
       UpdateOne ''nodes'' [(''name'', node)] [(''version'', u)]] \<and>
    api_replies (PutConfigListeners env node (Inr l) st) =
      api_replies st @ [JSON 400 ''invalid name'', Status 204]"
  using PutConfigListeners_stores [OF assms(1,2), of node st] assms(3) by simp

lemma accept_env_writes: "writes_succeed accept_env"
  by (simp add: writes_succeed_def accept_env_def)

theorem api_short_name_still_stores_witness:
  "api_replies (PutConfigListeners accept_env ''x'' (Inr sample_listener) fresh) =
     [JSON 400 ''invalid name'', Status 204]"
  using api_short_name_still_stores [OF accept_env_writes, of sample_listener "''x''" fresh]
  by (auto simp: accept_env_def fresh_def)

text \<open>C36: the handler for listeners stores listeners the loader cannot translate: for a listener
  that is not well formed it reports success, and from then on, for as long as the node's
  documents include it, loading the node panics, at every update of the node and at start.\<close>

theorem api_accepts_crashing_listener:
  assumes "writes_succeed env" and "parse_ip env (sa_Address (addr_SocketAddress (li_Address l)))"
    and "2 \<le> length node" and "\<not> listener_ok l"
    and "l\<lparr>li_NodeID := node\<rparr> \<in> set (decoded (nd_listeners docs))"
  shows "successful st (PutConfigListeners env node (Inr l) st) \<and>
    api_ops (PutConfigListeners env node (Inr l) st) ! length (api_ops st) =
      ReplaceOne ''listeners'' [(''nodeId'', node), (''name'', li_Name l)] (ListenerDoc (l\<lparr>li_NodeID := node\<rparr>)) \<and>
    (\<exists>p. loadNodeConfig cp docs node v calls = Inl p)"
proof -
  have "\<not> listener_ok (l\<lparr>li_NodeID := node\<rparr>)" using assms(4) by (simp add: listener_ok_def)
  with assms(5) have "\<not> docs_ok docs" by (auto simp: docs_ok_def)
  then have "\<exists>p. loadNodeConfig cp docs node v calls = Inl p" by (meson loadNodeConfig_crash)
  with PutConfigListeners_stores [OF assms(1,2), of node st] assms(3) show ?thesis
    by (auto simp: successful_def nth_append)
qed

definition crashing_listener :: ListenerConfigType where
  "crashing_listener = sample_listener\<lparr>li_FilterChains := [\<lparr>fc_FilterChainMatch = None,
     fc_Filters = [\<lparr>fl_Name = ''envoy.filters.network.tcp_proxy'',
       fl_TypedConfig = tcp_config\<lparr>ft_Cluster := None\<rparr>\<rparr>], fc_TransportSocket = None\<rparr>]\<rparr>"

theorem api_accepts_crashing_listener_witness:
  "successful fresh (PutConfigListeners accept_env ''n1'' (Inr crashing_listener) fresh) \<and>
   (\<exists>p. loadNodeConfig sample_cp (n1_docs\<lparr>nd_listeners := Inr [Some crashing_listener]\<rparr>) ''n1'' ''v2'' [] = Inl p)"
proof -
  have ip: "parse_ip accept_env a" for a by (simp add: accept_env_def)
  have "\<not> listener_ok crashing_listener"
    by (simp add: crashing_listener_def listener_ok_def filter_ok_def)
  moreover have "crashing_listener\<lparr>li_NodeID := ''n1''\<rparr> = crashing_listener"
    by (simp add: crashing_listener_def sample_listener_def)
  ultimately show ?thesis
    using api_accepts_crashing_listener [OF accept_env_writes ip, of "''n1''" crashing_listener
        "n1_docs\<lparr>nd_listeners := Inr [Some crashing_listener]\<rparr>" fresh sample_cp "''v2''" "[]"]
    by (simp add: decoded_def)
qed

text \<open>What the handler for secrets has stored has passed its check.\<close>

lemma put_secret_checked:
  assumes "PutConfigSecrets cr env node (Inr s) st = Inr st'"
    and "ReplaceOne c f (SecretDoc s') \<in> set (api_ops st')"
    and "ReplaceOne c f (SecretDoc s') \<notin> set (api_ops st)"
  shows "check_secret cr s' = Inr None"
proof -
  let ?s = "s\<lparr>sec_NodeID := node\<rparr>"
  obtain err where err: "check_secret cr ?s = Inr err"
    using assms(1) by (auto simp: PutConfigSecrets_def Let_def go_simps)
  have bump: "ReplaceOne c f (SecretDoc s') \<in> set (api_ops (bump_version env node t)) \<Longrightarrow>
      ReplaceOne c f (SecretDoc s') \<in> set (api_ops t)" for t
    using bump_version_ops [of env node t] by auto
  have "err = None \<and> s' = ?s"
    using assms err
    by (auto simp: PutConfigSecrets_def Let_def dest!: run_op_simps bump
        split: option.splits if_splits prod.splits)
  with err show ?thesis by simp
qed

text \<open>A secret the handler stores always translates: its check needs the trusted CA of a
  validation context, so of the two kinds of documents that can stop a load, secrets stored
  through the API never do.\<close>

theorem api_secrets_translate:
  assumes "PutConfigSecrets cr env node (Inr s) st = Inr st'"
    and "ReplaceOne c f (SecretDoc s') \<in> set (api_ops st')"
    and "ReplaceOne c f (SecretDoc s') \<notin> set (api_ops st)"
  shows "\<exists>r. parseSecret s' = Inr r \<and> scr_Name r = sec_Name s'"
proof -
  have "check_validation cr vc = Inr None" if "sec_ValidationContext s' = Some vc" for vc
    using put_secret_checked [OF assms] that by (auto simp: check_secret_def go_simps split: option.splits)
  then have "secret_ok s'"
    by (auto simp: secret_ok_def check_validation_def go_simps)
  then show ?thesis using parseSecret_returns [of s'] parseSecret_name by blast
qed

definition toy_crypto :: "(string, string) crypto_env" where
  "toy_crypto = \<lparr>pem_decode = (\<lambda>s. (Some s, [])), parse_certificate = Some, verify_chain = (\<lambda>c p. True),
     parse_pkcs1 = Some, key_matches = (\<lambda>k c. k = c)\<rparr>"

definition ca_secret :: SecretConfigType where
  "ca_secret = \<lparr>sec_NodeID = ''n1'', sec_Name = ''ca'', sec_TlsCertificate = None,
     sec_ValidationContext = Some \<lparr>vc_TrustedCa = Some \<lparr>is_InlineString = ''pem''\<rparr>, vc_SdsConfig = None\<rparr>\<rparr>"

theorem api_secrets_translate_witness:
  "\<exists>st' r. PutConfigSecrets toy_crypto accept_env ''n1'' (Inr ca_secret) fresh = Inr st' \<and>
     ReplaceOne ''secrets'' [(''nodeId'', ''n1''), (''name'', ''ca'')] (SecretDoc ca_secret) \<in> set (api_ops st') \<and>
     parseSecret ca_secret = Inr r"
proof -
  obtain st' where put: "PutConfigSecrets toy_crypto accept_env ''n1'' (Inr ca_secret) fresh = Inr st'"
    and op: "ReplaceOne ''secrets'' [(''nodeId'', ''n1''), (''name'', ''ca'')] (SecretDoc ca_secret) \<in> set (api_ops st')"
    by (simp add: PutConfigSecrets_def check_secret_def check_validation_def toy_crypto_def ca_secret_def
        accept_env_def fresh_def name_guard_def run_op_def bump_version_def)
  from api_secrets_translate [OF put op] put op show ?thesis by (auto simp: fresh_def)
qed

text \<open>Deleting a node deletes its listeners, clusters and endpoints and the node itself, in that
  order and stopping at the first failure, but never its secrets: a node created again under
  the name gets the old private keys.\<close>

theorem api_delete_node_keeps_secrets:
  "\<exists>n \<le> 4. api_ops (DeleteConfigNodes env node st) = api_ops st @ take n
     [DeleteMany ''listeners'' [(''nodeId'', node)], DeleteMany ''clusters'' [(''nodeId'', node)],
      DeleteMany ''endpoints'' [(''nodeId'', node)], DeleteOne ''nodes'' [(''name'', node)]] \<and>
   (successful st (DeleteConfigNodes env node st) \<longrightarrow> n = 4)"
proof -
  let ?st = "name_guard node ''invalid name'' st"
  obtain ok1 s1 where 1: "run_op env (DeleteMany ''listeners'' [(''nodeId'', node)]) ?st = (ok1, s1)" by force
  obtain ok2 s2 where 2: "run_op env (DeleteMany ''clusters'' [(''nodeId'', node)]) s1 = (ok2, s2)" by force
  obtain ok3 s3 where 3: "run_op env (DeleteMany ''endpoints'' [(''nodeId'', node)]) s2 = (ok3, s3)" by force
  obtain ok4 s4 where 4: "run_op env (DeleteOne ''nodes'' [(''name'', node)]) s3 = (ok4, s4)" by force
  note ops = run_op_simps [OF 1] run_op_simps [OF 2] run_op_simps [OF 3] run_op_simps [OF 4]
  have run: "DeleteConfigNodes env node st =
     (if \<not> ok1 then reply (JSON 400 ''failed to delete listeners'') s1
      else if \<not> ok2 then reply (JSON 400 ''failed to delete cluster'') s2
      else if \<not> ok3 then reply (JSON 400 ''failed to delete endpoints'') s3
      else if \<not> ok4 then reply (JSON 400 ''failed to delete node'') s4
      else reply (Status 204) s4)"
    by (simp add: DeleteConfigNodes_def Let_def 1 2 3 4)
  show ?thesis
    unfolding run using ops
    by (intro exI [of _ "if \<not> ok1 then 1 else if \<not> ok2 then 2 else if \<not> ok3 then 3 else 4"])
      (simp add: not_successful_reply numeral_eq_Suc)
qed

theorem api_delete_node_keeps_secrets_witness:
  "\<forall>c f d. ReplaceOne c f d \<notin> set (api_ops (DeleteConfigNodes accept_env ''n1'' fresh)) \<and>
     DeleteMany ''secrets'' f \<notin> set (api_ops (DeleteConfigNodes accept_env ''n1'' fresh))"
proof -
  obtain n where "api_ops (DeleteConfigNodes accept_env ''n1'' fresh) = take n
     [DeleteMany ''listeners'' [(''nodeId'', ''n1'')], DeleteMany ''clusters'' [(''nodeId'', ''n1'')],
      DeleteMany ''endpoints'' [(''nodeId'', ''n1'')], DeleteOne ''nodes'' [(''name'', ''n1'')]]"
    using api_delete_node_keeps_secrets [of accept_env "''n1''" fresh] by (auto simp: fresh_def)
  then show ?thesis by (auto dest!: in_set_takeD)
qed

section \<open>Merging endpoints\<close>

text \<open>Storing endpoints into a cluster that has some keeps every stored locality with its priority
  and its endpoints in place; and where the priority exists already, of the endpoints in the
  request only the first one is added (once for every stored locality of that priority), so
  that the others are lost although the handler reports success.\<close>

theorem merge_endpoints_keeps:
  assumes "i < length (es_Endpoints stored)"
  shows "let old = es_Endpoints stored ! i; new = es_Endpoints (merge_endpoints stored loc lb) ! i
    in lbe_Priority new = lbe_Priority old \<and>
       lbe_LbEndpoints new = lbe_LbEndpoints old @ (if lbe_Priority old = lbe_Priority loc then [lb] else []) \<and>
       length (es_Endpoints (merge_endpoints stored loc lb)) = length (es_Endpoints stored) +
         (if \<exists>p \<in> set (es_Endpoints stored). lbe_Priority p = lbe_Priority loc then 0 else 1)"
  using assms by (auto simp: merge_endpoints_def Let_def nth_append list_ex_iff)

definition lb_at :: "string \<Rightarrow> EndpointConfigType" where
  "lb_at ip = \<lparr>ep_Endpoint = \<lparr>ev2_Address = \<lparr>ea_SocketAddress =
     \<lparr>sa_Address = ip, sa_PortValue = 80\<rparr>\<rparr>\<rparr>, ep_LoadBalancingWeight = None\<rparr>"

theorem merge_endpoints_keeps_witness:
  "lbe_LbEndpoints (es_Endpoints (merge_endpoints (sample_endpoints 80)
      \<lparr>lbe_Priority = 1, lbe_LbEndpoints = [lb_at ''10.0.0.2'', lb_at ''10.0.0.3'']\<rparr> (lb_at ''10.0.0.2'')) ! 0) =
    lbe_LbEndpoints (es_Endpoints (sample_endpoints 80) ! 0) @ [lb_at ''10.0.0.2'']"
  using merge_endpoints_keeps [of 0 "sample_endpoints 80"
      "\<lparr>lbe_Priority = 1, lbe_LbEndpoints = [lb_at ''10.0.0.2'', lb_at ''10.0.0.3'']\<rparr>" "lb_at ''10.0.0.2''"]
  by (simp add: sample_endpoints_def Let_def)

section \<open>Listings\<close>

lemma fold_items: "fold (\<lambda>item res. res @ item @ '','') items header = header @ concat (map (\<lambda>i. i @ '','') items)"
  by (induction items arbitrary: header) auto

lemma concat_commas: "items \<noteq> [] \<Longrightarrow> concat (map (\<lambda>i. i @ '','') items) = go_join items '','' @ '',''"
  by (induction items rule: induct_list012) auto

lemma list_json_eq:
  assumes "length header = limit"
  shows "list_json header limit items = header @ go_join items '','' @ ''] }''"
proof (cases "items = []")
  case True
  then show ?thesis using assms by (simp add: list_json_def)
next
  case False
  then show ?thesis using assms by (simp add: list_json_def fold_items concat_commas Let_def butlast_conv_take [symmetric])
qed

text \<open>The listings of listeners, clusters and endpoints are the JSON list of the selected resources:
  the three constants the handlers cut the last comma by are the lengths of their headers, so
  the texts are those of joining the items with commas, for any number of items, none included.\<close>

theorem api_listing_is_join:
  assumes "load_docs env docs = Inr (res, err)"
  shows "GetConfigListeners env ljson docs name = Inr (''{ \"listeners\": ['' @
      go_join (map ljson (filter (\<lambda>e. selected name (lst_Name e)) (nr_Listeners res))) '','' @ ''] }'') \<and>
    GetConfigClusters env cjson docs name = Inr (''{ \"clusters\": ['' @
      go_join (map cjson (filter (\<lambda>e. selected name (cls_Name e)) (nr_Clusters res))) '','' @ ''] }'') \<and>
    GetConfigEndpoints env ejson docs name = Inr (''{ \"endpoints\": ['' @
      go_join (map ejson (filter (\<lambda>e. selected name (cla_ClusterName e)) (nr_Endpoints res))) '','' @ ''] }'')"
  using assms
  by (simp add: GetConfigListeners_def GetConfigClusters_def GetConfigEndpoints_def list_json_eq)

theorem api_listing_is_join_witness:
  "GetConfigListeners sample_env (\<lambda>l. '' '' @ lst_Name l) n1_docs ''/'' = Inr ''{ \"listeners\": [ tcp] }''"
proof -
  obtain res err where run: "load_docs sample_env n1_docs = Inr (res, err)"
    using load_docs_returns [of sample_env n1_docs] by auto
  then have "map lst_Name (nr_Listeners res) = [''tcp'']"
    unfolding load_docs_def LoadNode_def Let_def
    by (auto simp: go_simps n1_docs_def decoded_def sample_listener_def dest!: parseListener_name)
  then obtain l where "nr_Listeners res = [l]" "lst_Name l = ''tcp''" by auto
  with api_listing_is_join [OF run, of "\<lambda>l. '' '' @ lst_Name l" "''/''"] show ?thesis
    by (simp add: selected_def)
qed

text \<open>What a query of the rate limits relies on: it finds entries with the wanted domain only.\<close>

definition finds_matching :: "'w rapi_env \<Rightarrow> bool" where
  "finds_matching env \<longleftrightarrow> (\<forall>q w docs. fst (find_ratelimits env q w) = Inr docs \<longrightarrow>
     (\<forall>e d. Some e \<in> set docs \<longrightarrow> (''domain'', d) \<in> set q \<longrightarrow> rl_Domain e = d))"

lemma decoded_in: "e \<in> set (decode_all (\<lambda>d. d) docs) \<Longrightarrow> Some e \<in> set docs"
  by (induction docs) (auto split: option.splits)

text \<open>Asking for the rate limits of one domain never lists any: the route hands the handler the
  domain with its leading slash, and no stored entry has a domain that starts with one.\<close>

theorem api_domain_listing_empty:
  assumes "finds_matching env"
    and "\<And>q docs e. fst (find_ratelimits env q (api_world st)) = Inr docs \<Longrightarrow> Some e \<in> set docs \<Longrightarrow>
      \<not> has_prefix (rl_Domain e) ''/''"
    and "domain \<noteq> []"
  shows "api_replies (GetRateLimit env (''/'' @ domain) st) = api_replies st @ [JSON_RateLimits []]"
proof -
  let ?q = "[(''domain'', ''/'' @ domain)]"
  obtain found w where found: "find_ratelimits env ?q (api_world st) = (found, w)"
    by (cases "find_ratelimits env ?q (api_world st)")
  have "decoded found = []"
  proof (cases found)
    case (Inr docs)
    have False if e: "e \<in> set (decoded found)" for e
    proof -
      from e Inr have "Some e \<in> set docs" by (simp add: decoded_def decoded_in)
      moreover from this have "rl_Domain e = ''/'' @ domain"
        using assms(1) found Inr unfolding finds_matching_def
        by (metis fst_conv list.set_intros(1))
      ultimately show False
        using assms(2) [of ?q docs e] found Inr by (simp add: has_prefix_def)
    qed
    then show ?thesis by (metis list.set_intros(1) neq_Nil_conv)
  qed (simp add: decoded_def)
  with found assms(3) show ?thesis by (simp add: GetRateLimit_def)
qed

definition one_limit_env :: "unit rapi_env" where
  "one_limit_env = accept_env\<lparr>find_ratelimits := (\<lambda>q w.
     (Inr (if q = [] \<or> q = [(''domain'', ''web'')] then
        [Some \<lparr>rl_Domain = ''web'', rl_Key = ''k'', rl_Value = ''v'', rl_Limit = 5, rl_Unit = ''minute'',
               rl_StripDomain = False\<rparr>] else []), w))\<rparr>"

theorem api_domain_listing_empty_witness:
  "api_replies (GetRateLimit one_limit_env ''/web'' fresh) = [JSON_RateLimits []]"
proof -
  have "finds_matching one_limit_env"
    by (auto simp: finds_matching_def one_limit_env_def split: if_splits)
  moreover have "\<not> has_prefix (rl_Domain e) ''/''"
    if "fst (find_ratelimits one_limit_env q (api_world fresh)) = Inr docs" "Some e \<in> set docs" for q docs e
    using that by (auto simp: one_limit_env_def has_prefix_def split: if_splits)
  moreover have "''web'' \<noteq> []" by simp
  ultimately have "api_replies (GetRateLimit one_limit_env (''/'' @ ''web'') fresh) =
      api_replies fresh @ [JSON_RateLimits []]"
    by (rule api_domain_listing_empty)
  then show ?thesis by (simp add: fresh_def)
qed

text \<open>The status handler says "consistent" for a node exactly if the control plane, loading the
  same documents, hands a snapshot to its cache, provided that making a snapshot and its
  consistency do not depend on the version text.\<close>

theorem api_status_agrees:
  assumes "\<And>v v' res. map_option (Consistent env) (NewSnapshot env v res) = map_option (Consistent env) (NewSnapshot env v' res)"
    and "docs_ok docs"
  shows "GetConfigStatus env docs node = Inr (Some (JSON 200 ''consistent'')) \<longleftrightarrow>
    loadNodeConfig env docs node v calls \<noteq> Inr calls"
proof -
  obtain res err where run: "load_docs (cp_loader env) docs = Inr (res, err)"
    using assms(2) load_docs_returns [of "cp_loader env" docs] by auto
  then have err: "err = None" unfolding load_docs_def by (rule LoadNode_no_error)
  have "map_option (Consistent env) (NewSnapshot env node res) = map_option (Consistent env) (NewSnapshot env v res)"
    by (rule assms(1))
  then show ?thesis
    using run err
    by (cases "NewSnapshot env node res"; cases "NewSnapshot env v res")
      (auto simp: GetConfigStatus_def loadNodeConfig_def)
qed

theorem api_status_agrees_witness:
  "GetConfigStatus sample_cp n1_docs ''n1'' = Inr (Some (JSON 200 ''consistent'')) \<longleftrightarrow>
     loadNodeConfig sample_cp n1_docs ''n1'' ''v1'' [] \<noteq> Inr []"
  by (rule api_status_agrees) (simp_all add: sample_cp_def)

end
