(* ===== verification/GoIO.thy ===== *)
theory GoIO
  imports GoStrings
begin

text \<open>
  Reading lines and numbers, as the live handlers of the API and the node agent do it: Go's
  \<open>ReadString('\n')\<close> on a buffer and on the body of an HTTP response, the two shapes of loop
  around it, \<open>strconv.Atoi\<close> and \<open>strconv.ParseUint\<close> with the error dropped, and the verb
  \<open>%d\<close> of \<open>fmt\<close>.
\<close>

section \<open>Reading a line\<close>

definition newline :: char where
  "newline = CHR 0x0A"

lemma newline_not_colon [simp]: "newline \<noteq> CHR '':''" "CHR '':'' \<noteq> newline"
  by (simp_all add: newline_def)

text \<open>The line read, whether it came with an error (no newline was found), and what is left.\<close>

fun read_string :: "string \<Rightarrow> string \<times> bool \<times> string" where
  "read_string [] = ([], True, [])"
| "read_string (c # s) =
     (if c = newline then ([c], False, s)
      else (case read_string s of (line, err, rest) \<Rightarrow> (c # line, err, rest)))"

lemma read_string_shorter: "read_string buf = (line, False, rest) \<Longrightarrow> length rest < length buf"
  by (induction buf arbitrary: line) (auto split: if_splits prod.splits)

lemma read_string_error: "read_string buf = (line, True, rest) \<Longrightarrow> line = buf \<and> rest = []"
  by (induction buf arbitrary: line) (auto split: if_splits prod.splits)

text \<open>A line read without an error ends in the only newline it has.\<close>

lemma read_string_line:
  "read_string buf = (line, False, rest) \<Longrightarrow>
     \<exists>l. line = l @ [newline] \<and> newline \<notin> set l \<and> buf = l @ newline # rest"
proof (induction buf arbitrary: line)
  case (Cons c buf)
  show ?case
  proof (cases "c = newline")
    case False
    with Cons obtain line' where "read_string buf = (line', False, rest)" and "line = c # line'"
      by (auto split: prod.splits)
    with Cons.IH [of line'] False show ?thesis by (metis append_Cons insert_iff list.set(2))
  qed (use Cons in auto)
qed simp

lemma read_string_append:
  "newline \<notin> set l \<Longrightarrow> read_string (l @ newline # rest) = (l @ [newline], False, rest)"
  by (induction l) auto

lemma read_string_no_newline: "newline \<notin> set s \<Longrightarrow> read_string s = (s, True, [])"
  by (induction s) auto

text \<open>The complete lines of a text, each with its newline.\<close>

function complete_lines :: "string \<Rightarrow> string list" where
  "complete_lines buf =
     (case read_string buf of (line, err, rest) \<Rightarrow> if err then [] else line # complete_lines rest)"
  by pat_completeness auto
termination
  by (relation "measure length") (auto intro: read_string_shorter dest: sym)

declare complete_lines.simps [simp del]

lemma complete_lines_no_newline: "newline \<notin> set s \<Longrightarrow> complete_lines s = []"
  by (subst complete_lines.simps) (simp add: read_string_no_newline)

lemma complete_lines_Nil [simp]: "complete_lines [] = []"
  by (simp add: complete_lines_no_newline)

lemma complete_lines_append:
  "newline \<notin> set l \<Longrightarrow> complete_lines (l @ newline # s) = (l @ [newline]) # complete_lines s"
  by (subst complete_lines.simps) (simp add: read_string_append)

text \<open>Every complete line is a text without a newline, then a newline.\<close>

lemma complete_lines_form:
  "line \<in> set (complete_lines buf) \<Longrightarrow> \<exists>l. line = l @ [newline] \<and> newline \<notin> set l"
proof (induction buf rule: complete_lines.induct)
  case (1 buf)
  obtain l err rest where r: "read_string buf = (l, err, rest)" by (cases "read_string buf")
  have "\<not> err \<and> (line = l \<or> line \<in> set (complete_lines rest))"
    using "1.prems" r by (subst (asm) complete_lines.simps) (auto split: if_splits)
  then show ?case using "1.IH" [OF r [symmetric] refl] read_string_line [of buf l rest] r by auto
qed

text \<open>Texts written as lines are read back, and an incomplete last line is not seen.\<close>

lemma complete_lines_concat:
  assumes "\<forall>l \<in> set ls. newline \<notin> set l" and "newline \<notin> set tail"
  shows "complete_lines (concat (map (\<lambda>l. l @ [newline]) ls) @ tail) = map (\<lambda>l. l @ [newline]) ls"
  using assms by (induction ls) (simp_all add: complete_lines_no_newline complete_lines_append)

section \<open>Loops over a buffer\<close>

text \<open>\<open>for line, err := out.ReadString('\n'); err == nil; line, err = out.ReadString('\n') { \<dots> }\<close>\<close>

function for_lines :: "(string \<Rightarrow> 's \<Rightarrow> 's go) \<Rightarrow> string \<Rightarrow> 's \<Rightarrow> 's go" where
  "for_lines body buf s =
     (case read_string buf of (line, err, rest) \<Rightarrow>
        if err then Inr s
        else (case body line s of Inl p \<Rightarrow> Inl p | Inr s' \<Rightarrow> for_lines body rest s'))"
  by pat_completeness auto
termination
  by (relation "measure (\<lambda>(body, buf, s). length buf)") (auto intro: read_string_shorter dest: sym)

declare for_lines.simps [simp del]

lemma for_lines_eq: "for_lines body buf s = foldM body (complete_lines buf) s"
proof (induction body buf s rule: for_lines.induct)
  case (1 body buf s)
  then show ?case
    by (subst for_lines.simps, subst complete_lines.simps)
      (auto simp: bind_go_def split: prod.splits sum.splits)
qed

section \<open>Loops over a response body\<close>

text \<open>
  What ends a body: the end of the text, or another error (a time-out, a reset connection),
  which every later read reports again.
\<close>

datatype body_end = EOF | Broken

record body =
  bd_text :: string
  bd_end :: body_end

text \<open>
  \<open>for { line, lerr := reader.ReadString('\n'); if lerr == io.EOF { break }; \<dots> }\<close>: only the end
  of the text leaves the loop.  \<open>None\<close> is a loop that runs for ever.
\<close>

partial_function (option) read_loop ::
    "(string \<Rightarrow> 's \<Rightarrow> 's go) \<Rightarrow> body_end \<Rightarrow> string \<Rightarrow> 's \<Rightarrow> 's go option" where
  "read_loop step fin buf s =
     (case read_string buf of (line, err, rest) \<Rightarrow>
        if err \<and> fin = EOF then Some (Inr s)
        else (case step line s of Inl p \<Rightarrow> Some (Inl p) | Inr s' \<Rightarrow> read_loop step fin rest s'))"

declare read_loop.simps [code]

text \<open>A body that ends is read to its end: the loop's result is that of its complete lines.\<close>

lemma read_loop_EOF: "read_loop step EOF buf s = Some (foldM step (complete_lines buf) s)"
proof (induction buf arbitrary: s rule: complete_lines.induct)
  case (1 buf)
  obtain line err rest where r: "read_string buf = (line, err, rest)" by (cases "read_string buf")
  show ?case
  proof (cases err)
    case True
    then show ?thesis
      by (subst read_loop.simps, subst complete_lines.simps) (simp add: r)
  next
    case False
    have "read_loop step EOF rest s' = Some (foldM step (complete_lines rest) s')" for s'
      by (rule 1 [OF r [symmetric] refl False])
    with False r show ?thesis
      by (subst read_loop.simps, subst complete_lines.simps) (auto simp: bind_go_def split: sum.splits)
  qed
qed

text \<open>A broken body is read for ever once an empty line changes nothing.\<close>

lemma read_loop_spins:
  assumes "step [] s = Inr s"
  shows "read_loop step Broken [] s = None"
proof -
  have "\<not> (fin = Broken \<and> buf = [] \<and> step [] t = Inr t)"
    if "read_loop step fin buf t = Some r" for step fin and buf :: string and t :: 'a and r
    by (rule read_loop.raw_induct [OF _ that]) (auto split: prod.splits)
  with assms show ?thesis by (cases "read_loop step Broken [] s") auto
qed

lemma read_loop_Broken_Nil:
  "read_loop step Broken [] s = (case step [] s of Inl p \<Rightarrow> Some (Inl p) | Inr s' \<Rightarrow> read_loop step Broken [] s')"
  by (subst read_loop.simps) simp

text \<open>What is read of a broken body before the empty lines: the complete lines, then the rest.\<close>

function broken_lines :: "string \<Rightarrow> string list" where
  "broken_lines buf =
     (case read_string buf of (line, err, rest) \<Rightarrow>
        if err then (if line = [] then [] else [line]) else line # broken_lines rest)"
  by pat_completeness auto
termination
  by (relation "measure length") (auto intro: read_string_shorter dest: sym)

declare broken_lines.simps [simp del]

lemma read_loop_Broken:
  "read_loop step Broken buf s =
     (case foldM step (broken_lines buf) s of Inl p \<Rightarrow> Some (Inl p) | Inr s' \<Rightarrow> read_loop step Broken [] s')"
proof (induction buf arbitrary: s rule: broken_lines.induct)
  case (1 buf)
  obtain line err rest where r: "read_string buf = (line, err, rest)" by (cases "read_string buf")
  show ?case
  proof (cases err)
    case True
    with r have [simp]: "line = buf" "rest = []" using read_string_error by auto
    show ?thesis
    proof (cases "buf = []")
      case True
      then show ?thesis by (simp add: broken_lines.simps)
    next
      case False
      with r \<open>err\<close> show ?thesis
        by (subst read_loop.simps, subst broken_lines.simps) (auto split: sum.splits)
    qed
  next
    case False
    have IH: "read_loop step Broken rest s' =
        (case foldM step (broken_lines rest) s' of Inl p \<Rightarrow> Some (Inl p) | Inr s' \<Rightarrow> read_loop step Broken [] s')"
      for s' by (rule 1 [OF r [symmetric] refl False])
    show ?thesis
      by (subst read_loop.simps, subst broken_lines.simps) (simp add: r False IH split: sum.splits)
  qed
qed

section \<open>Splitting at a doubled byte\<close>

text \<open>No two adjacent bytes \<open>d\<close> and none at the end: such a piece survives splitting at \<open>dd\<close>.\<close>

fun clean :: "char \<Rightarrow> string \<Rightarrow> bool" where
  "clean d [] = True"
| "clean d [c] = (c \<noteq> d)"
| "clean d (a # b # x) = ((a \<noteq> d \<or> b \<noteq> d) \<and> clean d (b # x))"

lemma has_prefix_double:
  "has_prefix (c # s) [d, d] \<longleftrightarrow> c = d \<and> (\<exists>t. s = d # t)"
  by (cases s) (auto simp: has_prefix_def)

lemma split_from_double:
  "clean d x \<Longrightarrow> split_from [d, d] acc (x @ d # d # s) = (rev acc @ x) # split_from [d, d] [] s"
  by (induction d x arbitrary: acc rule: clean.induct) (auto simp: has_prefix_double)

lemma go_split_double: "clean d x \<Longrightarrow> go_split (x @ d # d # s) [d, d] = x # go_split s [d, d]"
  by (simp add: go_split_def split_from_double)

lemma split_from_double_last: "clean d x \<Longrightarrow> split_from [d, d] acc x = [rev acc @ x]"
  by (induction d x arbitrary: acc rule: clean.induct) (auto simp: has_prefix_double)

lemma go_split_double_last: "clean d x \<Longrightarrow> go_split x [d, d] = [x]"
  by (simp add: go_split_def split_from_double_last)

lemma clean_notin: "d \<notin> set x \<Longrightarrow> clean d x"
  by (induction d x rule: clean.induct) auto

text \<open>\<open>strings.TrimSuffix(line, "\n")\<close> on a line.\<close>

lemma trim_suffix_append [simp]: "trim_suffix (s @ p) p = s"
  by (simp add: trim_suffix_def)

section \<open>Numbers\<close>

definition is_digit :: "char \<Rightarrow> bool" where
  "is_digit c \<longleftrightarrow> 48 \<le> (of_char c :: nat) \<and> (of_char c :: nat) \<le> 57"

text \<open>
  The value of \<open>strconv.ParseUint(s, 10, bits)\<close>, its error dropped: 0 at a byte that is no
  digit, the largest value as soon as the number grows past it.
\<close>

fun parse_uint_from :: "nat \<Rightarrow> nat \<Rightarrow> string \<Rightarrow> nat" where
  "parse_uint_from max_val n [] = n"
| "parse_uint_from max_val n (c # s) =
     (if \<not> is_digit c then 0
      else let n1 = 10 * n + (of_char c - 48)
           in if n1 > max_val then max_val else parse_uint_from max_val n1 s)"

definition parse_uint :: "nat \<Rightarrow> string \<Rightarrow> nat" where
  "parse_uint bits s = parse_uint_from (2 ^ bits - 1) 0 s"

text \<open>The value of \<open>strconv.Atoi(s)\<close>, its error dropped.\<close>

definition atoi :: "string \<Rightarrow> int" where
  "atoi s =
     (let neg = has_prefix s ''-'';
          un = parse_uint 64 (if neg \<or> has_prefix s ''+'' then drop 1 s else s)
      in if \<not> neg \<and> un \<ge> 2 ^ 63 then 2 ^ 63 - 1
         else if neg \<and> un > 2 ^ 63 then - (2 ^ 63)
         else if neg then - int un else int un)"

lemma is_digit_digit_char: "n < 10 \<Longrightarrow> is_digit (digit_char n)"
  by (simp add: is_digit_def of_char_digit)

lemma digits_grow: "v \<le> foldl (\<lambda>v c. 10 * v + (of_char c - 48)) v s" for v :: nat
proof (induction s arbitrary: v)
  case (Cons a s)
  have "v \<le> 10 * v + (of_char a - 48)" by simp
  also have "\<dots> \<le> foldl (\<lambda>v c. 10 * v + (of_char c - 48)) v (a # s)" using Cons by simp
  finally show ?case .
qed simp

lemma parse_uint_from_append:
  assumes "\<forall>c \<in> set s. is_digit c"
  shows "parse_uint_from m n (s @ t) =
    (if foldl (\<lambda>v c. 10 * v + (of_char c - 48)) n s \<le> m \<or> s = []
     then parse_uint_from m (foldl (\<lambda>v c. 10 * v + (of_char c - 48)) n s) t else m)"
  using assms
proof (induction s arbitrary: n)
  case (Cons c s)
  from Cons show ?case
    using digits_grow [of "10 * n + (of_char c - 48)" s] by (auto simp: Let_def not_le intro: less_le_trans)
qed simp

lemma format_uint_digits: "c \<in> set (format_uint n) \<Longrightarrow> is_digit c"
proof (induction n rule: format_uint.induct)
  case (1 n)
  then show ?case
    by (subst (asm) (2) format_uint.simps) (auto simp: is_digit_digit_char split: if_splits)
qed

lemma format_uint_nonempty [simp]: "format_uint n \<noteq> []"
  by (subst format_uint.simps) simp

text \<open>A number printed in decimal is read back, and saturates when it does not fit.\<close>

lemma parse_uint_format: "parse_uint bits (format_uint n) = min n (2 ^ bits - 1)"
  using parse_uint_from_append [of "format_uint n" "2 ^ bits - 1" 0 "[]"] format_uint_digits
    digits_value_format_uint [of n]
  by (auto simp: parse_uint_def digits_value_def)

text \<open>\<open>%d\<close>, and \<open>%.2d\<close> for the parts of a date.\<close>

definition format_int :: "int \<Rightarrow> string" where
  "format_int i = (if i < 0 then ''-'' @ format_uint (nat (- i)) else format_uint (nat i))"

definition format_2d :: "nat \<Rightarrow> string" where
  "format_2d n = (if n < 10 then ''0'' @ format_uint n else format_uint n)"

lemma format_uint_chars:
  assumes "\<not> is_digit c"
  shows "c \<notin> set (format_uint n)"
  using assms format_uint_digits by auto

lemma format_int_chars: "\<not> is_digit c \<Longrightarrow> c \<noteq> CHR ''-'' \<Longrightarrow> c \<notin> set (format_int i)"
  by (simp add: format_int_def format_uint_chars)

lemma atoi_format_uint:
  assumes "n < 2 ^ 63"
  shows "atoi (format_uint n) = int n"
proof -
  have "\<not> has_prefix (format_uint n) [c]" if "\<not> is_digit c" for c
    using format_uint_chars [OF that, of n] by (cases "format_uint n") auto
  then have "\<not> has_prefix (format_uint n) ''-''" "\<not> has_prefix (format_uint n) ''+''"
    by (simp_all add: is_digit_def)
  with assms show ?thesis by (simp add: atoi_def parse_uint_format Let_def min_def)
qed

end
