(* ===== verification/AccessLog.thy ===== *)
theory AccessLog
  imports ExtAuth GoIO "HOL-Library.Finite_Map"
begin

text \<open>
  The entries of the access-log server (\<open>accesslogs/accesslog.go\<close>): the parts of Envoy's log
  messages it reads, the flat entries it makes of them, and the conversion in the body of
  \<open>StreamAccessLogs\<close>.  A header map is a finite map; the order in which Go's \<open>range\<close> visits a
  map is a parameter.
\<close>

section \<open>Envoy's messages\<close>

text \<open>Protobuf durations and time stamps: an \<open>int64\<close> of seconds and an \<open>int32\<close> of nanoseconds.\<close>

record pb_duration =
  pb_Seconds :: "64 word"
  pb_Nanos :: "32 word"

record AccessLogCommon =
  co_DownstreamRemoteAddress :: "core_address option"
  co_UpstreamRemoteAddress :: "core_address option"
  co_StartTime :: "pb_duration option"
  co_TimeToLastRxByte :: "pb_duration option"
  co_TimeToFirstUpstreamTxByte :: "pb_duration option"
  co_TimeToLastUpstreamTxByte :: "pb_duration option"
  co_TimeToFirstUpstreamRxByte :: "pb_duration option"
  co_TimeToLastUpstreamRxByte :: "pb_duration option"
  co_TimeToFirstDownstreamTxByte :: "pb_duration option"
  co_TimeToLastDownstreamTxByte :: "pb_duration option"
  co_UpstreamCluster :: string
  co_RouteName :: string

type_synonym header_map = "(string, string) fmap"

record HTTPRequestProperties =
  rp_RequestMethod :: "32 word"
  rp_Scheme :: string
  rp_Authority :: string
  rp_Path :: string
  rp_UserAgent :: string
  rp_Referer :: string
  rp_RequestId :: string
  rp_RequestHeadersBytes :: u64
  rp_RequestBodyBytes :: u64
  rp_RequestHeaders :: header_map

record HTTPResponseProperties =
  sp_ResponseCode :: "u32 option"
  sp_ResponseHeadersBytes :: u64
  sp_ResponseBodyBytes :: u64
  sp_ResponseHeaders :: header_map
  sp_ResponseCodeDetails :: string

record HTTPAccessLogEntry =
  he_CommonProperties :: "AccessLogCommon option"
  he_Request :: "HTTPRequestProperties option"
  he_Response :: "HTTPResponseProperties option"

record TCPAccessLogEntry =
  te_CommonProperties :: "AccessLogCommon option"

text \<open>The empty messages the code puts in place of missing ones.\<close>

definition empty_common :: AccessLogCommon where
  "empty_common = \<lparr>co_DownstreamRemoteAddress = None, co_UpstreamRemoteAddress = None,
     co_StartTime = None, co_TimeToLastRxByte = None, co_TimeToFirstUpstreamTxByte = None,
     co_TimeToLastUpstreamTxByte = None, co_TimeToFirstUpstreamRxByte = None,
     co_TimeToLastUpstreamRxByte = None, co_TimeToFirstDownstreamTxByte = None,
     co_TimeToLastDownstreamTxByte = None, co_UpstreamCluster = [], co_RouteName = []\<rparr>"

definition empty_request :: HTTPRequestProperties where
  "empty_request = \<lparr>rp_RequestMethod = 0, rp_Scheme = [], rp_Authority = [], rp_Path = [],
     rp_UserAgent = [], rp_Referer = [], rp_RequestId = [], rp_RequestHeadersBytes = 0,
     rp_RequestBodyBytes = 0, rp_RequestHeaders = fmempty\<rparr>"

definition empty_response :: HTTPResponseProperties where
  "empty_response = \<lparr>sp_ResponseCode = None, sp_ResponseHeadersBytes = 0, sp_ResponseBodyBytes = 0,
     sp_ResponseHeaders = fmempty, sp_ResponseCodeDetails = []\<rparr>"

section \<open>The entries that are stored\<close>

text \<open>A \<open>time.Time\<close>: its Unix seconds and the nanoseconds after them.\<close>

record go_time =
  t_Unix :: "64 word"
  t_Nanosecond :: nat

text \<open>\<open>time.Time{}\<close> is the first of January of the year 1.\<close>

definition zero_time :: go_time where
  "zero_time = \<lparr>t_Unix = word_of_int (- 62135596800), t_Nanosecond = 0\<rparr>"

text \<open>\<open>time.Unix(sec, nsec)\<close> carries nanoseconds outside of a second over.\<close>

definition time_Unix :: "64 word \<Rightarrow> int \<Rightarrow> go_time" where
  "time_Unix sec nsec = \<lparr>t_Unix = sec + word_of_int (nsec div 10 ^ 9),
     t_Nanosecond = nat (nsec mod 10 ^ 9)\<rparr>"

record HTTPLogEntry =
  hl_Method :: string
  hl_Scheme :: string
  hl_Host :: string
  hl_Path :: string
  hl_UserAgent :: string
  hl_Referer :: string
  hl_RequestId :: string
  hl_RequestHeaderBytes :: u64
  hl_RequestHeaders :: header_map
  hl_RequestBodyBytes :: u64
  hl_ResponseCode :: u32
  hl_ResponseHeaderBytes :: u64
  hl_ResponseHeaders :: header_map
  hl_ResponseBodyBytes :: u64
  hl_ResponseDetails :: string
  hl_DownstreamRemoteAddress :: string
  hl_StartTime :: go_time
  hl_TimeToLastRxByte :: u32
  hl_TimeToFirstUpstreamTxByte :: u32
  hl_TimeToLastUpstreamTxByte :: u32
  hl_TimeToFirstUpstreamRxByte :: u32
  hl_TimeToLastUpstreamRxByte :: u32
  hl_TimeToFirstDownstreamTxByte :: u32
  hl_TimeToLastDownstreamTxByte :: u32
  hl_UpstreamRemoteAddress :: string
  hl_UpstreamCluster :: string
  hl_RouteName :: string

record TCPLogEntry =
  tl_DownstreamRemoteAddress :: string
  tl_StartTime :: go_time
  tl_TimeToLastRxByte :: u32
  tl_TimeToFirstUpstreamTxByte :: u32
  tl_TimeToLastUpstreamTxByte :: u32
  tl_TimeToFirstUpstreamRxByte :: u32
  tl_TimeToLastUpstreamRxByte :: u32
  tl_TimeToFirstDownstreamTxByte :: u32
  tl_TimeToLastDownstreamTxByte :: u32
  tl_UpstreamRemoteAddress :: string
  tl_UpstreamCluster :: string

section \<open>Conversion\<close>

text \<open>The generated table of method names, and the order of \<open>range\<close> over a header map.\<close>

record convert_env =
  RequestMethod_name :: "32 word \<Rightarrow> string option"
  range_order :: "header_map \<Rightarrow> (string \<times> string) list"

text \<open>A remote address is logged if it is a socket address.\<close>

definition log_address :: "core_address option \<Rightarrow> string go" where
  "log_address a =
     (case a of
        None \<Rightarrow> Inr []
      | Some addr \<Rightarrow>
          (case ca_Address addr of
             Some (Address_SocketAddress sa) \<Rightarrow> deref sa
           | _ \<Rightarrow> Inr []))"

definition log_start_time :: "pb_duration option \<Rightarrow> go_time" where
  "log_start_time t =
     (case t of None \<Rightarrow> zero_time | Some ts \<Rightarrow> time_Unix (pb_Seconds ts) (sint (pb_Nanos ts)))"

text \<open>\<open>uint32(d.Seconds)*1000000000 + uint32(d.Nanos)\<close>, in 32-bit arithmetic.\<close>

definition log_duration :: "pb_duration option \<Rightarrow> u32" where
  "log_duration t =
     (case t of None \<Rightarrow> 0 | Some d \<Rightarrow> to_u32 (pb_Seconds d) * 1000000000 + pb_Nanos d)"

text \<open>\<open>for k, v := range m { copy[k] = v }\<close> into a new map.\<close>

definition copy_headers :: "convert_env \<Rightarrow> header_map \<Rightarrow> header_map" where
  "copy_headers env m = fold (\<lambda>(k, v) c. fmupd k v c) (range_order env m) fmempty"

definition http_log_entry :: "convert_env \<Rightarrow> HTTPAccessLogEntry \<Rightarrow> HTTPLogEntry go" where
  "http_log_entry env entry =
     (let common = (case he_CommonProperties entry of None \<Rightarrow> empty_common | Some c \<Rightarrow> c);
          req = (case he_Request entry of None \<Rightarrow> empty_request | Some r \<Rightarrow> r);
          resp = (case he_Response entry of None \<Rightarrow> empty_response | Some r \<Rightarrow> r);
          code = (case sp_ResponseCode resp of None \<Rightarrow> 0 | Some c \<Rightarrow> c)
      in bind_go (log_address (co_DownstreamRemoteAddress common)) (\<lambda>downstream.
         bind_go (log_address (co_UpstreamRemoteAddress common)) (\<lambda>upstream.
         Inr \<lparr>hl_Method = (case RequestMethod_name env (rp_RequestMethod req) of None \<Rightarrow> [] | Some m \<Rightarrow> m),
           hl_Scheme = rp_Scheme req, hl_Host = rp_Authority req, hl_Path = rp_Path req,
           hl_UserAgent = rp_UserAgent req, hl_Referer = rp_Referer req,
           hl_RequestId = rp_RequestId req, hl_RequestHeaderBytes = rp_RequestHeadersBytes req,
           hl_RequestHeaders = copy_headers env (rp_RequestHeaders req),
           hl_RequestBodyBytes = rp_RequestBodyBytes req, hl_ResponseCode = code,
           hl_ResponseHeaderBytes = sp_ResponseHeadersBytes resp,
           hl_ResponseHeaders = copy_headers env (sp_ResponseHeaders resp),
           hl_ResponseBodyBytes = sp_ResponseBodyBytes resp,
           hl_ResponseDetails = sp_ResponseCodeDetails resp,
           hl_DownstreamRemoteAddress = downstream,
           hl_StartTime = log_start_time (co_StartTime common),
           hl_TimeToLastRxByte = log_duration (co_TimeToLastRxByte common),
           hl_TimeToFirstUpstreamTxByte = log_duration (co_TimeToFirstUpstreamTxByte common),
           hl_TimeToLastUpstreamTxByte = log_duration (co_TimeToLastUpstreamTxByte common),
           hl_TimeToFirstUpstreamRxByte = log_duration (co_TimeToFirstUpstreamRxByte common),
           hl_TimeToLastUpstreamRxByte = log_duration (co_TimeToLastUpstreamRxByte common),
           hl_TimeToFirstDownstreamTxByte = log_duration (co_TimeToFirstDownstreamTxByte common),
           hl_TimeToLastDownstreamTxByte = log_duration (co_TimeToLastDownstreamTxByte common),
           hl_UpstreamRemoteAddress = upstream, hl_UpstreamCluster = co_UpstreamCluster common,
           hl_RouteName = co_RouteName common\<rparr>)))"

text \<open>
  The TCP branch reads \<open>common.UpstreamCluster\<close> before it tests \<open>common\<close> for nil, so the test
  never succeeds.
\<close>

definition tcp_log_entry :: "TCPAccessLogEntry \<Rightarrow> TCPLogEntry go" where
  "tcp_log_entry entry =
     bind_go (deref (te_CommonProperties entry)) (\<lambda>common.
     bind_go (log_address (co_DownstreamRemoteAddress common)) (\<lambda>downstream.
     bind_go (log_address (co_UpstreamRemoteAddress common)) (\<lambda>upstream.
     Inr \<lparr>tl_DownstreamRemoteAddress = downstream,
       tl_StartTime = log_start_time (co_StartTime common),
       tl_TimeToLastRxByte = log_duration (co_TimeToLastRxByte common),
       tl_TimeToFirstUpstreamTxByte = log_duration (co_TimeToFirstUpstreamTxByte common),
       tl_TimeToLastUpstreamTxByte = log_duration (co_TimeToLastUpstreamTxByte common),
       tl_TimeToFirstUpstreamRxByte = log_duration (co_TimeToFirstUpstreamRxByte common),
       tl_TimeToLastUpstreamRxByte = log_duration (co_TimeToLastUpstreamRxByte common),
       tl_TimeToFirstDownstreamTxByte = log_duration (co_TimeToFirstDownstreamTxByte common),
       tl_TimeToLastDownstreamTxByte = log_duration (co_TimeToLastDownstreamTxByte common),
       tl_UpstreamRemoteAddress = upstream, tl_UpstreamCluster = co_UpstreamCluster common\<rparr>)))"

section \<open>What the conversion does\<close>

text \<open>The order of \<open>range\<close> visits each entry of the map once.\<close>

definition ranges :: "(header_map \<Rightarrow> (string \<times> string) list) \<Rightarrow> bool" where
  "ranges order \<longleftrightarrow> (\<forall>m. map_of (order m) = fmlookup m \<and> distinct (map fst (order m)))"

lemma fold_fmupd:
  "distinct (map fst kvs) \<Longrightarrow>
     fmlookup (fold (\<lambda>(k, v) c. fmupd k v c) kvs m) = fmlookup m ++ map_of kvs"
proof (induction kvs arbitrary: m)
  case (Cons kv kvs)
  then have "map_of kvs (fst kv) = None" by (simp add: map_of_eq_None_iff)
  with Cons show ?case
    by (cases kv) (auto simp: fun_eq_iff map_add_def split: option.splits)
qed simp

lemma copy_headers_id: "ranges (range_order env) \<Longrightarrow> copy_headers env m = m"
  by (intro fmap_ext) (simp add: copy_headers_def ranges_def fold_fmupd map_add_def split: option.splits)

text \<open>
  A socket address without its message (which no decoded protobuf has) is the only one that
  cannot be logged.
\<close>

definition loggable :: "core_address option \<Rightarrow> bool" where
  "loggable a \<longleftrightarrow> (\<forall>addr. a = Some addr \<longrightarrow> ca_Address addr \<noteq> Some (Address_SocketAddress None))"

lemma log_address_returns: "(\<exists>s. log_address a = Inr s) \<longleftrightarrow> loggable a"
  by (auto simp: log_address_def loggable_def deref_def split: option.splits address_kind.splits)

definition common_ok :: "AccessLogCommon \<Rightarrow> bool" where
  "common_ok c \<longleftrightarrow> loggable (co_DownstreamRemoteAddress c) \<and> loggable (co_UpstreamRemoteAddress c)"

lemma empty_common_ok [simp]: "common_ok empty_common"
  by (simp add: common_ok_def empty_common_def loggable_def)

lemma http_log_entry_returns:
  "(\<exists>l. http_log_entry env e = Inr l) \<longleftrightarrow> (\<forall>c. he_CommonProperties e = Some c \<longrightarrow> common_ok c)"
proof -
  let ?c = "case he_CommonProperties e of None \<Rightarrow> empty_common | Some c \<Rightarrow> c"
  have "(\<exists>l. http_log_entry env e = Inr l) \<longleftrightarrow> common_ok ?c"
    unfolding common_ok_def log_address_returns [symmetric] by (auto simp: http_log_entry_def Let_def go_simps)
  then show ?thesis by (auto split: option.splits)
qed

lemma tcp_log_entry_returns:
  "(\<exists>l. tcp_log_entry e = Inr l) \<longleftrightarrow> (\<exists>c. te_CommonProperties e = Some c \<and> common_ok c)"
  unfolding common_ok_def log_address_returns [symmetric] by (auto simp: tcp_log_entry_def go_simps)

subsection \<open>Durations\<close>

text \<open>The length of a duration in nanoseconds.\<close>

definition nanoseconds :: "pb_duration \<Rightarrow> int" where
  "nanoseconds d = sint (pb_Seconds d) * 10 ^ 9 + sint (pb_Nanos d)"

lemma uint_to_u32: "uint (to_u32 x) = sint x mod 2 ^ 32"
proof -
  have "uint (to_u32 x) = take_bit 32 (uint x)" by (simp add: to_u32_def unsigned_ucast_eq)
  also have "\<dots> = take_bit 32 (sint x)"
    by (simp add: sint_uint take_bit_signed_take_bit)
  finally show ?thesis by (simp add: take_bit_eq_mod)
qed

lemma uint_sint_32: "uint x = sint x mod 2 ^ 32" for x :: "32 word"
  using uint_word_of_int [of "sint x", where 'a = 32] by simp

lemma mod_mult_add: "(a mod m * c + b mod m) mod m = (a * c + b) mod m" for a b c m :: int
  by (metis mod_add_left_eq mod_add_right_eq mod_mult_left_eq)

lemma log_duration_uint: "uint (log_duration (Some d)) = nanoseconds d mod 2 ^ 32"
proof -
  have "uint (log_duration (Some d)) = (uint (to_u32 (pb_Seconds d)) * 10 ^ 9 + uint (pb_Nanos d)) mod 2 ^ 32"
    by (simp add: log_duration_def uint_word_ariths mod_simps)
  also have "\<dots> = (sint (pb_Seconds d) mod 2 ^ 32 * 10 ^ 9 + sint (pb_Nanos d) mod 2 ^ 32) mod 2 ^ 32"
    by (simp only: uint_to_u32 uint_sint_32 [of "pb_Nanos d"])
  also have "\<dots> = nanoseconds d mod 2 ^ 32"
    unfolding nanoseconds_def by (rule mod_mult_add)
  finally show ?thesis .
qed

end
