(* ===== verification/AccessLogServer.thy ===== *)
theory AccessLogServer
  imports AccessLog Process
begin

text \<open>
  The log writer and the stream handler of \<open>accesslogs/accesslog.go\<close>: the choice of a back end in
  \<open>Init\<close>, the documents and statements that are sent to it, and the loop of
  \<open>StreamAccessLogs\<close>.  What is sent is a list of writes, in order; the answers of the back
  ends are only logged by the code.
\<close>

section \<open>The log writer\<close>

datatype BackendType = ES | CH

text \<open>The clients are the libraries' own; a nil client is \<open>None\<close>.\<close>

record ('es, 'bi, 'ch) LogWriter =
  lw_Es :: "'es option"
  lw_BI :: "'bi option"
  lw_BE :: BackendType
  lw_Ch :: "'ch option"

text \<open>The options handed to the libraries.  Times are in seconds.\<close>

record 'b es_config =
  ec_Addresses :: "string list"
  ec_RetryOnStatus :: "int list"
  ec_RetryBackoff :: "int \<Rightarrow> 'b \<Rightarrow> int \<times> 'b"
  ec_MaxRetries :: nat
  ec_Username :: string
  ec_Password :: string

record 'es bulk_config =
  bc_Index :: string
  bc_Client :: "'es option"
  bc_NumWorkers :: go_int
  bc_FlushBytes :: nat
  bc_FlushInterval :: nat

record ch_options =
  cho_Addr :: "string list"
  cho_Database :: string
  cho_Username :: string
  cho_Password :: string
  cho_DialTimeout :: nat
  cho_MaxOpenConns :: go_int
  cho_MaxIdleConns :: nat
  cho_ConnMaxLifetime :: nat

text \<open>The constructors of the libraries (\<open>Inl\<close>: an error) and the exponential back-off.\<close>

record ('es, 'bi, 'ch, 'b) client_env =
  NewClient_es :: "'b es_config \<Rightarrow> string + 'es"
  NewBulkIndexer :: "'es bulk_config \<Rightarrow> string + 'bi"
  Open_ch :: "ch_options \<Rightarrow> string + 'ch"
  bo_Reset :: "'b \<Rightarrow> 'b"
  bo_NextBackOff :: "'b \<Rightarrow> int \<times> 'b"

definition retry_backoff :: "('es, 'bi, 'ch, 'b) client_env \<Rightarrow> int \<Rightarrow> 'b \<Rightarrow> int \<times> 'b" where
  "retry_backoff env i b = bo_NextBackOff env (if i = 1 then bo_Reset env b else b)"

definition init_es ::
    "('es, 'bi, 'ch, 'b) client_env \<Rightarrow> string \<Rightarrow> string \<Rightarrow> string \<Rightarrow> go_int
       \<Rightarrow> ('es, 'bi, 'ch) LogWriter \<Rightarrow> ('es, 'bi, 'ch) LogWriter process" where
  "init_es env endpoint u p w lw =
     (let esConfig = \<lparr>ec_Addresses = go_split endpoint '','', ec_RetryOnStatus = [502, 503, 504, 429],
            ec_RetryBackoff = retry_backoff env, ec_MaxRetries = 5, ec_Username = [], ec_Password = []\<rparr>;
          esConfig = (if length u > 0 \<and> length p > 0
                      then esConfig\<lparr>ec_Username := u, ec_Password := p\<rparr> else esConfig)
      in case NewClient_es env esConfig of
           Inl err \<Rightarrow> Exited ''Error creating the client''
         | Inr es \<Rightarrow>
             (let lw = lw\<lparr>lw_Es := Some es\<rparr> in
              case NewBulkIndexer env \<lparr>bc_Index = ''envoy'', bc_Client = lw_Es lw, bc_NumWorkers = w,
                     bc_FlushBytes = 5248000, bc_FlushInterval = 30\<rparr> of
                Inl err \<Rightarrow> Exited ''Error creating the indexer''
              | Inr bi \<Rightarrow> Running (lw\<lparr>lw_BI := Some bi\<rparr>)))"

definition init_ch ::
    "('es, 'bi, 'ch, 'b) client_env \<Rightarrow> string \<Rightarrow> string \<Rightarrow> string \<Rightarrow> go_int
       \<Rightarrow> ('es, 'bi, 'ch) LogWriter \<Rightarrow> ('es, 'bi, 'ch) LogWriter process" where
  "init_ch env cls u p w lw =
     (case Open_ch env \<lparr>cho_Addr = go_split cls '','', cho_Database = ''envoy'', cho_Username = u,
             cho_Password = p, cho_DialTimeout = 1, cho_MaxOpenConns = w, cho_MaxIdleConns = 5,
             cho_ConnMaxLifetime = 3600\<rparr> of
        Inl err \<Rightarrow> Exited ''Error creating the client''
      | Inr Cho \<Rightarrow> Running (lw\<lparr>lw_Ch := Some Cho\<rparr>))"

definition lw_Init ::
    "('es, 'bi, 'ch, 'b) client_env \<Rightarrow> string \<Rightarrow> string \<Rightarrow> string \<Rightarrow> string \<Rightarrow> go_int \<Rightarrow> string
       \<Rightarrow> ('es, 'bi, 'ch) LogWriter \<Rightarrow> ('es, 'bi, 'ch) LogWriter process" where
  "lw_Init env endpoint cls u p w back lw =
     (let lw = lw\<lparr>lw_BE := (if back = ''clickhouse'' then CH else ES)\<rparr> in
      if lw_BE lw = ES then init_es env endpoint u p w lw
      else if lw_BE lw = CH then init_ch env cls u p w lw
      else Running lw)"

text \<open>The writer that \<open>&AccessLogServiceServer{}\<close> holds before \<open>Init\<close>.\<close>

definition new_writer :: "('es, 'bi, 'ch) LogWriter" where
  "new_writer = \<lparr>lw_Es = None, lw_BI = None, lw_BE = ES, lw_Ch = None\<rparr>"

section \<open>Writing an entry\<close>

datatype log_write =
    BulkIndex (bw_index: string) (bw_body: string)
  | AsyncInsert (bw_statement: string)

text \<open>The parts of a reading of the clock that name an index.\<close>

record date =
  dt_Year :: int
  dt_Month :: nat
  dt_Day :: nat
  dt_Hour :: nat

text \<open>
  \<open>json.Marshal\<close> of an entry (\<open>None\<close>: an error), the clock by the number of the reading, the
  order of \<open>range\<close> when a statement is built.
\<close>

record als_env =
  als_convert :: convert_env
  marshal_http :: "HTTPLogEntry \<Rightarrow> string option"
  marshal_tcp :: "TCPLogEntry \<Rightarrow> string option"
  time_Now :: "nat \<Rightarrow> date"
  print_order :: "header_map \<Rightarrow> (string \<times> string) list"

record als_state =
  st_readings :: nat
  st_writes :: "log_write list"

definition als_write :: "log_write \<Rightarrow> als_state \<Rightarrow> als_state" where
  "als_write x st = st\<lparr>st_writes := st_writes st @ [x]\<rparr>"

text \<open>Each call of \<open>time.Now()\<close> is a reading of its own.\<close>

definition http_index :: "als_env \<Rightarrow> als_state \<Rightarrow> string \<times> als_state" where
  "http_index env st =
     (let n = st_readings st
      in (''envoy-http-'' @ format_int (dt_Year (time_Now env n)) @ ''-'' @
            format_2d (dt_Month (time_Now env (n + 1))) @ ''-'' @ format_2d (dt_Day (time_Now env (n + 2))) @
            ''-'' @ format_2d (dt_Hour (time_Now env (n + 3))),
          st\<lparr>st_readings := n + 4\<rparr>))"

definition tcp_index :: "als_env \<Rightarrow> als_state \<Rightarrow> string \<times> als_state" where
  "tcp_index env st =
     (let n = st_readings st
      in (''envoy-tcp-'' @ format_int (dt_Year (time_Now env n)) @ ''-'' @
            format_2d (dt_Month (time_Now env (n + 1))) @ ''-'' @ format_2d (dt_Day (time_Now env (n + 2))),
          st\<lparr>st_readings := n + 3\<rparr>))"

text \<open>\<open>'%s'\<close>, \<open>%d\<close> of an unsigned number, and a run of columns that ends in a comma.\<close>

definition quote :: char where
  "quote = CHR 0x27"

definition quoted :: "string \<Rightarrow> string" where
  "quoted s = quote # s @ [quote]"

definition format_word :: "'a::len word \<Rightarrow> string" where
  "format_word x = format_uint (unat x)"

definition columns :: "string list \<Rightarrow> string" where
  "columns fs = concat (map (\<lambda>f. f @ '','') fs)"

text \<open>\<open>for k, v := range m { qstring += fmt.Sprintf("'%s':'%s',", k, v) }\<close> and the trim after it.\<close>

definition add_headers :: "als_env \<Rightarrow> header_map \<Rightarrow> string \<Rightarrow> string" where
  "add_headers env m qstring =
     trim_right (fold (\<lambda>(k, v) q. q @ quoted k @ '':'' @ quoted v @ '','') (print_order env m) qstring) '',''"

definition http_statement :: "als_env \<Rightarrow> HTTPLogEntry \<Rightarrow> string" where
  "http_statement env l =
     (let qstring = ''INSERT INTO http_log VALUES ('' @ columns [quoted (hl_Method l), quoted (hl_Scheme l),
            quoted (hl_Host l), quoted (hl_Path l), quoted (hl_UserAgent l), quoted (hl_Referer l),
            quoted (hl_RequestId l), format_word (hl_RequestHeaderBytes l)] @ ''{'';
          qstring = add_headers env (hl_RequestHeaders l) qstring;
          qstring = qstring @ ''},'' @ columns [format_word (hl_RequestBodyBytes l),
            format_word (hl_ResponseCode l), format_word (hl_ResponseHeaderBytes l)] @ ''{'';
          qstring = add_headers env (hl_ResponseHeaders l) qstring
      in qstring @ ''},'' @ columns [format_word (hl_ResponseBodyBytes l), quoted (hl_ResponseDetails l),
            quoted (hl_DownstreamRemoteAddress l), format_int (sint (t_Unix (hl_StartTime l))),
            format_word (hl_TimeToLastRxByte l), format_word (hl_TimeToFirstUpstreamTxByte l),
            format_word (hl_TimeToLastUpstreamTxByte l), format_word (hl_TimeToFirstUpstreamRxByte l),
            format_word (hl_TimeToLastUpstreamRxByte l), format_word (hl_TimeToFirstDownstreamTxByte l),
            format_word (hl_TimeToLastDownstreamTxByte l), quoted (hl_UpstreamRemoteAddress l),
            quoted (hl_UpstreamCluster l)] @ quoted (hl_RouteName l) @ '')'')"

definition tcp_numbers :: "TCPLogEntry \<Rightarrow> string list" where
  "tcp_numbers l = [format_int (sint (t_Unix (tl_StartTime l))), format_word (tl_TimeToLastRxByte l),
     format_word (tl_TimeToFirstUpstreamTxByte l), format_word (tl_TimeToLastUpstreamTxByte l),
     format_word (tl_TimeToFirstUpstreamRxByte l), format_word (tl_TimeToLastUpstreamRxByte l),
     format_word (tl_TimeToFirstDownstreamTxByte l), format_word (tl_TimeToLastDownstreamTxByte l)]"

definition tcp_statement :: "TCPLogEntry \<Rightarrow> string" where
  "tcp_statement l =
     ''INSERT INTO tcp_log VALUES ('' @ columns (quoted (tl_DownstreamRemoteAddress l) # tcp_numbers l @
        [quoted (tl_UpstreamRemoteAddress l)]) @ quoted (tl_UpstreamCluster l) @ '')''"

text \<open>A call of a method on a nil client panics.\<close>

definition WriteHTTPLog ::
    "als_env \<Rightarrow> ('es, 'bi, 'ch) LogWriter \<Rightarrow> HTTPLogEntry \<Rightarrow> als_state \<Rightarrow> als_state go" where
  "WriteHTTPLog env lw l st =
     (if lw_BE lw = ES then
        (case marshal_http env l of
           None \<Rightarrow> Inr st
         | Some data \<Rightarrow>
             (let (index, st) = http_index env st
              in bind_go (deref (lw_BI lw)) (\<lambda>_. Inr (als_write (BulkIndex index data) st))))
      else if lw_BE lw = CH then
        bind_go (deref (lw_Ch lw)) (\<lambda>_. Inr (als_write (AsyncInsert (http_statement env l)) st))
      else Inr st)"

definition WriteTCPLog ::
    "als_env \<Rightarrow> ('es, 'bi, 'ch) LogWriter \<Rightarrow> TCPLogEntry \<Rightarrow> als_state \<Rightarrow> als_state go" where
  "WriteTCPLog env lw l st =
     (if lw_BE lw = ES then
        (case marshal_tcp env l of
           None \<Rightarrow> Inr st
         | Some data \<Rightarrow>
             (let (index, st) = tcp_index env st
              in bind_go (deref (lw_BI lw)) (\<lambda>_. Inr (als_write (BulkIndex index data) st))))
      else if lw_BE lw = CH then
        bind_go (deref (lw_Ch lw)) (\<lambda>_. Inr (als_write (AsyncInsert (tcp_statement l)) st))
      else Inr st)"

section \<open>The stream\<close>

text \<open>A loop over entries that keeps the writes made before a panic; nil entries are skipped.\<close>

fun each_entry :: "('e \<Rightarrow> 's \<Rightarrow> 's go) \<Rightarrow> 'e option list \<Rightarrow> 's \<Rightarrow> 's \<times> panic option" where
  "each_entry f [] st = (st, None)"
| "each_entry f (None # es) st = each_entry f es st"
| "each_entry f (Some e # es) st =
     (case f e st of Inl p \<Rightarrow> (st, Some p) | Inr st' \<Rightarrow> each_entry f es st')"

datatype log_entries =
    HttpLogs "HTTPAccessLogEntry option list"
  | TcpLogs "TCPAccessLogEntry option list"

text \<open>The oneof of a message; \<open>None\<close> when it is not set.\<close>

record als_message =
  LogEntries :: "log_entries option"

definition store_http ::
    "als_env \<Rightarrow> ('es, 'bi, 'ch) LogWriter \<Rightarrow> HTTPAccessLogEntry \<Rightarrow> als_state \<Rightarrow> als_state go" where
  "store_http env lw e st = bind_go (http_log_entry (als_convert env) e) (\<lambda>l. WriteHTTPLog env lw l st)"

definition store_tcp ::
    "als_env \<Rightarrow> ('es, 'bi, 'ch) LogWriter \<Rightarrow> TCPAccessLogEntry \<Rightarrow> als_state \<Rightarrow> als_state go" where
  "store_tcp env lw e st = bind_go (tcp_log_entry e) (\<lambda>l. WriteTCPLog env lw l st)"

definition handle_message ::
    "als_env \<Rightarrow> ('es, 'bi, 'ch) LogWriter \<Rightarrow> als_message \<Rightarrow> als_state \<Rightarrow> als_state \<times> panic option" where
  "handle_message env lw msg st =
     (case LogEntries msg of
        None \<Rightarrow> (st, None)
      | Some (HttpLogs es) \<Rightarrow> each_entry (store_http env lw) es st
      | Some (TcpLogs es) \<Rightarrow> each_entry (store_tcp env lw) es st)"

text \<open>
  What a stream handler has done after a number of rounds of its \<open>for\<close> loop: it is about to
  call \<open>Recv\<close> again, has returned, or has panicked.  \<open>recv i\<close> is the outcome of the call
  number \<open>i\<close>; an error is answered with \<open>continue\<close>.
\<close>

datatype handler = Looping als_state | Returned als_state | Died als_state panic

definition als_round ::
    "als_env \<Rightarrow> ('es, 'bi, 'ch) LogWriter \<Rightarrow> string + als_message \<Rightarrow> als_state \<Rightarrow> handler" where
  "als_round env lw received st =
     (case received of
        Inl err \<Rightarrow> Looping st
      | Inr msg \<Rightarrow>
          (case handle_message env lw msg st of
             (st', None) \<Rightarrow> Looping st'
           | (st', Some p) \<Rightarrow> Died st' p))"

fun StreamAccessLogs ::
    "als_env \<Rightarrow> ('es, 'bi, 'ch) LogWriter \<Rightarrow> (nat \<Rightarrow> string + als_message) \<Rightarrow> nat \<Rightarrow> als_state \<Rightarrow> handler" where
  "StreamAccessLogs env lw recv 0 st = Looping st"
| "StreamAccessLogs env lw recv (Suc n) st =
     (case StreamAccessLogs env lw recv n st of
        Looping st' \<Rightarrow> als_round env lw (recv n) st'
      | h \<Rightarrow> h)"

end
