(* ===== verification/AccessLogProps.thy ===== *)
theory AccessLogProps
  imports AccessLogServer "HOL-Library.List_Lexorder" "HOL-Library.Char_ord"
begin

text \<open>
  Properties of the access-log server: what a writer can rely on after \<open>Init\<close>, what a stream
  stores and when it dies or spins, how durations wrap, and the statements sent to
  ClickHouse: their layout, reading them back, and what an unescaped quote does to them.
\<close>

section \<open>A writer after \<open>Init\<close>\<close>

definition usable :: "('es, 'bi, 'ch) LogWriter \<Rightarrow> bool" where
  "usable lw \<longleftrightarrow> (case lw_BE lw of ES \<Rightarrow> lw_BI lw \<noteq> None | CH \<Rightarrow> lw_Ch lw \<noteq> None)"

lemma usable_WriteHTTPLog: "usable lw \<Longrightarrow> \<exists>st'. WriteHTTPLog env lw l st = Inr st'"
  by (auto simp: usable_def WriteHTTPLog_def deref_def Let_def split: BackendType.splits option.splits prod.splits)

lemma usable_WriteTCPLog: "usable lw \<Longrightarrow> \<exists>st'. WriteTCPLog env lw l st = Inr st'"
  by (auto simp: usable_def WriteTCPLog_def deref_def Let_def split: BackendType.splits option.splits prod.splits)

text \<open>C39: a log writer whose initialisation returned has the client of the back end it was told to
  use, ClickHouse for the word \<open>clickhouse\<close> and Elasticsearch for any other, misspellings
  included; with it no write panics.  Otherwise the process has ended.\<close>

theorem lw_Init_usable:
  assumes "lw_Init cenv endpoint cls u p w back new_writer = Running lw"
  shows "(lw_BE lw = CH \<longleftrightarrow> back = ''clickhouse'') \<and>
    (lw_BE lw = ES \<longrightarrow> lw_Es lw \<noteq> None \<and> lw_BI lw \<noteq> None \<and> lw_Ch lw = None) \<and>
    (lw_BE lw = CH \<longrightarrow> lw_Ch lw \<noteq> None \<and> lw_Es lw = None \<and> lw_BI lw = None) \<and>
    (\<forall>env l st. \<exists>st'. WriteHTTPLog env lw l st = Inr st') \<and>
    (\<forall>env l st. \<exists>st'. WriteTCPLog env lw l st = Inr st')"
proof -
  have fields: "(lw_BE lw = CH \<longleftrightarrow> back = ''clickhouse'') \<and>
    (lw_BE lw = ES \<longrightarrow> lw_Es lw \<noteq> None \<and> lw_BI lw \<noteq> None \<and> lw_Ch lw = None) \<and>
    (lw_BE lw = CH \<longrightarrow> lw_Ch lw \<noteq> None \<and> lw_Es lw = None \<and> lw_BI lw = None)"
    using assms
    by (auto simp: lw_Init_def init_es_def init_ch_def new_writer_def Let_def split: if_splits sum.splits)
  then have "usable lw" by (cases "lw_BE lw") (auto simp: usable_def)
  with fields show ?thesis using usable_WriteHTTPLog usable_WriteTCPLog by blast
qed

definition toy_clients :: "(string list, string, string list, unit) client_env" where
  "toy_clients = \<lparr>NewClient_es = (\<lambda>c. Inr (ec_Addresses c)), NewBulkIndexer = (\<lambda>c. Inr (bc_Index c)),
     Open_ch = (\<lambda>opts. Inr (cho_Addr opts)), bo_Reset = (\<lambda>b. b), bo_NextBackOff = (\<lambda>b. (0, b))\<rparr>"

theorem lw_Init_usable_witness:
  "\<exists>lw. lw_Init toy_clients ''a,b'' ''c,d'' [] [] 10 ''ClickHouse'' new_writer = Running lw \<and>
     lw_BE lw = ES \<and> lw_Es lw = Some [''a'', ''b''] \<and> lw_BI lw \<noteq> None"
proof -
  have split: "go_split ''a,b'' '','' = [''a'', ''b'']" by code_simp
  obtain lw where run: "lw_Init toy_clients ''a,b'' ''c,d'' [] [] 10 ''ClickHouse'' new_writer = Running lw"
    and "lw_Es lw = Some [''a'', ''b'']"
    by (simp add: lw_Init_def init_es_def toy_clients_def new_writer_def split)
  with lw_Init_usable [OF run] show ?thesis by (cases "lw_BE lw") auto
qed

section \<open>A sample environment\<close>

text \<open>A table of one method, and the order of the keys as the order of \<open>range\<close>.\<close>

definition key_order :: "header_map \<Rightarrow> (string \<times> string) list" where
  "key_order m = map (\<lambda>k. (k, the (fmlookup m k))) (sorted_list_of_fset (fmdom m))"

lemma ranges_key_order: "ranges key_order"
proof -
  have "map_of (key_order m) k = fmlookup m k" for m k
    by (cases "fmlookup m k")
      (auto simp: key_order_def map_of_map_restrict restrict_map_def sorted_list_of_fset.rep_eq
        intro: fmdomI dest: fmdom_notI)
  moreover have "distinct (map fst (key_order m))" for m
    by (simp add: key_order_def comp_def sorted_list_of_fset.rep_eq)
  ultimately show ?thesis by (auto simp: ranges_def)
qed

definition sample_als :: als_env where
  "sample_als = \<lparr>als_convert = \<lparr>RequestMethod_name = [1 \<mapsto> ''GET''], range_order = key_order\<rparr>,
     marshal_http = (\<lambda>l. Some (hl_Host l)), marshal_tcp = (\<lambda>l. Some (tl_UpstreamCluster l)),
     time_Now = (\<lambda>n. \<lparr>dt_Year = 2024, dt_Month = 2, dt_Day = 29, dt_Hour = 7\<rparr>), print_order = key_order\<rparr>"

definition ch_writer :: "(unit, unit, unit) LogWriter" where
  "ch_writer = \<lparr>lw_Es = None, lw_BI = None, lw_BE = CH, lw_Ch = Some ()\<rparr>"

definition no_writes :: als_state where
  "no_writes = \<lparr>st_readings = 0, st_writes = []\<rparr>"

definition plain_tcp :: TCPAccessLogEntry where
  "plain_tcp = \<lparr>te_CommonProperties = Some (empty_common\<lparr>co_UpstreamCluster := ''web''\<rparr>)\<rparr>"

definition headerless_http :: HTTPAccessLogEntry where
  "headerless_http = \<lparr>he_CommonProperties = Some (empty_common
     \<lparr>co_TimeToLastDownstreamTxByte := Some \<lparr>pb_Seconds = 5, pb_Nanos = 0\<rparr>\<rparr>), he_Request = None, he_Response = None\<rparr>"

section \<open>What a stream stores\<close>

text \<open>The statements of the entries that convert, in order: what a stream should leave behind.\<close>

definition entry_writes :: "('e \<Rightarrow> 'l go) \<Rightarrow> ('l \<Rightarrow> string) \<Rightarrow> 'e option list \<Rightarrow> log_write list" where
  "entry_writes conv statement es =
     concat (map (\<lambda>e. case e of None \<Rightarrow> [] | Some x \<Rightarrow>
       (case conv x of Inl _ \<Rightarrow> [] | Inr l \<Rightarrow> [AsyncInsert (statement l)])) es)"

fun message_writes :: "als_env \<Rightarrow> string + als_message \<Rightarrow> log_write list" where
  "message_writes env (Inl err) = []"
| "message_writes env (Inr msg) =
     (case LogEntries msg of
        None \<Rightarrow> []
      | Some (HttpLogs es) \<Rightarrow> entry_writes (http_log_entry (als_convert env)) (http_statement env) es
      | Some (TcpLogs es) \<Rightarrow> entry_writes tcp_log_entry tcp_statement es)"

definition http_ok :: "HTTPAccessLogEntry \<Rightarrow> bool" where
  "http_ok e \<longleftrightarrow> (\<forall>c. he_CommonProperties e = Some c \<longrightarrow> common_ok c)"

definition tcp_ok :: "TCPAccessLogEntry \<Rightarrow> bool" where
  "tcp_ok e \<longleftrightarrow> (\<exists>c. te_CommonProperties e = Some c \<and> common_ok c)"

fun received_ok :: "string + als_message \<Rightarrow> bool" where
  "received_ok (Inl err) = True"
| "received_ok (Inr msg) =
     (case LogEntries msg of
        None \<Rightarrow> True
      | Some (HttpLogs es) \<Rightarrow> list_all (\<lambda>e. case e of None \<Rightarrow> True | Some x \<Rightarrow> http_ok x) es
      | Some (TcpLogs es) \<Rightarrow> list_all (\<lambda>e. case e of None \<Rightarrow> True | Some x \<Rightarrow> tcp_ok x) es)"

text \<open>One entry that adds one write, and a list of them.\<close>

lemma each_entry_writes:
  assumes "\<And>x st. Some x \<in> set es \<Longrightarrow> \<exists>l st'. conv x = Inr l \<and> f x st = Inr st' \<and>
      st_writes st' = st_writes st @ [AsyncInsert (statement l)]"
  shows "\<exists>st'. each_entry f es st = (st', None) \<and>
    st_writes st' = st_writes st @ entry_writes conv statement es"
  using assms
proof (induction es arbitrary: st)
  case Nil
  then show ?case by (simp add: entry_writes_def)
next
  case (Cons e es)
  show ?case
  proof (cases e)
    case None
    with Cons show ?thesis by (simp add: entry_writes_def)
  next
    case (Some x)
    with Cons.prems [of x st] obtain l st1 where 1: "conv x = Inr l" "f x st = Inr st1"
      "st_writes st1 = st_writes st @ [AsyncInsert (statement l)]" by auto
    from Cons.IH [of st1] Cons.prems obtain st' where
      "each_entry f es st1 = (st', None)" "st_writes st' = st_writes st1 @ entry_writes conv statement es"
      by (metis list.set_intros(2))
    with Some 1 show ?thesis by (simp add: entry_writes_def)
  qed
qed

lemma each_entry_append:
  "each_entry f (xs @ ys) st =
     (case each_entry f xs st of (st', None) \<Rightarrow> each_entry f ys st' | (st', Some p) \<Rightarrow> (st', Some p))"
  by (induction f xs st rule: each_entry.induct) (auto split: sum.splits)

definition on_clickhouse :: "('es, 'bi, 'ch) LogWriter \<Rightarrow> bool" where
  "on_clickhouse lw \<longleftrightarrow> lw_BE lw = CH \<and> lw_Ch lw \<noteq> None"

lemma store_http_writes:
  assumes "on_clickhouse lw" and "http_ok e"
  shows "\<exists>l st'. http_log_entry (als_convert env) e = Inr l \<and> store_http env lw e st = Inr st' \<and>
    st_writes st' = st_writes st @ [AsyncInsert (http_statement env l)]"
  using assms http_log_entry_returns [of "als_convert env" e]
  by (auto simp: http_ok_def store_http_def WriteHTTPLog_def on_clickhouse_def als_write_def)

lemma store_tcp_writes:
  assumes "on_clickhouse lw" and "tcp_ok e"
  shows "\<exists>l st'. tcp_log_entry e = Inr l \<and> store_tcp env lw e st = Inr st' \<and>
    st_writes st' = st_writes st @ [AsyncInsert (tcp_statement l)]"
  using assms tcp_log_entry_returns [of e]
  by (auto simp: tcp_ok_def store_tcp_def WriteTCPLog_def on_clickhouse_def als_write_def)

lemma http_entries_written:
  assumes "on_clickhouse lw" and "list_all (\<lambda>e. case e of None \<Rightarrow> True | Some x \<Rightarrow> http_ok x) es"
  shows "\<exists>st'. each_entry (store_http env lw) es st = (st', None) \<and>
    st_writes st' = st_writes st @ entry_writes (http_log_entry (als_convert env)) (http_statement env) es"
  using assms by (intro each_entry_writes store_http_writes) (auto simp: list_all_iff)

lemma tcp_entries_written:
  assumes "on_clickhouse lw" and "list_all (\<lambda>e. case e of None \<Rightarrow> True | Some x \<Rightarrow> tcp_ok x) es"
  shows "\<exists>st'. each_entry (store_tcp env lw) es st = (st', None) \<and>
    st_writes st' = st_writes st @ entry_writes tcp_log_entry tcp_statement es"
  using assms by (intro each_entry_writes store_tcp_writes) (auto simp: list_all_iff)

lemma als_round_writes:
  assumes "on_clickhouse lw" and "received_ok r"
  shows "\<exists>st'. als_round env lw r st = Looping st' \<and> st_writes st' = st_writes st @ message_writes env r"
proof (cases r)
  case (Inr msg)
  show ?thesis
  proof (cases "LogEntries msg")
    case (Some logs)
    show ?thesis
    proof (cases logs)
      case (HttpLogs es)
      have "\<exists>st'. each_entry (store_http env lw) es st = (st', None) \<and>
          st_writes st' = st_writes st @ entry_writes (http_log_entry (als_convert env)) (http_statement env) es"
        using assms Inr Some HttpLogs by (intro http_entries_written) auto
      with Inr Some HttpLogs show ?thesis by (auto simp: als_round_def handle_message_def)
    next
      case (TcpLogs es)
      have "\<exists>st'. each_entry (store_tcp env lw) es st = (st', None) \<and>
          st_writes st' = st_writes st @ entry_writes tcp_log_entry tcp_statement es"
        using assms Inr Some TcpLogs by (intro tcp_entries_written) auto
      with Inr Some TcpLogs show ?thesis by (auto simp: als_round_def handle_message_def)
    qed
  qed (simp add: Inr als_round_def handle_message_def)
qed (simp add: als_round_def)

text \<open>C9: with ClickHouse, and as long as every TCP entry has its common properties, the handler
  stores exactly one statement for each entry of each message received, in the order of
  arrival, skipping nil entries, messages without entries and calls of \<open>Recv\<close> that fail; and
  it is back at \<open>Recv\<close> after each.\<close>

theorem als_stores_entries:
  assumes "on_clickhouse lw" and "\<forall>i < n. received_ok (recv i)"
  shows "\<exists>st'. StreamAccessLogs env lw recv n st = Looping st' \<and>
    st_writes st' = st_writes st @ concat (map (\<lambda>i. message_writes env (recv i)) [0..<n])"
  using assms(2)
proof (induction n)
  case (Suc n)
  then obtain st1 where "StreamAccessLogs env lw recv n st = Looping st1"
    "st_writes st1 = st_writes st @ concat (map (\<lambda>i. message_writes env (recv i)) [0..<n])" by auto
  moreover have "received_ok (recv n)" using Suc.prems by simp
  ultimately show ?case using als_round_writes [OF assms(1), of "recv n" env st1] by auto
qed simp

text \<open>A stream of one message with a nil entry and two others, then its end.\<close>

definition short_stream :: "nat \<Rightarrow> string + als_message" where
  "short_stream i = (if i = 0 then Inr \<lparr>LogEntries = Some (TcpLogs [None, Some plain_tcp])\<rparr>
     else if i = 1 then Inr \<lparr>LogEntries = Some (TcpLogs [Some plain_tcp, Some \<lparr>te_CommonProperties = None\<rparr>, Some plain_tcp])\<rparr>
     else Inl ''EOF'')"

lemma plain_tcp_ok [simp]: "tcp_ok plain_tcp"
  by (simp add: tcp_ok_def plain_tcp_def common_ok_def loggable_def empty_common_def)

lemma on_ch_writer [simp]: "on_clickhouse ch_writer"
  by (simp add: on_clickhouse_def ch_writer_def)

lemma first_message:
  "\<exists>l st'. tcp_log_entry plain_tcp = Inr l \<and> StreamAccessLogs sample_als ch_writer short_stream 1 no_writes = Looping st' \<and>
     st_writes st' = [AsyncInsert (tcp_statement l)]"
  using als_round_writes [OF on_ch_writer, of "short_stream 0" sample_als no_writes]
    tcp_log_entry_returns [of plain_tcp] plain_tcp_ok
  by (auto simp: short_stream_def entry_writes_def no_writes_def tcp_ok_def)

theorem als_stores_entries_witness:
  "\<exists>l st'. tcp_log_entry plain_tcp = Inr l \<and>
     StreamAccessLogs sample_als ch_writer short_stream 1 no_writes = Looping st' \<and>
     st_writes st' = [AsyncInsert (tcp_statement l)]"
proof -
  obtain l where l: "tcp_log_entry plain_tcp = Inr l"
    using tcp_log_entry_returns [of plain_tcp] plain_tcp_ok by (auto simp: tcp_ok_def)
  have "\<forall>i < 1. received_ok (short_stream i)" by (simp add: short_stream_def)
  from als_stores_entries [OF on_ch_writer this, of sample_als no_writes] l show ?thesis
    by (auto simp: short_stream_def entry_writes_def no_writes_def)
qed

section \<open>Death and spinning\<close>

lemma Died_stays:
  "StreamAccessLogs env lw recv n st = Died st' p \<Longrightarrow> n \<le> m \<Longrightarrow> StreamAccessLogs env lw recv m st = Died st' p"
  by (induction m) (auto elim: le_SucE)

text \<open>One TCP entry without common properties kills the handler, and with it, since gRPC
  handlers do not recover, the log server: the entries before it are stored, the rest of the
  message and of the stream is lost.\<close>

theorem als_tcp_entry_without_common_kills:
  assumes "on_clickhouse lw" and "StreamAccessLogs env lw recv n st = Looping st1"
    and "recv n = Inr \<lparr>LogEntries = Some (TcpLogs (es @ Some \<lparr>te_CommonProperties = None\<rparr> # rest))\<rparr>"
    and "list_all (\<lambda>e. case e of None \<Rightarrow> True | Some x \<Rightarrow> tcp_ok x) es" and "n < m"
  shows "\<exists>st'. StreamAccessLogs env lw recv m st = Died st' NilDereference \<and>
    st_writes st' = st_writes st1 @ entry_writes tcp_log_entry tcp_statement es"
proof -
  obtain st' where before: "each_entry (store_tcp env lw) es st1 = (st', None)"
    and writes: "st_writes st' = st_writes st1 @ entry_writes tcp_log_entry tcp_statement es"
    using tcp_entries_written [OF assms(1,4)] by blast
  have "StreamAccessLogs env lw recv (Suc n) st = Died st' NilDereference"
    using assms(2,3) before
    by (simp add: als_round_def handle_message_def each_entry_append store_tcp_def tcp_log_entry_def)
  with writes assms(5) show ?thesis using Died_stays [of env lw recv "Suc n" st st' NilDereference m] by auto
qed

theorem als_tcp_entry_without_common_kills_witness:
  "\<exists>l st'. tcp_log_entry plain_tcp = Inr l \<and>
     StreamAccessLogs sample_als ch_writer short_stream 2 no_writes = Died st' NilDereference \<and>
     st_writes st' = [AsyncInsert (tcp_statement l), AsyncInsert (tcp_statement l)]"
proof -
  obtain l st1 where l: "tcp_log_entry plain_tcp = Inr l"
    and 1: "StreamAccessLogs sample_als ch_writer short_stream 1 no_writes = Looping st1"
      "st_writes st1 = [AsyncInsert (tcp_statement l)]"
    using first_message by blast
  have "short_stream 1 = Inr \<lparr>LogEntries = Some (TcpLogs ([Some plain_tcp] @
      Some \<lparr>te_CommonProperties = None\<rparr> # [Some plain_tcp]))\<rparr>" by (simp add: short_stream_def)
  from als_tcp_entry_without_common_kills [OF on_ch_writer 1(1) this, of 2] l 1(2)
  show ?thesis by (auto simp: entry_writes_def)
qed

text \<open>The handler does not return when the client is gone: once every call of \<open>Recv\<close> reports an
  error, as it does after the end of a stream, the handler loops for ever without effect.\<close>

theorem als_spins_after_end:
  assumes "\<forall>i \<ge> k. \<exists>err. recv i = Inl err" and "StreamAccessLogs env lw recv k st = Looping st'" and "k \<le> n"
  shows "StreamAccessLogs env lw recv n st = Looping st'"
  using assms(3)
proof (induction n rule: dec_induct)
  case base
  show ?case by (rule assms(2))
next
  case (step m)
  obtain err where "recv m = Inl err" using assms(1) step.hyps by auto
  with step show ?case by (simp add: als_round_def)
qed

theorem als_spins_after_end_witness:
  "StreamAccessLogs sample_als ch_writer (\<lambda>i. Inl ''EOF'') 1000 no_writes = Looping no_writes"
  by (rule als_spins_after_end [where k = 0]) simp_all

section \<open>Durations\<close>

text \<open>A logged duration is its length in nanoseconds modulo \<open>2 ^ 32\<close>, so it is right exactly when
  the phase took less than 4.3 seconds, and any longer phase is logged as a shorter one.\<close>

theorem logged_duration_wraps:
  assumes "http_log_entry env e = Inr l" and "he_CommonProperties e = Some c"
    and "co_TimeToLastDownstreamTxByte c = Some d" and "0 \<le> nanoseconds d"
  shows "uint (hl_TimeToLastDownstreamTxByte l) = nanoseconds d mod 2 ^ 32 \<and>
    (uint (hl_TimeToLastDownstreamTxByte l) = nanoseconds d \<longleftrightarrow> nanoseconds d < 4294967296) \<and>
    (4294967296 \<le> nanoseconds d \<longrightarrow> uint (hl_TimeToLastDownstreamTxByte l) < nanoseconds d)"
proof -
  have "hl_TimeToLastDownstreamTxByte l = log_duration (Some d)"
    using assms(1-3) by (auto simp: http_log_entry_def Let_def go_simps)
  then have eq: "uint (hl_TimeToLastDownstreamTxByte l) = nanoseconds d mod 2 ^ 32"
    by (simp only: log_duration_uint)
  have "nanoseconds d mod 2 ^ 32 < 2 ^ 32" by simp
  with eq assms(4) show ?thesis by (auto simp: mod_pos_pos_trivial)
qed

theorem logged_duration_wraps_witness:
  "\<exists>l. http_log_entry (als_convert sample_als) headerless_http = Inr l \<and>
     uint (hl_TimeToLastDownstreamTxByte l) = 705032704"
proof -
  let ?d = "\<lparr>pb_Seconds = 5, pb_Nanos = 0\<rparr>"
  let ?c = "empty_common\<lparr>co_TimeToLastDownstreamTxByte := Some ?d\<rparr>"
  have c: "he_CommonProperties headerless_http = Some ?c" by (simp add: headerless_http_def)
  have "common_ok ?c" by (simp add: common_ok_def empty_common_def loggable_def)
  then obtain l where l: "http_log_entry (als_convert sample_als) headerless_http = Inr l"
    using http_log_entry_returns [of "als_convert sample_als" headerless_http] c by auto
  have ns: "nanoseconds ?d = 5000000000" by (simp add: nanoseconds_def)
  from logged_duration_wraps [OF l c, of ?d] l show ?thesis by (simp add: ns)
qed

end
