(* ===== verification/AccessLogSql.thy ===== *)
theory AccessLogSql
  imports AccessLogProps
begin

text \<open>
  The statements sent to ClickHouse: the row a statement holds, reading a row back, and what an
  unescaped quote in a client's text does.
\<close>

section \<open>The layout of a statement\<close>

lemma columns_join: "columns fs @ x = go_join (fs @ [x]) '',''"
proof (induction fs)
  case (Cons f fs)
  have "go_join (f # fs @ [x]) '','' = f @ '','' @ go_join (fs @ [x]) '',''" by (rule go_join_Cons) simp
  with Cons show ?case by (simp add: columns_def)
qed (simp add: columns_def)

lemma columns_append: "columns (fs @ gs) = columns fs @ columns gs"
  by (simp add: columns_def)

lemma columns_Cons: "columns (f # fs) = f @ '','' @ columns fs"
  by (simp add: columns_def)

text \<open>A header map in the map syntax of ClickHouse, without a trailing comma.\<close>

definition header_item :: "string \<times> string \<Rightarrow> string" where
  "header_item kv = quoted (fst kv) @ '':'' @ quoted (snd kv)"

definition header_column :: "als_env \<Rightarrow> header_map \<Rightarrow> string" where
  "header_column env m = ''{'' @ go_join (map header_item (print_order env m)) '','' @ ''}''"

lemma fold_header_items:
  "fold (\<lambda>(k, v) q. q @ quoted k @ '':'' @ quoted v @ '','') kvs q = q @ columns (map header_item kvs)"
  by (induction kvs arbitrary: q) (auto simp: columns_def header_item_def)

lemma trim_right_keeps: "s \<noteq> [] \<Longrightarrow> last s \<noteq> c \<Longrightarrow> trim_right s [c] = s"
  by (cases s rule: rev_cases) (auto simp: trim_right_def)

lemma trim_right_one: "s \<noteq> [] \<Longrightarrow> last s \<noteq> c \<Longrightarrow> trim_right (s @ [c]) [c] = s"
  by (cases s rule: rev_cases) (auto simp: trim_right_def)

lemma add_headers_join:
  "add_headers env m (q @ ''{'') = q @ ''{'' @ go_join (map header_item (print_order env m)) '',''"
proof (cases "print_order env m" rule: rev_cases)
  case Nil
  then show ?thesis by (simp add: add_headers_def trim_right_keeps)
next
  case (snoc kvs kv)
  let ?items = "columns (map header_item kvs) @ header_item kv"
  have "last (q @ ''{'' @ ?items) = quote" by (simp add: header_item_def quoted_def)
  then have "trim_right ((q @ ''{'' @ ?items) @ '','') '','' = q @ ''{'' @ ?items"
    by (intro trim_right_one) (simp_all add: quote_def)
  moreover have "(q @ ''{'' @ ?items) @ '','' = (q @ ''{'') @ columns (map header_item (kvs @ [kv]))"
    by (simp add: columns_append) (simp add: columns_def)
  ultimately have "trim_right ((q @ ''{'') @ columns (map header_item (kvs @ [kv]))) '','' = q @ ''{'' @ ?items"
    by (simp only:)
  then show ?thesis
    unfolding add_headers_def fold_header_items snoc by (simp add: columns_join)
qed

definition http_columns :: "als_env \<Rightarrow> HTTPLogEntry \<Rightarrow> string list" where
  "http_columns env l = [quoted (hl_Method l), quoted (hl_Scheme l), quoted (hl_Host l),
     quoted (hl_Path l), quoted (hl_UserAgent l), quoted (hl_Referer l), quoted (hl_RequestId l),
     format_word (hl_RequestHeaderBytes l), header_column env (hl_RequestHeaders l),
     format_word (hl_RequestBodyBytes l), format_word (hl_ResponseCode l),
     format_word (hl_ResponseHeaderBytes l), header_column env (hl_ResponseHeaders l),
     format_word (hl_ResponseBodyBytes l), quoted (hl_ResponseDetails l),
     quoted (hl_DownstreamRemoteAddress l), format_int (sint (t_Unix (hl_StartTime l))),
     format_word (hl_TimeToLastRxByte l), format_word (hl_TimeToFirstUpstreamTxByte l),
     format_word (hl_TimeToLastUpstreamTxByte l), format_word (hl_TimeToFirstUpstreamRxByte l),
     format_word (hl_TimeToLastUpstreamRxByte l), format_word (hl_TimeToFirstDownstreamTxByte l),
     format_word (hl_TimeToLastDownstreamTxByte l), quoted (hl_UpstreamRemoteAddress l),
     quoted (hl_UpstreamCluster l), quoted (hl_RouteName l)]"

text \<open>The trimming after the loops removes one comma, of those that end every column but the last.\<close>

lemma http_statement_parts:
  "http_statement env l = ''INSERT INTO http_log VALUES ('' @ columns (butlast (http_columns env l)) @
     quoted (hl_RouteName l) @ '')''"
proof -
  let ?s1 = "''INSERT INTO http_log VALUES ('' @ columns (take 8 (http_columns env l))"
  let ?s2 = "?s1 @ columns [header_column env (hl_RequestHeaders l)] @ columns (take 3 (drop 9 (http_columns env l)))"
  show ?thesis
    using add_headers_join [of env "hl_RequestHeaders l" ?s1] add_headers_join [of env "hl_ResponseHeaders l" ?s2]
    by (simp add: http_statement_def http_columns_def header_column_def columns_def numeral_eq_Suc)
qed

text \<open>C27: an HTTP entry becomes one row with a column for each field of \<open>HTTPLogEntry\<close> in its order,
  separated by single commas, and each header map a bracketed list with commas between the
  pairs only: the trimming after the loops removes the one comma too many and nothing else.\<close>

theorem http_statement_row:
  "http_statement env l = ''INSERT INTO http_log VALUES ('' @ go_join (http_columns env l) '','' @ '')''"
proof -
  have "http_columns env l = butlast (http_columns env l) @ [quoted (hl_RouteName l)]"
    by (simp add: http_columns_def)
  then show ?thesis
    using columns_join [of "butlast (http_columns env l)" "quoted (hl_RouteName l)"]
    by (simp add: http_statement_parts)
qed

section \<open>Reading a TCP row back\<close>

text \<open>The texts stand between the quotes; the numbers between the first two of them.\<close>

definition read_tcp_row :: "string \<Rightarrow> string \<times> int list \<times> string \<times> string" where
  "read_tcp_row s =
     (let ps = go_split s [quote]
      in (ps ! 1, map atoi (go_split (butlast (tl (ps ! 2))) '',''), ps ! 3, ps ! 5))"

lemma atoi_format_int:
  assumes "- (2 ^ 63) \<le> i" and "i < 2 ^ 63"
  shows "atoi (format_int i) = i"
proof (cases "i < 0")
  case True
  have "- i \<le> 2 ^ 63" using assms(1) by linarith
  then have "nat (- i) \<le> 2 ^ 63" by (simp add: nat_le_iff)
  then have "min (nat (- i)) (2 ^ 64 - 1) = nat (- i)" by simp
  with True \<open>nat (- i) \<le> 2 ^ 63\<close> show ?thesis
    by (simp add: atoi_def format_int_def parse_uint_format)
next
  case False
  then have "nat i < 2 ^ 63" using assms(2) by (simp add: nat_less_iff)
  from atoi_format_uint [OF this] False show ?thesis by (simp add: format_int_def)
qed

lemma atoi_format_sint: "atoi (format_int (sint (x :: 64 word))) = sint x"
  using sint_ge [of x] sint_lt [of x] by (intro atoi_format_int) simp_all

lemma atoi_format_u32: "atoi (format_word (x :: u32)) = uint x"
proof -
  have "unat x < 2 ^ LENGTH(32)" by (rule unsigned_less)
  then have "unat x < 2 ^ 63" by simp
  then show ?thesis by (simp add: format_word_def atoi_format_uint)
qed

lemma tcp_numbers_chars:
  "n \<in> set (tcp_numbers l) \<Longrightarrow> \<not> is_digit c \<Longrightarrow> c \<noteq> CHR ''-'' \<Longrightarrow> c \<notin> set n"
  by (auto simp: tcp_numbers_def format_word_def format_uint_chars format_int_chars)

lemma separators_not_digits [simp]: "\<not> is_digit quote" "\<not> is_digit (CHR '','')"
  by (simp_all add: is_digit_def quote_def)

lemma separators_distinct [simp]: "quote \<noteq> CHR ''-''" "quote \<noteq> CHR '',''" "quote \<noteq> CHR '')''"
  by (simp_all add: quote_def)

text \<open>A row without quotes in its texts, cut at the quotes.\<close>

lemma split_tcp_statement:
  assumes "quote \<notin> set (tl_DownstreamRemoteAddress l)" and "quote \<notin> set (tl_UpstreamRemoteAddress l)"
    and "quote \<notin> set (tl_UpstreamCluster l)"
  shows "go_split (tcp_statement l) [quote] = [''INSERT INTO tcp_log VALUES ('',
    tl_DownstreamRemoteAddress l, '','' @ columns (tcp_numbers l), tl_UpstreamRemoteAddress l, '','',
    tl_UpstreamCluster l, '')'']"
proof -
  have numbers: "quote \<notin> set (columns (tcp_numbers l))"
    using tcp_numbers_chars [of _ l quote] by (auto simp: columns_def)
  have "quote \<notin> set ''INSERT INTO tcp_log VALUES (''" by (simp add: quote_def)
  moreover have "tcp_statement l = go_join [''INSERT INTO tcp_log VALUES ('',
    tl_DownstreamRemoteAddress l, '','' @ columns (tcp_numbers l), tl_UpstreamRemoteAddress l, '','',
    tl_UpstreamCluster l, '')''] [quote]"
    by (simp add: tcp_statement_def columns_Cons columns_append quoted_def columns_def [of "[]"])
  ultimately show ?thesis
    using assms numbers by (simp only:) (rule go_split_join_single, auto)
qed

text \<open>The row of a TCP entry whose texts have no quote can be read back: the three texts, the
  seconds of its start and its seven durations; only the nanoseconds of the start are lost.\<close>

theorem tcp_statement_roundtrip:
  assumes "quote \<notin> set (tl_DownstreamRemoteAddress l)" and "quote \<notin> set (tl_UpstreamRemoteAddress l)"
    and "quote \<notin> set (tl_UpstreamCluster l)"
  shows "read_tcp_row (tcp_statement l) = (tl_DownstreamRemoteAddress l,
    [sint (t_Unix (tl_StartTime l)), uint (tl_TimeToLastRxByte l), uint (tl_TimeToFirstUpstreamTxByte l),
     uint (tl_TimeToLastUpstreamTxByte l), uint (tl_TimeToFirstUpstreamRxByte l),
     uint (tl_TimeToLastUpstreamRxByte l), uint (tl_TimeToFirstDownstreamTxByte l),
     uint (tl_TimeToLastDownstreamTxByte l)],
    tl_UpstreamRemoteAddress l, tl_UpstreamCluster l)"
proof -
  obtain ns n where ns: "tcp_numbers l = ns @ [n]" by (cases "tcp_numbers l" rule: rev_cases) (auto simp: tcp_numbers_def)
  have "butlast (columns (ns @ [n])) = columns ns @ n"
    by (simp add: columns_append) (simp add: columns_def butlast_append)
  then have "butlast (columns (tcp_numbers l)) = go_join (tcp_numbers l) '',''"
    by (simp add: ns columns_join)
  moreover have "go_split (go_join (tcp_numbers l) '','') '','' = tcp_numbers l"
    using tcp_numbers_chars [of _ l "CHR '',''"] by (intro go_split_join_single) (auto simp: tcp_numbers_def)
  ultimately show ?thesis
    unfolding read_tcp_row_def split_tcp_statement [OF assms]
    by (simp add: Let_def tcp_numbers_def atoi_format_sint atoi_format_u32)
qed

definition sample_tcp :: TCPLogEntry where
  "sample_tcp = \<lparr>tl_DownstreamRemoteAddress = ''10.0.0.9'', tl_StartTime = zero_time,
     tl_TimeToLastRxByte = 1, tl_TimeToFirstUpstreamTxByte = 2, tl_TimeToLastUpstreamTxByte = 3,
     tl_TimeToFirstUpstreamRxByte = 4, tl_TimeToLastUpstreamRxByte = 5, tl_TimeToFirstDownstreamTxByte = 6,
     tl_TimeToLastDownstreamTxByte = 7, tl_UpstreamRemoteAddress = ''10.0.0.1'', tl_UpstreamCluster = ''web''\<rparr>"

theorem tcp_statement_roundtrip_witness:
  "read_tcp_row (tcp_statement sample_tcp) =
     (''10.0.0.9'', [-62135596800, 1, 2, 3, 4, 5, 6, 7], ''10.0.0.1'', ''web'')"
proof -
  have "sint (t_Unix zero_time) = - 62135596800" by (simp add: zero_time_def)
  with tcp_statement_roundtrip [of sample_tcp] show ?thesis by (simp add: sample_tcp_def quote_def)
qed

section \<open>Quotes are not escaped\<close>

definition before_agent :: "HTTPLogEntry \<Rightarrow> string" where
  "before_agent l = ''INSERT INTO http_log VALUES ('' @ columns [quoted (hl_Method l), quoted (hl_Scheme l),
     quoted (hl_Host l), quoted (hl_Path l)] @ [quote]"

lemma http_statement_agent: "\<exists>rest. http_statement env l = before_agent l @ hl_UserAgent l @ rest"
proof
  show "http_statement env l = before_agent l @ hl_UserAgent l @ [quote] @ '','' @
      go_join (drop 5 (http_columns env l)) '','' @ '')''"
    by (simp add: http_statement_parts before_agent_def http_columns_def columns_Cons quoted_def [of "hl_UserAgent l"])
      (simp add: columns_def)
qed

text \<open>C40: a client forges log rows: whatever row of \<open>http_log\<close> and whatever text after it, there is a
  user agent with which the statement for the client's own request starts with the insertion of
  that row, followed by that text.  Only the four columns before the user agent are the
  request's own.\<close>

theorem user_agent_forges_rows:
  "\<exists>agent. has_prefix (http_statement env (l\<lparr>hl_UserAgent := agent\<rparr>))
     (http_statement env (forged\<lparr>hl_Method := hl_Method l, hl_Scheme := hl_Scheme l,
        hl_Host := hl_Host l, hl_Path := hl_Path l\<rparr>) @ text)"
proof -
  let ?f = "forged\<lparr>hl_Method := hl_Method l, hl_Scheme := hl_Scheme l, hl_Host := hl_Host l, hl_Path := hl_Path l\<rparr>"
  obtain rest where rest: "http_statement env ?f = before_agent l @ rest"
    using http_statement_agent [of env ?f] by (auto simp: before_agent_def)
  have "before_agent (l\<lparr>hl_UserAgent := rest @ text\<rparr>) = before_agent l" by (simp add: before_agent_def)
  then obtain tail where "http_statement env (l\<lparr>hl_UserAgent := rest @ text\<rparr>) =
      (before_agent l @ rest @ text) @ tail"
    using http_statement_agent [of env "l\<lparr>hl_UserAgent := rest @ text\<rparr>"] by auto
  then show ?thesis using rest by (intro exI [of _ "rest @ text"]) (simp add: has_prefix_def)
qed

end
