(* ===== verification/LiveApi.thy ===== *)
theory LiveApi
  imports RestApi GoIO
begin

text \<open>
  The live handlers of \<open>rapi/rapi.go\<close>: they look a node up, ask the admin interface of its Envoy
  and parse the text it answers with.  What the database finds and what an HTTP request
  returns are parameters.  A handler's result is \<open>None\<close> when it never returns, else a panic or
  the replies it has written, in order.
\<close>

section \<open>Types\<close>

record NodeInfoType =
  nfo_Version :: string
  nfo_State :: string
  nfo_UptimeCurrentEpoch :: string
  nfo_UptimeAllEpoch :: string

record LoggingLiveType =
  log_Module :: string
  log_Loglevel :: string

record ListenerLiveType =
  lsl_Name :: string
  lsl_Address :: string

record EndpointLiveType =
  epl_Address :: string
  epl_Priority :: int
  epl_Health :: string
  epl_RequestsSuccess :: u64
  epl_RequestsTotal :: u64

record ClustersLiveType =
  cll_Name :: string
  cll_Endpoints :: "EndpointLiveType list"

definition LoggingModules :: "string \<Rightarrow> bool" where
  "LoggingModules m \<longleftrightarrow> m \<in> set [''client'', ''config'', ''connection'', ''conn_handler'', ''decompression'',
     ''grpc'', ''hc'', ''health_checker'', ''http'', ''http2'', ''init'', ''main'', ''misc'', ''quic'',
     ''quic_stream'', ''pool'', ''router'', ''runtime'', ''stats'', ''secret'', ''tracing'', ''upstream'', ''udp'']"

definition LoggingLevels :: "string \<Rightarrow> bool" where
  "LoggingLevels l \<longleftrightarrow> l \<in> set [''info'', ''debug'', ''trace'']"

datatype live_reply =
    LiveError int string
  | LiveLogging "LoggingLiveType list"
  | LiveNodes "string \<rightharpoonup> NodeInfoType"
  | LiveListeners "string \<rightharpoonup> ListenerLiveType list"
  | LiveClusters "string \<rightharpoonup> ClustersLiveType list"
  | LiveConfig string
  | ConfigNodes "NodeStaticConfigType list"
  | CorsPreflight int "(string \<times> string) list"

type_synonym live_result = "live_reply list go option"

definition replies :: "live_reply list \<Rightarrow> live_result" where
  "replies rs = Some (Inr rs)"

text \<open>What an HTTP client gets for a URL: an error, or a response body.\<close>

type_synonym http = "string \<Rightarrow> string + body"

definition admin_url :: "NodeStaticConfigType \<Rightarrow> string \<Rightarrow> string" where
  "admin_url node path = ''http://'' @ nd_Address node @ '':9901/'' @ path"

section \<open>Logging levels\<close>

definition logging_line :: "string \<Rightarrow> LoggingLiveType list \<Rightarrow> LoggingLiveType list go" where
  "logging_line line loggingResult =
     (let logger = go_split line '':'' in
      bind_go (index_go logger 0) (\<lambda>m.
      let loggerModule = trim_space m in
      if LoggingModules loggerModule then
        bind_go (index_go logger 1) (\<lambda>l.
        Inr (loggingResult @ [\<lparr>log_Module = loggerModule, log_Loglevel = trim_space l\<rparr>]))
      else Inr loggingResult))"

text \<open>The first line is dropped, with whatever error it came.\<close>

definition read_logging :: "body \<Rightarrow> LoggingLiveType list go option" where
  "read_logging b =
     (case read_string (bd_text b) of (line, err, rest) \<Rightarrow> read_loop logging_line (bd_end b) rest [])"

definition logging_replies :: "live_reply list \<Rightarrow> string + NodeStaticConfigType \<Rightarrow> http \<Rightarrow> string \<Rightarrow> live_result" where
  "logging_replies before node_found post path =
     (case node_found of
        Inl err \<Rightarrow> replies (before @ [LiveLogging []])
      | Inr newNode \<Rightarrow>
          (case post (admin_url newNode path) of
             Inl err \<Rightarrow> replies (before @ [LiveLogging []])
           | Inr r \<Rightarrow>
               (case read_logging r of
                  None \<Rightarrow> None
                | Some (Inl p) \<Rightarrow> Some (Inl p)
                | Some (Inr ls) \<Rightarrow> replies (before @ [LiveLogging ls]))))"

definition GetLiveLogging :: "string + NodeStaticConfigType \<Rightarrow> http \<Rightarrow> live_result" where
  "GetLiveLogging node_found post = logging_replies [] node_found post ''logging''"

text \<open>The guard on the node's name goes on after its reply, as the others do.\<close>

definition PutLiveLogging ::
    "string \<Rightarrow> string + LoggingLiveType \<Rightarrow> string + NodeStaticConfigType \<Rightarrow> http \<Rightarrow> live_result" where
  "PutLiveLogging node bound node_found post =
     (let before = (if length node < 2 then [LiveError 400 ''invalid name''] else []) in
      case bound of
        Inl err \<Rightarrow> replies (before @ [LiveError 400 err])
      | Inr l \<Rightarrow>
          if \<not> LoggingModules (log_Module l) \<or> \<not> LoggingLevels (log_Loglevel l)
          then replies (before @ [LiveError 400 ''invalid data''])
          else logging_replies before node_found post
                 (''logging?'' @ log_Module l @ ''='' @ log_Loglevel l))"

section \<open>Nodes\<close>

text \<open>
  One variable holds the information of all nodes: \<open>json.Decode\<close> (\<open>decode_info\<close>, with whether it
  succeeded) works on the value the node before has left.
\<close>

fun live_nodes ::
    "http \<Rightarrow> (body \<Rightarrow> NodeInfoType \<Rightarrow> bool \<times> NodeInfoType) \<Rightarrow> NodeStaticConfigType list
       \<Rightarrow> NodeInfoType \<Rightarrow> (string \<rightharpoonup> NodeInfoType) \<Rightarrow> (string \<rightharpoonup> NodeInfoType)" where
  "live_nodes get decode_info [] n nodes = nodes"
| "live_nodes get decode_info (node # rest) n nodes =
     (case get (admin_url node ''server_info'') of
        Inl err \<Rightarrow> live_nodes get decode_info rest n nodes
      | Inr r \<Rightarrow>
          (let (ok, n) = decode_info r n
           in live_nodes get decode_info rest n (if ok then nodes(nd_Name node \<mapsto> n) else nodes)))"

definition zero_info :: NodeInfoType where
  "zero_info = \<lparr>nfo_Version = [], nfo_State = [], nfo_UptimeCurrentEpoch = [], nfo_UptimeAllEpoch = []\<rparr>"

definition GetLiveNodes ::
    "NodeStaticConfigType query \<Rightarrow> http \<Rightarrow> (body \<Rightarrow> NodeInfoType \<Rightarrow> bool \<times> NodeInfoType) \<Rightarrow> live_result" where
  "GetLiveNodes found get decode_info =
     replies [LiveNodes (live_nodes get decode_info (decoded found) zero_info Map.empty)]"

definition GetConfigNode :: "NodeStaticConfigType query \<Rightarrow> live_result" where
  "GetConfigNode found = replies [ConfigNodes (decoded found)]"

section \<open>Listeners\<close>

text \<open>\<open>nodes[name] = append(nodes[name], x)\<close>\<close>

definition entries_of :: "(string \<rightharpoonup> 'a list) \<Rightarrow> string \<Rightarrow> 'a list" where
  "entries_of m k = (case m k of None \<Rightarrow> [] | Some xs \<Rightarrow> xs)"

definition listener_line ::
    "string \<Rightarrow> string \<Rightarrow> (string \<rightharpoonup> ListenerLiveType list) \<Rightarrow> (string \<rightharpoonup> ListenerLiveType list) go" where
  "listener_line name line nodes =
     (let listener = go_split line ''::'' in
      bind_go (index_go listener 0) (\<lambda>l0.
      bind_go (index_go listener 1) (\<lambda>l1.
      Inr (nodes(name \<mapsto> entries_of nodes name @
        [\<lparr>lsl_Name = l0, lsl_Address = trim_suffix l1 [newline]\<rparr>])))))"

definition live_get ::
    "string + NodeStaticConfigType \<Rightarrow> http \<Rightarrow> string \<Rightarrow> (string \<Rightarrow> string \<Rightarrow> 's \<Rightarrow> 's go) \<Rightarrow> 's \<Rightarrow> ('s \<Rightarrow> live_reply)
       \<Rightarrow> live_result" where
  "live_get node_found get path line_step s0 answer =
     (case node_found of
        Inl err \<Rightarrow> replies [answer s0]
      | Inr newNode \<Rightarrow>
          (case get (admin_url newNode path) of
             Inl err \<Rightarrow> replies [answer s0]
           | Inr r \<Rightarrow>
               (case read_loop (line_step (nd_Name newNode)) (bd_end r) (bd_text r) s0 of
                  None \<Rightarrow> None
                | Some (Inl p) \<Rightarrow> Some (Inl p)
                | Some (Inr s) \<Rightarrow> replies [answer s])))"

definition GetLiveListeners :: "string + NodeStaticConfigType \<Rightarrow> http \<Rightarrow> live_result" where
  "GetLiveListeners node_found get =
     live_get node_found get ''listeners'' listener_line Map.empty LiveListeners"

section \<open>Clusters\<close>

text \<open>The switch on the name of a figure; its value is the fourth piece.\<close>

definition endpoint_figure :: "string list \<Rightarrow> EndpointLiveType \<Rightarrow> EndpointLiveType go" where
  "endpoint_figure clusters e =
     bind_go (index_go clusters 2) (\<lambda>figure.
     if figure = ''priority'' then
       bind_go (index_go clusters 3) (\<lambda>v. Inr (e\<lparr>epl_Priority := atoi v\<rparr>))
     else if figure = ''health_flags'' then
       bind_go (index_go clusters 3) (\<lambda>v. Inr (e\<lparr>epl_Health := v\<rparr>))
     else if figure = ''rq_total'' then
       bind_go (index_go clusters 3) (\<lambda>v. Inr (e\<lparr>epl_RequestsTotal := of_nat (parse_uint 32 v)\<rparr>))
     else if figure = ''rq_success'' then
       bind_go (index_go clusters 3) (\<lambda>v. Inr (e\<lparr>epl_RequestsSuccess := of_nat (parse_uint 32 v)\<rparr>))
     else Inr e)"

definition new_endpoint :: "string \<Rightarrow> EndpointLiveType" where
  "new_endpoint addr = \<lparr>epl_Address = addr, epl_Priority = 0, epl_Health = [],
     epl_RequestsSuccess = 0, epl_RequestsTotal = 0\<rparr>"

text \<open>A new last element unless the last one has the key already.\<close>

definition ensure_last :: "('a \<Rightarrow> string) \<Rightarrow> (string \<Rightarrow> 'a) \<Rightarrow> string \<Rightarrow> 'a list \<Rightarrow> 'a list" where
  "ensure_last key new k xs = (if length xs = 0 \<or> key (last xs) \<noteq> k then xs @ [new k] else xs)"

definition cluster_line ::
    "string \<Rightarrow> string \<Rightarrow> (string \<rightharpoonup> ClustersLiveType list) \<Rightarrow> (string \<rightharpoonup> ClustersLiveType list) go" where
  "cluster_line name line nodes =
     (let clusters = go_split (trim_suffix line [newline]) ''::'' in
      bind_go (index_go clusters 0) (\<lambda>c0.
      if c0 = ''xds_cluster'' \<or> c0 = ''log_cluster'' then Inr nodes
      else bind_go (index_go clusters 1) (\<lambda>c1.
      if c1 = ''default_priority'' \<or> c1 = ''high_priority'' \<or> c1 = ''added_via_api'' then Inr nodes
      else
        (let cs = ensure_last cll_Name (\<lambda>n. \<lparr>cll_Name = n, cll_Endpoints = []\<rparr>) c0 (entries_of nodes name);
             eps = ensure_last epl_Address new_endpoint c1 (cll_Endpoints (last cs))
         in bind_go (endpoint_figure clusters (last eps)) (\<lambda>e.
            Inr (nodes(name \<mapsto> butlast cs @ [(last cs)\<lparr>cll_Endpoints := butlast eps @ [e]\<rparr>])))))))"

definition GetLiveClusters :: "string + NodeStaticConfigType \<Rightarrow> http \<Rightarrow> live_result" where
  "GetLiveClusters node_found get =
     live_get node_found get ''clusters'' cluster_line Map.empty LiveClusters"

section \<open>The whole configuration, and preflight requests\<close>

text \<open>What was read before an error is passed on as if it were all.\<close>

definition GetLiveConfig :: "string + NodeStaticConfigType \<Rightarrow> http \<Rightarrow> live_result" where
  "GetLiveConfig node_found get =
     (case node_found of
        Inl err \<Rightarrow> replies [LiveError 400 ''failed to get config'']
      | Inr newNode \<Rightarrow>
          (case get (admin_url newNode ''config_dump'') of
             Inl err \<Rightarrow> replies [LiveError 400 ''failed to get config'']
           | Inr r \<Rightarrow> replies [LiveConfig (bd_text r)]))"

text \<open>All twelve handlers of \<open>OPTIONS\<close> requests.\<close>

definition options_reply :: live_result where
  "options_reply = replies [CorsPreflight 204
     [(''Access-Control-Allow-Origin'', ''*''), (''Access-Control-Allow-Methods'', ''GET, PUT, OPTIONS, DELETE''),
      (''Access-Control-Allow-Headers'', ''content-type''), (''Content-Type'', ''text/plain'')]]"

end
