(* ===== verification/LiveProps.thy ===== *)
theory LiveProps
  imports LiveApi
begin

text \<open>
  Properties of the live handlers: which bodies they answer, what they make of the texts that
  Envoy's admin interface prints, and where the texts are misread.
\<close>

section \<open>Answering and not answering\<close>

lemma read_logging_EOF:
  "bd_end b = EOF \<Longrightarrow> \<exists>r. read_logging b = Some r"
  by (simp add: read_logging_def read_loop_EOF split: prod.splits)

text \<open>As long as the bodies Envoy sends end properly every live handler returns, with a reply or
  with a panic that gin answers.\<close>

theorem live_handlers_return:
  assumes "\<And>url r. get url = Inr r \<Longrightarrow> bd_end r = EOF"
  shows "GetLiveLogging node_found get \<noteq> None \<and> PutLiveLogging node bound node_found get \<noteq> None \<and>
    GetLiveListeners node_found get \<noteq> None \<and> GetLiveClusters node_found get \<noteq> None"
proof -
  have logging: "logging_replies before node_found get path \<noteq> None" for before path
    using assms read_logging_EOF
    by (fastforce simp: logging_replies_def replies_def split: sum.splits option.splits)
  have lines: "live_get node_found get path step s answer \<noteq> None"
    for path and step :: "string \<Rightarrow> string \<Rightarrow> 's \<Rightarrow> 's go" and s answer
    using assms by (auto simp: live_get_def replies_def read_loop_EOF split: sum.splits)
  show ?thesis
    by (auto simp: GetLiveLogging_def PutLiveLogging_def GetLiveListeners_def GetLiveClusters_def
        logging lines replies_def Let_def split: sum.splits simp del: not_None_eq)
qed

theorem live_handlers_return_witness:
  "GetLiveLogging (Inl ''no node'') (\<lambda>url. Inr \<lparr>bd_text = ''active loggers'', bd_end = EOF\<rparr>) \<noteq> None \<and>
   GetLiveListeners (Inl ''no node'') (\<lambda>url. Inr \<lparr>bd_text = ''active loggers'', bd_end = EOF\<rparr>) \<noteq> None"
proof -
  have "bd_end r = EOF" if "Inr \<lparr>bd_text = ''active loggers'', bd_end = EOF\<rparr> = (Inr r :: string + body)" for r
    using that by auto
  from live_handlers_return [where get = "\<lambda>url. Inr \<lparr>bd_text = ''active loggers'', bd_end = EOF\<rparr>", OF this]
  show ?thesis by blast
qed

text \<open>What an empty line does: nothing to the logging levels, an index out of range to the others.\<close>

lemma empty_line [simp]:
  "logging_line [] s = Inr s" "listener_line name [] nodes = Inl IndexOutOfRange"
  "cluster_line name [] nodes' = Inl IndexOutOfRange"
  by (simp_all add: logging_line_def listener_line_def cluster_line_def go_split_def index_go_def
      LoggingModules_def trim_space_def trim_suffix_def has_prefix_def)

lemma broken_never_answers:
  assumes "\<And>s. step [] s = Inr s \<or> (\<exists>p. step [] s = Inl p)"
  shows "read_loop step Broken buf s \<noteq> Some (Inr t)"
proof -
  have "read_loop step Broken [] s' \<noteq> Some (Inr t)" for s'
  proof (cases "step [] s'")
    case (Inr u)
    with assms [of s'] have "step [] s' = Inr s'" by auto
    then show ?thesis by (simp add: read_loop_spins)
  qed (simp add: read_loop_Broken_Nil)
  then show ?thesis by (simp add: read_loop_Broken split: sum.splits)
qed

lemma broken_line_panics:
  assumes "\<And>s. \<exists>p. step [] s = Inl p"
  shows "\<exists>p. read_loop step Broken buf s = Some (Inl p)"
proof -
  have "\<exists>p. read_loop step Broken [] s' = Some (Inl p)" for s'
    using assms [of s'] by (auto simp: read_loop_Broken_Nil)
  then show ?thesis by (auto simp: read_loop_Broken split: sum.splits)
qed

text \<open>When the connection to Envoy breaks or times out while its answer is read, no live handler
  replies: the listings of listeners and clusters panic, and the listing of logging levels
  panics or reads the dead connection for ever.\<close>

theorem broken_body_not_answered:
  assumes "\<And>url. get url = Inr \<lparr>bd_text = received url, bd_end = Broken\<rparr>"
  shows "GetLiveLogging (Inr node) get \<noteq> Some (Inr rs) \<and>
    (\<exists>p. GetLiveListeners (Inr node) get = Some (Inl p)) \<and>
    (\<exists>p. GetLiveClusters (Inr node) get = Some (Inl p))"
proof (intro conjI)
  have "read_loop logging_line Broken rest [] \<noteq> Some (Inr ls)" for rest ls
    by (rule broken_never_answers) simp
  then show "GetLiveLogging (Inr node) get \<noteq> Some (Inr rs)"
    using assms
    by (auto simp: GetLiveLogging_def logging_replies_def read_logging_def
        split: option.splits sum.splits prod.splits)
  show "\<exists>p. GetLiveListeners (Inr node) get = Some (Inl p)"
    using broken_line_panics [of "listener_line (nd_Name node)" "received (admin_url node ''listeners'')" Map.empty] assms
    by (auto simp: GetLiveListeners_def live_get_def)
  show "\<exists>p. GetLiveClusters (Inr node) get = Some (Inl p)"
    using broken_line_panics [of "cluster_line (nd_Name node)" "received (admin_url node ''clusters'')" Map.empty] assms
    by (auto simp: GetLiveClusters_def live_get_def)
qed

definition sample_node_config :: NodeStaticConfigType where
  "sample_node_config = \<lparr>nd_Name = ''n1'', nd_Address = ''10.0.0.1'', nd_Version = ''v1'', nd_Addresses = []\<rparr>"

text \<open>A header line, then silence: the handler spins.\<close>

lemma logging_spins:
  "GetLiveLogging (Inr sample_node_config) (\<lambda>url. Inr \<lparr>bd_text = ''active'', bd_end = Broken\<rparr>) = None"
proof -
  have "read_string ''active'' = (''active'', True, [])" by (simp add: newline_def)
  then show ?thesis by (simp add: GetLiveLogging_def logging_replies_def read_logging_def read_loop_spins)
qed

theorem broken_body_not_answered_witness:
  "\<exists>p. GetLiveListeners (Inr sample_node_config) (\<lambda>url. Inr \<lparr>bd_text = ''web::10.0.0.1'', bd_end = Broken\<rparr>) = Some (Inl p)"
  using broken_body_not_answered [where get = "\<lambda>url. Inr \<lparr>bd_text = ''web::10.0.0.1'', bd_end = Broken\<rparr>"
      and received = "\<lambda>url. ''web::10.0.0.1''" and node = sample_node_config] by blast

section \<open>Logging levels\<close>

text \<open>Whatever a caller asks for, a logging request to Envoy names one of the known modules and
  one of the known levels: what Envoy would answer to any other request makes no difference.\<close>

theorem logging_requests_known:
  assumes "\<And>n m l. LoggingModules m \<Longrightarrow> LoggingLevels l \<Longrightarrow>
    post (admin_url n (''logging?'' @ m @ ''='' @ l)) = post' (admin_url n (''logging?'' @ m @ ''='' @ l))"
  shows "PutLiveLogging node bound node_found post = PutLiveLogging node bound node_found post'"
proof (cases bound)
  case (Inr l)
  show ?thesis
  proof (cases "LoggingModules (log_Module l) \<and> LoggingLevels (log_Loglevel l)")
    case True
    then show ?thesis
      using assms by (simp add: PutLiveLogging_def Inr logging_replies_def split: sum.splits)
  qed (auto simp: PutLiveLogging_def Inr Let_def)
qed (simp add: PutLiveLogging_def)

theorem logging_requests_known_witness:
  "PutLiveLogging ''n1'' (Inr \<lparr>log_Module = ''http&x'', log_Loglevel = ''info''\<rparr>) (Inr sample_node_config) (\<lambda>url. Inl ''a'')
   = PutLiveLogging ''n1'' (Inr \<lparr>log_Module = ''http&x'', log_Loglevel = ''info''\<rparr>) (Inr sample_node_config)
      (\<lambda>url. if \<exists>n m l. LoggingModules m \<and> LoggingLevels l \<and> url = admin_url n (''logging?'' @ m @ ''='' @ l)
        then Inl ''a'' else Inr \<lparr>bd_text = [], bd_end = EOF\<rparr>)"
  by (rule logging_requests_known) auto

text \<open>Only known modules are listed.\<close>

lemma logging_lines_known:
  assumes "foldM logging_line ls acc = Inr res" and "\<forall>e \<in> set acc. LoggingModules (log_Module e)"
  shows "\<forall>e \<in> set res. LoggingModules (log_Module e)"
  by (rule foldM_invariant [OF assms(1), where P = "\<lambda>acc. \<forall>e \<in> set acc. LoggingModules (log_Module e)"])
    (use assms(2) in \<open>auto simp: logging_line_def Let_def go_simps split: if_splits\<close>)

section \<open>Lines of the admin interface\<close>

definition admin_line :: "string list \<Rightarrow> string" where
  "admin_line ps = go_join ps ''::'' @ [newline]"

definition piece :: "string \<Rightarrow> bool" where
  "piece p \<longleftrightarrow> clean (CHR '':'') p \<and> newline \<notin> set p"

lemma go_split_join_pieces:
  "ps \<noteq> [] \<Longrightarrow> (\<forall>p \<in> set ps. clean (CHR '':'') p) \<Longrightarrow> go_split (go_join ps ''::'') ''::'' = ps"
proof (induction ps rule: induct_list012)
  case (3 p q ps)
  then show ?case using go_split_double [of "CHR '':''" p] by simp
qed (simp_all add: go_split_double_last)

lemma go_join_chars: "c \<notin> set sep \<Longrightarrow> (\<forall>p \<in> set ps. c \<notin> set p) \<Longrightarrow> c \<notin> set (go_join ps sep)"
  by (induction ps sep rule: go_join.induct) auto

lemma admin_lines_complete:
  assumes "\<forall>ps \<in> set pss. \<forall>p \<in> set ps. piece p"
  shows "complete_lines (concat (map admin_line pss)) = map admin_line pss"
proof -
  have "\<forall>l \<in> set (map (\<lambda>ps. go_join ps ''::'') pss). newline \<notin> set l"
  proof
    fix l assume "l \<in> set (map (\<lambda>ps. go_join ps ''::'') pss)"
    then obtain ps where l: "l = go_join ps ''::''" and "\<forall>p \<in> set ps. newline \<notin> set p"
      using assms by (auto simp: piece_def)
    then show "newline \<notin> set l" unfolding l by (intro go_join_chars) (simp_all add: newline_not_colon)
  qed
  from complete_lines_concat [OF this, of "[]"] show ?thesis by (simp add: admin_line_def [abs_def] comp_def)
qed

lemma split_admin_line:
  assumes "ps \<noteq> []" and "\<forall>p \<in> set ps. piece p"
  shows "go_split (trim_suffix (admin_line ps) [newline]) ''::'' = ps"
  using assms by (simp add: admin_line_def go_split_join_pieces piece_def)

section \<open>Listeners\<close>

lemma clean_snoc: "clean d x \<Longrightarrow> c \<noteq> d \<Longrightarrow> clean d (x @ [c])"
  by (induction d x rule: clean.induct) auto

lemma listener_line_parsed:
  assumes "piece (lsl_Name l)" and "piece (lsl_Address l)"
  shows "listener_line name (admin_line [lsl_Name l, lsl_Address l]) nodes =
    Inr (nodes(name \<mapsto> entries_of nodes name @ [l]))"
proof -
  have "clean (CHR '':'') (lsl_Address l @ [newline])"
    using assms(2) by (simp add: piece_def clean_snoc newline_not_colon)
  then have "go_split (admin_line [lsl_Name l, lsl_Address l]) ''::'' = [lsl_Name l, lsl_Address l @ [newline]]"
    using assms(1) go_split_double [of "CHR '':''" "lsl_Name l"]
    by (simp add: admin_line_def piece_def go_split_double_last)
  then show ?thesis by (cases l) (simp add: listener_line_def)
qed

text \<open>The listeners that Envoy prints, one line of name and address each, are listed under the
  node's name as they are, in order, as long as no address has two colons in a row.\<close>

theorem listeners_roundtrip:
  assumes "get (admin_url node ''listeners'') =
      Inr \<lparr>bd_text = concat (map (\<lambda>l. admin_line [lsl_Name l, lsl_Address l]) ls), bd_end = EOF\<rparr>"
    and "\<forall>l \<in> set ls. piece (lsl_Name l) \<and> piece (lsl_Address l)"
  shows "GetLiveListeners (Inr node) get =
    replies [LiveListeners (if ls = [] then Map.empty else [nd_Name node \<mapsto> ls])]"
proof -
  have "complete_lines (concat (map (\<lambda>l. admin_line [lsl_Name l, lsl_Address l]) ls)) =
      map (\<lambda>l. admin_line [lsl_Name l, lsl_Address l]) ls"
    using assms(2) admin_lines_complete [of "map (\<lambda>l. [lsl_Name l, lsl_Address l]) ls"] by (simp add: comp_def)
  moreover have "foldM (listener_line (nd_Name node)) (map (\<lambda>l. admin_line [lsl_Name l, lsl_Address l]) ls) nodes =
      Inr (if ls = [] then nodes else nodes(nd_Name node \<mapsto> entries_of nodes (nd_Name node) @ ls))" for nodes
    using assms(2)
    by (induction ls arbitrary: nodes) (auto simp: listener_line_parsed entries_of_def)
  ultimately show ?thesis
    using assms(1) by (simp add: GetLiveListeners_def live_get_def read_loop_EOF entries_of_def)
qed

definition sample_listeners :: "ListenerLiveType list" where
  "sample_listeners = [\<lparr>lsl_Name = ''web'', lsl_Address = ''0.0.0.0:80''\<rparr>, \<lparr>lsl_Name = ''tls'', lsl_Address = ''0.0.0.0:443''\<rparr>]"

theorem listeners_roundtrip_witness:
  "GetLiveListeners (Inr sample_node_config)
     (\<lambda>url. Inr \<lparr>bd_text = concat (map (\<lambda>l. admin_line [lsl_Name l, lsl_Address l]) sample_listeners), bd_end = EOF\<rparr>) =
   replies [LiveListeners [''n1'' \<mapsto> sample_listeners]]"
proof -
  have "\<forall>l \<in> set sample_listeners. piece (lsl_Name l) \<and> piece (lsl_Address l)"
    by (simp add: sample_listeners_def piece_def newline_def)
  from listeners_roundtrip [OF _ this, of _ sample_node_config] show ?thesis
    by (simp add: sample_listeners_def sample_node_config_def)
qed

text \<open>An address with two colons in a row, such as that of a listener on all IPv6 addresses, is
  cut off there: \<open>[::]:80\<close> is listed as \<open>[\<close>.\<close>

theorem ipv6_listener_cut:
  assumes "clean (CHR '':'') name" and "clean (CHR '':'') start" and "newline \<notin> set start"
  shows "listener_line n (name @ ''::'' @ start @ ''::'' @ rest @ [newline]) nodes =
    Inr (nodes(n \<mapsto> entries_of nodes n @ [\<lparr>lsl_Name = name, lsl_Address = start\<rparr>]))"
proof -
  have "go_split (name @ ''::'' @ start @ ''::'' @ rest @ [newline]) ''::'' = name # start # go_split (rest @ [newline]) ''::''"
    using assms go_split_double [of "CHR '':''" name] go_split_double [of "CHR '':''" start] by simp
  moreover have "trim_suffix start [newline] = start"
    using assms(3) by (cases start rule: rev_cases) (auto simp: trim_suffix_def has_prefix_def)
  ultimately show ?thesis by (simp add: listener_line_def)
qed

section \<open>Nodes\<close>

text \<open>\<open>GetLiveNodes\<close> decodes the information of all nodes into one variable, so what Envoy leaves
  out for a node is shown with the value of the node before: of a node that answers with an
  empty object everything shown belongs to its predecessor.\<close>

theorem live_nodes_show_predecessor:
  assumes "get (admin_url a ''server_info'') = Inr ra" and "get (admin_url b ''server_info'') = Inr rb"
    and "decode_info ra zero_info = (True, info)" and "decode_info rb = (\<lambda>n. (True, n))"
  shows "\<exists>nodes. GetLiveNodes (Inr [Some a, Some b]) get decode_info = replies [LiveNodes nodes] \<and>
    nodes (nd_Name b) = Some info"
  using assms
  by (intro exI [of _ "[nd_Name a \<mapsto> info, nd_Name b \<mapsto> info]"]) (simp add: GetLiveNodes_def decoded_def)

theorem live_nodes_show_predecessor_witness:
  "\<exists>nodes. GetLiveNodes (Inr [Some sample_node_config, Some (sample_node_config\<lparr>nd_Name := ''n2'', nd_Address := ''10.0.0.2''\<rparr>)])
     (\<lambda>url. Inr \<lparr>bd_text = (if url = admin_url sample_node_config ''server_info'' then ''LIVE'' else []), bd_end = EOF\<rparr>)
     (\<lambda>b n. (True, if bd_text b = [] then n else n\<lparr>nfo_State := bd_text b\<rparr>)) = replies [LiveNodes nodes] \<and>
   nodes ''n2'' = Some (zero_info\<lparr>nfo_State := ''LIVE''\<rparr>)"
  using live_nodes_show_predecessor [where a = sample_node_config
      and b = "sample_node_config\<lparr>nd_Name := ''n2'', nd_Address := ''10.0.0.2''\<rparr>"
      and get = "\<lambda>url. Inr \<lparr>bd_text = (if url = admin_url sample_node_config ''server_info'' then ''LIVE'' else []), bd_end = EOF\<rparr>"
      and decode_info = "\<lambda>b n. (True, if bd_text b = [] then n else n\<lparr>nfo_State := bd_text b\<rparr>)"]
  by (simp add: admin_url_def sample_node_config_def)

end
