(* ===== verification/LiveClusters.thy ===== *)
theory LiveClusters
  imports LiveProps
begin

text \<open>
  The listing of clusters against the text that Envoy prints on \<open>/clusters\<close>: for each cluster its
  own lines, then, endpoint after endpoint, one line for each figure.
\<close>

section \<open>What Envoy prints\<close>

text \<open>A line of a cluster, and the figures of an endpoint that the handler reads, with one it does not.\<close>

definition cluster_lines :: "string \<Rightarrow> string list list" where
  "cluster_lines c = [[c, ''default_priority'', ''max_connections'', ''1024''],
     [c, ''high_priority'', ''max_connections'', ''1024''], [c, ''added_via_api'', ''true'']]"

definition endpoint_lines :: "string \<Rightarrow> EndpointLiveType \<Rightarrow> string list list" where
  "endpoint_lines c e = [[c, epl_Address e, ''cx_active'', ''0''],
     [c, epl_Address e, ''rq_success'', format_uint (unat (epl_RequestsSuccess e))],
     [c, epl_Address e, ''rq_total'', format_uint (unat (epl_RequestsTotal e))],
     [c, epl_Address e, ''health_flags'', epl_Health e],
     [c, epl_Address e, ''priority'', format_uint (nat (epl_Priority e))]]"

definition printed_cluster :: "ClustersLiveType \<Rightarrow> string list list" where
  "printed_cluster c =
     cluster_lines (cll_Name c) @ concat (map (endpoint_lines (cll_Name c)) (cll_Endpoints c))"

definition own_cluster :: "string \<Rightarrow> bool" where
  "own_cluster c \<longleftrightarrow> c = ''xds_cluster'' \<or> c = ''log_cluster''"

definition cluster_key :: "string \<Rightarrow> bool" where
  "cluster_key a \<longleftrightarrow> a = ''default_priority'' \<or> a = ''high_priority'' \<or> a = ''added_via_api''"

definition endpoint_printable :: "EndpointLiveType \<Rightarrow> bool" where
  "endpoint_printable e \<longleftrightarrow> piece (epl_Address e) \<and> \<not> cluster_key (epl_Address e) \<and> piece (epl_Health e) \<and>
     0 \<le> epl_Priority e \<and> epl_Priority e < 2 ^ 63 \<and>
     unat (epl_RequestsSuccess e) < 2 ^ 32 \<and> unat (epl_RequestsTotal e) < 2 ^ 32"

definition cluster_printable :: "ClustersLiveType \<Rightarrow> bool" where
  "cluster_printable c \<longleftrightarrow> piece (cll_Name c) \<and> \<not> own_cluster (cll_Name c) \<and> cll_Endpoints c \<noteq> [] \<and>
     distinct (map epl_Address (cll_Endpoints c)) \<and> (\<forall>e \<in> set (cll_Endpoints c). endpoint_printable e)"

section \<open>Reading one line\<close>

lemma piece_format_uint [simp]: "piece (format_uint n)"
  by (auto simp: piece_def intro!: clean_notin format_uint_chars) (simp_all add: is_digit_def newline_def format_uint_chars)

lemma cluster_line_skipped:
  assumes "ps \<noteq> []" and "\<forall>p \<in> set ps. piece p" and "1 < length ps" and "cluster_key (ps ! 1) \<or> own_cluster (ps ! 0)"
  shows "cluster_line n (admin_line ps) nodes = Inr nodes"
  using assms by (auto simp: cluster_line_def split_admin_line cluster_key_def own_cluster_def)

text \<open>The entries of the node after a line on an endpoint.\<close>

definition after_line ::
    "string list \<Rightarrow> ClustersLiveType list \<Rightarrow> (ClustersLiveType list) go" where
  "after_line ps cs0 =
     (let cs = ensure_last cll_Name (\<lambda>n. \<lparr>cll_Name = n, cll_Endpoints = []\<rparr>) (ps ! 0) cs0;
          eps = ensure_last epl_Address new_endpoint (ps ! 1) (cll_Endpoints (last cs))
      in bind_go (endpoint_figure ps (last eps)) (\<lambda>e.
         Inr (butlast cs @ [(last cs)\<lparr>cll_Endpoints := butlast eps @ [e]\<rparr>])))"

lemma cluster_line_endpoint:
  assumes "1 < length ps" and "\<forall>p \<in> set ps. piece p" and "\<not> cluster_key (ps ! 1)" and "\<not> own_cluster (ps ! 0)"
  shows "cluster_line n (admin_line ps) nodes =
    bind_go (after_line ps (entries_of nodes n)) (\<lambda>cs. Inr (nodes(n \<mapsto> cs)))"
proof -
  have "ps \<noteq> []" using assms(1) by auto
  with assms show ?thesis
    by (simp add: cluster_line_def split_admin_line cluster_key_def own_cluster_def after_line_def Let_def bind_go_assoc)
qed

text \<open>A line on the last endpoint of the last cluster.\<close>

lemma after_line_last:
  "after_line [c, a, f, v] (cs @ [\<lparr>cll_Name = c, cll_Endpoints = eps @ [e]\<rparr>]) =
     bind_go (endpoint_figure [c, a, f, v] e) (\<lambda>e. Inr (cs @ [\<lparr>cll_Name = c, cll_Endpoints = eps @ [e]\<rparr>]))"
  if "epl_Address e = a"
  using that by (simp add: after_line_def ensure_last_def Let_def)

lemma after_line_new_endpoint:
  assumes "a \<notin> epl_Address ` set eps"
  shows "after_line [c, a, ''cx_active'', v] (cs @ [\<lparr>cll_Name = c, cll_Endpoints = eps\<rparr>]) =
    Inr (cs @ [\<lparr>cll_Name = c, cll_Endpoints = eps @ [new_endpoint a]\<rparr>])"
proof -
  have "eps = [] \<or> epl_Address (last eps) \<noteq> a" using assms by (cases eps rule: rev_cases) auto
  then show ?thesis
    by (auto simp: after_line_def ensure_last_def Let_def endpoint_figure_def new_endpoint_def)
qed

lemma after_line_new_cluster:
  assumes "c \<notin> cll_Name ` set cs"
  shows "after_line [c, a, ''cx_active'', v] cs = Inr (cs @ [\<lparr>cll_Name = c, cll_Endpoints = [new_endpoint a]\<rparr>])"
proof -
  have "cs = [] \<or> cll_Name (last cs) \<noteq> c" using assms by (cases cs rule: rev_cases) auto
  then show ?thesis
    by (auto simp: after_line_def ensure_last_def Let_def endpoint_figure_def new_endpoint_def)
qed

text \<open>What the figures of an endpoint are read as.\<close>

lemma figures_read:
  "endpoint_figure [c, a, ''rq_success'', v] e = Inr (e\<lparr>epl_RequestsSuccess := of_nat (parse_uint 32 v)\<rparr>)"
  "endpoint_figure [c, a, ''rq_total'', v] e = Inr (e\<lparr>epl_RequestsTotal := of_nat (parse_uint 32 v)\<rparr>)"
  "endpoint_figure [c, a, ''health_flags'', v] e = Inr (e\<lparr>epl_Health := v\<rparr>)"
  "endpoint_figure [c, a, ''priority'', v] e = Inr (e\<lparr>epl_Priority := atoi v\<rparr>)"
  by (simp_all add: endpoint_figure_def index_go_def)

text \<open>The request counts of an endpoint are read as 32-bit numbers: a count of \<open>2 ^ 32\<close> or more,
  which Envoy's 64-bit counters reach, is shown as 4294967295 from then on.\<close>

theorem request_counts_saturate:
  "endpoint_figure [c, a, ''rq_total'', format_uint n] e =
     Inr (e\<lparr>epl_RequestsTotal := of_nat (min n 4294967295)\<rparr>) \<and>
   endpoint_figure [c, a, ''rq_success'', format_uint n] e =
     Inr (e\<lparr>epl_RequestsSuccess := of_nat (min n 4294967295)\<rparr>)"
  by (simp add: figures_read parse_uint_format)

section \<open>Reading the whole text\<close>

lemma read_count: "unat x < 2 ^ 32 \<Longrightarrow> of_nat (parse_uint 32 (format_uint (unat x))) = x" for x :: u64
  by (simp add: parse_uint_format min_def)

lemma endpoint_values:
  assumes "endpoint_printable e"
  shows "of_nat (parse_uint 32 (format_uint (unat (epl_RequestsSuccess e)))) = epl_RequestsSuccess e"
    "of_nat (parse_uint 32 (format_uint (unat (epl_RequestsTotal e)))) = epl_RequestsTotal e"
    "atoi (format_uint (nat (epl_Priority e))) = epl_Priority e"
proof -
  have "nat (epl_Priority e) < 2 ^ 63" using assms by (simp add: endpoint_printable_def nat_less_iff)
  then show "atoi (format_uint (nat (epl_Priority e))) = epl_Priority e"
    using assms by (simp add: atoi_format_uint endpoint_printable_def)
qed (use assms in \<open>simp_all only: endpoint_printable_def read_count\<close>)

definition step_lines :: "string list list \<Rightarrow> ClustersLiveType list \<Rightarrow> ClustersLiveType list go" where
  "step_lines pss cs = foldM (\<lambda>ps cs. if cluster_key (ps ! 1) then Inr cs else after_line ps cs) pss cs"

lemma step_lines_append: "step_lines (xs @ ys) cs = bind_go (step_lines xs cs) (step_lines ys)"
  by (simp add: step_lines_def [abs_def] foldM_append)

lemma new_endpoint_address [simp]: "epl_Address (new_endpoint a) = a"
  by (simp add: new_endpoint_def)

lemma endpoint_rebuilt:
  "new_endpoint (epl_Address e)\<lparr>epl_RequestsSuccess := epl_RequestsSuccess e, epl_RequestsTotal := epl_RequestsTotal e,
     epl_Health := epl_Health e, epl_Priority := epl_Priority e\<rparr> = e"
  by (cases e) (simp add: new_endpoint_def)

lemma endpoint_rest:
  assumes "endpoint_printable e"
  shows "step_lines (tl (endpoint_lines c e)) (cs @ [\<lparr>cll_Name = c, cll_Endpoints = eps @ [new_endpoint (epl_Address e)]\<rparr>]) =
    Inr (cs @ [\<lparr>cll_Name = c, cll_Endpoints = eps @ [e]\<rparr>])"
proof -
  have "\<not> cluster_key (epl_Address e)" using assms by (simp add: endpoint_printable_def)
  then show ?thesis
    by (simp add: step_lines_def endpoint_lines_def after_line_last figures_read endpoint_values [OF assms]
        endpoint_rebuilt)
qed

lemma endpoint_read_next:
  assumes "endpoint_printable e" and "epl_Address e \<notin> epl_Address ` set eps"
  shows "step_lines (endpoint_lines c e) (cs @ [\<lparr>cll_Name = c, cll_Endpoints = eps\<rparr>]) =
    Inr (cs @ [\<lparr>cll_Name = c, cll_Endpoints = eps @ [e]\<rparr>])"
proof -
  have "\<not> cluster_key (epl_Address e)" using assms by (simp add: endpoint_printable_def)
  then have "step_lines (endpoint_lines c e) (cs @ [\<lparr>cll_Name = c, cll_Endpoints = eps\<rparr>]) =
      step_lines (tl (endpoint_lines c e)) (cs @ [\<lparr>cll_Name = c, cll_Endpoints = eps @ [new_endpoint (epl_Address e)]\<rparr>])"
    by (simp add: step_lines_def endpoint_lines_def after_line_new_endpoint [OF assms(2)])
  then show ?thesis by (simp add: endpoint_rest [OF assms(1)])
qed

lemma endpoint_read_first:
  assumes "endpoint_printable e" and "c \<notin> cll_Name ` set cs"
  shows "step_lines (endpoint_lines c e) cs = Inr (cs @ [\<lparr>cll_Name = c, cll_Endpoints = [e]\<rparr>])"
proof -
  have "\<not> cluster_key (epl_Address e)" using assms by (simp add: endpoint_printable_def)
  then have "step_lines (endpoint_lines c e) cs =
      step_lines (tl (endpoint_lines c e)) (cs @ [\<lparr>cll_Name = c, cll_Endpoints = [] @ [new_endpoint (epl_Address e)]\<rparr>])"
    by (simp add: step_lines_def endpoint_lines_def after_line_new_cluster [OF assms(2)])
  then show ?thesis using endpoint_rest [OF assms(1), of c cs "[]"] by simp
qed

lemma endpoints_read:
  assumes "\<forall>e \<in> set es. endpoint_printable e" and "distinct (map epl_Address (eps @ es))"
  shows "step_lines (concat (map (endpoint_lines c) es)) (cs @ [\<lparr>cll_Name = c, cll_Endpoints = eps\<rparr>]) =
    Inr (cs @ [\<lparr>cll_Name = c, cll_Endpoints = eps @ es\<rparr>])"
  using assms
proof (induction es arbitrary: eps)
  case (Cons e es)
  have "epl_Address e \<notin> epl_Address ` set eps" using Cons.prems(2) by auto
  with Cons.prems(1) have "step_lines (endpoint_lines c e) (cs @ [\<lparr>cll_Name = c, cll_Endpoints = eps\<rparr>]) =
      Inr (cs @ [\<lparr>cll_Name = c, cll_Endpoints = eps @ [e]\<rparr>])"
    by (intro endpoint_read_next) simp_all
  with Cons.IH [of "eps @ [e]"] Cons.prems show ?case by (simp add: step_lines_append)
qed (simp add: step_lines_def)

lemma cluster_read:
  assumes "cluster_printable c" and "cll_Name c \<notin> cll_Name ` set cs"
  shows "step_lines (printed_cluster c) cs = Inr (cs @ [c])"
proof -
  obtain e es where es: "cll_Endpoints c = e # es"
    using assms(1) by (cases "cll_Endpoints c") (auto simp: cluster_printable_def)
  have "step_lines (cluster_lines (cll_Name c)) cs = Inr cs"
    by (simp add: step_lines_def cluster_lines_def cluster_key_def)
  moreover have "step_lines (endpoint_lines (cll_Name c) e) cs = Inr (cs @ [\<lparr>cll_Name = cll_Name c, cll_Endpoints = [e]\<rparr>])"
    using assms es by (intro endpoint_read_first) (simp_all add: cluster_printable_def)
  moreover have "step_lines (concat (map (endpoint_lines (cll_Name c)) es)) (cs @ [\<lparr>cll_Name = cll_Name c, cll_Endpoints = [e]\<rparr>]) =
      Inr (cs @ [\<lparr>cll_Name = cll_Name c, cll_Endpoints = [e] @ es\<rparr>])"
    using assms es by (intro endpoints_read) (simp_all add: cluster_printable_def)
  moreover have "\<lparr>cll_Name = cll_Name c, cll_Endpoints = [e] @ es\<rparr> = c" using es by (cases c) simp
  ultimately show ?thesis by (simp add: printed_cluster_def es step_lines_append)
qed

lemma clusters_read:
  assumes "\<forall>c \<in> set cs. cluster_printable c" and "distinct (map cll_Name (cs0 @ cs))"
  shows "step_lines (concat (map printed_cluster cs)) cs0 = Inr (cs0 @ cs)"
  using assms
proof (induction cs arbitrary: cs0)
  case (Cons c cs)
  have "cll_Name c \<notin> cll_Name ` set cs0" using Cons.prems(2) by auto
  with Cons.prems(1) have "step_lines (printed_cluster c) cs0 = Inr (cs0 @ [c])"
    by (intro cluster_read) simp_all
  with Cons.IH [of "cs0 @ [c]"] Cons.prems show ?case by (simp add: step_lines_append)
qed (simp add: step_lines_def)

text \<open>From the lines on the entries of one node to the lines of the text.\<close>

definition line_ok :: "string list \<Rightarrow> bool" where
  "line_ok ps \<longleftrightarrow> 1 < length ps \<and> (\<forall>p \<in> set ps. piece p) \<and> \<not> own_cluster (ps ! 0)"

lemma foldM_cluster_lines:
  assumes "\<forall>ps \<in> set pss. line_ok ps" and "step_lines pss (entries_of nodes n) = Inr cs" and "cs \<noteq> []"
  shows "foldM (cluster_line n) (map admin_line pss) nodes = Inr (nodes(n \<mapsto> cs)) \<or>
    foldM (cluster_line n) (map admin_line pss) nodes = Inr nodes \<and> entries_of nodes n = cs"
  using assms
proof (induction pss arbitrary: nodes)
  case Nil
  then show ?case by (simp add: step_lines_def)
next
  case (Cons ps pss)
  have ps: "1 < length ps" "\<forall>p \<in> set ps. piece p" "\<not> own_cluster (ps ! 0)"
    using Cons.prems(1) by (simp_all add: line_ok_def)
  show ?case
  proof (cases "cluster_key (ps ! 1)")
    case True
    then have "cluster_line n (admin_line ps) nodes = Inr nodes"
      using ps by (intro cluster_line_skipped) auto
    moreover have "step_lines pss (entries_of nodes n) = Inr cs"
      using Cons.prems(2) True by (simp add: step_lines_def)
    ultimately show ?thesis using Cons by simp
  next
    case False
    then obtain cs1 where cs1: "after_line ps (entries_of nodes n) = Inr cs1" "step_lines pss cs1 = Inr cs"
      using Cons.prems(2) by (auto simp: step_lines_def go_simps)
    then have "cluster_line n (admin_line ps) nodes = Inr (nodes(n \<mapsto> cs1))"
      using ps False by (simp add: cluster_line_endpoint)
    moreover have entries: "entries_of (nodes(n \<mapsto> cs1)) n = cs1" by (simp add: entries_of_def)
    have "foldM (cluster_line n) (map admin_line pss) (nodes(n \<mapsto> cs1)) = Inr (nodes(n \<mapsto> cs))"
      using Cons.IH [of "nodes(n \<mapsto> cs1)", unfolded entries] Cons.prems(1,3) cs1(2)
      by (auto simp del: fun_upd_apply)
    ultimately show ?thesis by (simp del: fun_upd_apply)
  qed
qed

lemma printed_line_ok:
  assumes "cluster_printable c" and "ps \<in> set (printed_cluster c)"
  shows "line_ok ps"
proof -
  have "piece ''default_priority'' \<and> piece ''high_priority'' \<and> piece ''added_via_api'' \<and> piece ''max_connections'' \<and>
      piece ''1024'' \<and> piece ''true'' \<and> piece ''cx_active'' \<and> piece ''0'' \<and> piece ''rq_success'' \<and>
      piece ''rq_total'' \<and> piece ''health_flags'' \<and> piece ''priority''"
    by (simp add: piece_def newline_def)
  with assms show ?thesis
    by (auto simp: printed_cluster_def cluster_lines_def endpoint_lines_def cluster_printable_def
        endpoint_printable_def line_ok_def)
qed


definition sample_clusters :: "ClustersLiveType list" where
  "sample_clusters = [\<lparr>cll_Name = ''web'', cll_Endpoints = [
     \<lparr>epl_Address = ''10.0.0.7:80'', epl_Priority = 1, epl_Health = ''healthy'', epl_RequestsSuccess = 9, epl_RequestsTotal = 12\<rparr>,
     \<lparr>epl_Address = ''10.0.0.8:80'', epl_Priority = 0, epl_Health = ''/failed_active_hc'', epl_RequestsSuccess = 0, epl_RequestsTotal = 3\<rparr>]\<rparr>]"


end
