(* ===== verification/NodeAgent.thy ===== *)
theory NodeAgent
  imports GoIO
begin

text \<open>
  The node agent (\<open>ipmgmt_server.go\<close>, with the types of \<open>ipmgmt/ipmgmt.go\<close>): an HTTP server on
  each node that lists and changes interfaces and routes by running \<open>nmcli\<close>.  The state of a
  handler is the world behind \<open>nmcli\<close>, the commands it has run and the replies it has written.
  A handler that panics is \<open>Inl\<close>; gin answers such a request with status 500.
\<close>

section \<open>Types\<close>

record NodeInterfaceConfigType =
  ni_Name :: string
  ni_Ipnet :: "string list"

record NodeInterfaceListConfigType =
  nil_Ifaces :: "NodeInterfaceConfigType list"

record NodeRouteConfigType =
  nr_Net :: string
  nr_Iface :: string
  nr_Nexthop :: string
  nr_Src :: string

record NodeRouteListConfigType =
  nrl_Routes :: "NodeRouteConfigType list"

section \<open>Running commands\<close>

text \<open>
  \<open>run_cmd\<close> runs \<open>nmcli\<close> with its arguments: what it printed, and whether it succeeded.
  \<open>parse_cidr\<close> is whether \<open>net.ParseCIDR\<close> accepts a text.
\<close>

record 'w agent_env =
  run_cmd :: "string list \<Rightarrow> 'w \<Rightarrow> (string \<times> bool) \<times> 'w"
  parse_cidr :: "string \<Rightarrow> bool"

datatype agent_reply =
    AgentError int string
  | AgentStatus int
  | AgentInterfaces NodeInterfaceListConfigType
  | AgentRoutes NodeRouteListConfigType

record 'w agent =
  ag_world :: 'w
  ag_commands :: "string list list"
  ag_replies :: "agent_reply list"

definition agent_run :: "'w agent_env \<Rightarrow> string list \<Rightarrow> 'w agent \<Rightarrow> (string \<times> bool) \<times> 'w agent" where
  "agent_run env args st =
     (let (res, w) = run_cmd env args (ag_world st)
      in (res, st\<lparr>ag_world := w, ag_commands := ag_commands st @ [args]\<rparr>))"

definition agent_reply :: "agent_reply \<Rightarrow> 'w agent \<Rightarrow> 'w agent" where
  "agent_reply r st = st\<lparr>ag_replies := ag_replies st @ [r]\<rparr>"

section \<open>Listing the interfaces\<close>

text \<open>
  \<open>for k := 0; k < len(keyValue); k += 2 { if keyValue[k] == key { \<dots> keyValue[k+1] \<dots> } }\<close>: the
  values of a key at the even positions of a line.
\<close>

fun key_values :: "string \<Rightarrow> string list \<Rightarrow> string list go" where
  "key_values key [] = Inr []"
| "key_values key [k] = (if k = key then Inl IndexOutOfRange else Inr [])"
| "key_values key (k # v # kvs) =
     bind_go (key_values key kvs) (\<lambda>vs. Inr (if k = key then trim_space v # vs else vs))"

definition device_line :: "string \<Rightarrow> NodeInterfaceConfigType list \<Rightarrow> NodeInterfaceConfigType list go" where
  "device_line line ifaces =
     bind_go (key_values ''GENERAL.DEVICE'' (go_split line '':'')) (\<lambda>names.
     Inr (ifaces @ map (\<lambda>name. \<lparr>ni_Name = name, ni_Ipnet = []\<rparr>) names))"

text \<open>\<open>kv := strings.Split(line, ":")\<close> and the trimmed \<open>kv[1]\<close>.\<close>

definition line_value :: "string \<Rightarrow> string go" where
  "line_value line = bind_go (index_go (go_split line '':'') 1) (\<lambda>v. Inr (trim_space v))"

definition address_line :: "string \<Rightarrow> string list \<Rightarrow> string list go" where
  "address_line line ipnet = bind_go (line_value line) (\<lambda>a. Inr (ipnet @ [a]))"

text \<open>
  The second loop.  All commands write to the one buffer \<open>out\<close>, which is read only after a
  command that succeeded; \<open>v.Ipnet\<close> of the loop's copy is not the interface's.
\<close>

fun interface_addresses ::
    "'w agent_env \<Rightarrow> NodeInterfaceConfigType list \<Rightarrow> string \<Rightarrow> 'w agent
       \<Rightarrow> (NodeInterfaceConfigType list \<times> 'w agent) go" where
  "interface_addresses env [] out st = Inr ([], st)"
| "interface_addresses env (v # vs) out st =
     (let ((printed, ok), st) = agent_run env
            [''--mode'', ''multiline'', ''--fields'', ''IP4.ADDRESS'', ''dev'', ''show'', ni_Name v] st;
          out = out @ printed
      in if ok then
           bind_go (for_lines address_line out (ni_Ipnet v)) (\<lambda>ipnet.
           bind_go (interface_addresses env vs [] st) (\<lambda>(rest, st). Inr (v\<lparr>ni_Ipnet := ipnet\<rparr> # rest, st)))
         else
           bind_go (interface_addresses env vs out st) (\<lambda>(rest, st). Inr (v # rest, st)))"

text \<open>The list, and whether there was an error.\<close>

definition getLocalInterfaces ::
    "'w agent_env \<Rightarrow> 'w agent \<Rightarrow> ((NodeInterfaceListConfigType \<times> bool) \<times> 'w agent) go" where
  "getLocalInterfaces env st =
     (let ((out, ok), st) = agent_run env [''--mode'', ''multiline'', ''dev'', ''show''] st
      in if \<not> ok then Inr ((\<lparr>nil_Ifaces = []\<rparr>, True), st)
         else bind_go (for_lines device_line out []) (\<lambda>ifaces.
              bind_go (interface_addresses env ifaces [] st) (\<lambda>(ifaces, st).
              Inr ((\<lparr>nil_Ifaces = ifaces\<rparr>, False), st))))"

definition GetLocalInterfaces :: "'w agent_env \<Rightarrow> 'w agent \<Rightarrow> 'w agent go" where
  "GetLocalInterfaces env st =
     bind_go (getLocalInterfaces env st) (\<lambda>((ifaceList, err), st).
     Inr (if err then agent_reply (AgentError 400 ''failed to get interfaces'') st
          else agent_reply (AgentInterfaces ifaceList) st))"

section \<open>Listing the routes\<close>

definition route_line :: "string \<Rightarrow> string \<Rightarrow> NodeRouteConfigType list \<Rightarrow> NodeRouteConfigType list go" where
  "route_line iface line routes =
     bind_go (line_value line) (\<lambda>v.
     let lroute = go_split v '' '' in
     bind_go (index_go lroute 2) (\<lambda>net.
     bind_go (index_go lroute 5) (\<lambda>hop.
     Inr (routes @ [\<lparr>nr_Net = trim_right net '','', nr_Iface = iface,
       nr_Nexthop = trim_right hop '','', nr_Src = []\<rparr>]))))"

fun interface_routes ::
    "'w agent_env \<Rightarrow> NodeInterfaceConfigType list \<Rightarrow> string \<Rightarrow> NodeRouteConfigType list \<Rightarrow> 'w agent
       \<Rightarrow> (NodeRouteConfigType list \<times> 'w agent) go" where
  "interface_routes env [] out routes st = Inr (routes, st)"
| "interface_routes env (iface # ifaces) out routes st =
     (let ((printed, ok), st) = agent_run env
            [''--mode'', ''multiline'', ''--fields'', ''IP4.ROUTE'', ''conn'', ''show'', ni_Name iface] st;
          out = out @ printed
      in if ok then
           bind_go (for_lines (route_line (ni_Name iface)) out routes) (\<lambda>routes.
           interface_routes env ifaces [] routes st)
         else interface_routes env ifaces out routes st)"

definition GetLocalRoutes :: "'w agent_env \<Rightarrow> 'w agent \<Rightarrow> 'w agent go" where
  "GetLocalRoutes env st =
     bind_go (getLocalInterfaces env st) (\<lambda>((ifaceList, err), st).
     if err then Inr (agent_reply (AgentError 400 ''failed to get routes'') st)
     else bind_go (interface_routes env (nil_Ifaces ifaceList) [] [] st) (\<lambda>(routes, st).
          Inr (agent_reply (AgentRoutes \<lparr>nrl_Routes = routes\<rparr>) st)))"

section \<open>Changing an interface\<close>

text \<open>The last connection named in the output; the empty name when there is none.\<close>

definition connection_line :: "string \<Rightarrow> string \<Rightarrow> string go" where
  "connection_line line conName =
     bind_go (key_values ''GENERAL.CONNECTION'' (go_split line '':'')) (\<lambda>names.
     Inr (if names = [] then conName else last names))"

text \<open>One round of the loop over the addresses: the flag is whether the handler has replied.\<close>

definition set_address ::
    "'w agent_env \<Rightarrow> string \<Rightarrow> string \<Rightarrow> 'w agent \<Rightarrow> (bool \<times> 'w agent) go" where
  "set_address env name addr st =
     (if \<not> parse_cidr env addr then Inr (False, st)
      else
        (let ((out, ok), st) = agent_run env [''--mode'', ''multiline'', ''dev'', ''show'', name] st
         in if \<not> ok then Inr (True, agent_reply (AgentError 400 ''failed to set routes'') st)
            else bind_go (for_lines connection_line out []) (\<lambda>conName.
              let ((_, ok), st) =
                (if conName = ''--''
                 then agent_run env [''conn'', ''add'', ''con-name'', name, ''ifname'', name, ''type'',
                        ''ethernet'', ''ip4'', addr] st
                 else agent_run env [''conn'', ''modify'', name, ''+ipv4.address'', addr] st)
              in if \<not> ok then Inr (True, agent_reply (AgentError 400 ''failed to set routes'') st)
                 else Inr (False, st))))"

definition del_address ::
    "'w agent_env \<Rightarrow> string \<Rightarrow> string \<Rightarrow> 'w agent \<Rightarrow> (bool \<times> 'w agent) go" where
  "del_address env name addr st =
     (if \<not> parse_cidr env addr then Inr (False, st)
      else
        (let ((_, ok), st) = agent_run env [''conn'', ''modify'', name, ''-ipv4.address'', addr] st
         in if \<not> ok then Inr (True, agent_reply (AgentError 400 ''failed to set routes'') st)
            else Inr (False, st)))"

text \<open>The loop leaves the handler at the first reply.\<close>

fun each_address ::
    "(string \<Rightarrow> 'w agent \<Rightarrow> (bool \<times> 'w agent) go) \<Rightarrow> string list \<Rightarrow> 'w agent \<Rightarrow> (bool \<times> 'w agent) go" where
  "each_address f [] st = Inr (False, st)"
| "each_address f (a # as) st =
     bind_go (f a st) (\<lambda>(replied, st). if replied then Inr (True, st) else each_address f as st)"

definition conn_up :: "'w agent_env \<Rightarrow> string \<Rightarrow> 'w agent \<Rightarrow> 'w agent" where
  "conn_up env name st = agent_reply (AgentStatus 204) (snd (agent_run env [''conn'', ''up'', name] st))"

text \<open>
  What \<open>ShouldBindJSON\<close> makes of a request: an error, or the struct.  The interface handlers bind
  to a pointer to a pointer, so that the body \<open>null\<close> leaves nil behind.
\<close>

definition SetLocalInterface ::
    "'w agent_env \<Rightarrow> string + NodeInterfaceConfigType option \<Rightarrow> 'w agent \<Rightarrow> 'w agent go" where
  "SetLocalInterface env bound st =
     (case bound of
        Inl err \<Rightarrow> Inr (agent_reply (AgentError 400 err) st)
      | Inr nodeInterface \<Rightarrow>
          bind_go (deref nodeInterface) (\<lambda>i.
          bind_go (each_address (set_address env (ni_Name i)) (ni_Ipnet i) st) (\<lambda>(replied, st).
          Inr (if replied then st else conn_up env (ni_Name i) st))))"

definition DelLocalInterface ::
    "'w agent_env \<Rightarrow> string + NodeInterfaceConfigType option \<Rightarrow> 'w agent \<Rightarrow> 'w agent go" where
  "DelLocalInterface env bound st =
     (case bound of
        Inl err \<Rightarrow> Inr (agent_reply (AgentError 400 err) st)
      | Inr nodeInterface \<Rightarrow>
          bind_go (deref nodeInterface) (\<lambda>i.
          bind_go (each_address (del_address env (ni_Name i)) (ni_Ipnet i) st) (\<lambda>(replied, st).
          Inr (if replied then st else conn_up env (ni_Name i) st))))"

section \<open>Changing a route\<close>

definition change_route ::
    "string \<Rightarrow> 'w agent_env \<Rightarrow> string + NodeRouteConfigType \<Rightarrow> 'w agent \<Rightarrow> 'w agent" where
  "change_route field env bound st =
     (case bound of
        Inl err \<Rightarrow> agent_reply (AgentError 400 err) st
      | Inr r \<Rightarrow>
          if \<not> parse_cidr env (nr_Net r) then agent_reply (AgentError 400 ''failed to parse routes'') st
          else (let ((_, ok), st) = agent_run env
                      [''conn'', ''modify'', nr_Iface r, field, nr_Net r @ '' '' @ nr_Nexthop r] st
                in if \<not> ok then agent_reply (AgentError 400 ''failed to set routes'') st
                   else conn_up env (nr_Iface r) st))"

definition SetLocalRoute :: "'w agent_env \<Rightarrow> string + NodeRouteConfigType \<Rightarrow> 'w agent \<Rightarrow> 'w agent" where
  "SetLocalRoute = change_route ''+ipv4.routes''"

definition DelLocalRoute :: "'w agent_env \<Rightarrow> string + NodeRouteConfigType \<Rightarrow> 'w agent \<Rightarrow> 'w agent" where
  "DelLocalRoute = change_route ''-ipv4.routes''"

end
