(* ===== verification/NodeAgentProps.thy ===== *)
theory NodeAgentProps
  imports NodeAgent
begin

text \<open>
  Properties of the node agent: when its listings panic, what they read from \<open>nmcli\<close>'s output,
  which command a request turns into, and how far a change has gone when it is answered.
\<close>

section \<open>Lines of \<open>nmcli\<close>\<close>

lemma last_split_from_snoc:
  "c \<noteq> d \<Longrightarrow> \<exists>p. last (split_from [d] acc (l @ [c])) = p @ [c]"
  by (induction "[d]" acc l rule: split_from.induct) auto

lemma last_go_split_snoc: "c \<noteq> d \<Longrightarrow> \<exists>p. last (go_split (l @ [c]) [d]) = p @ [c]"
  by (simp add: go_split_def last_split_from_snoc)

lemma key_values_returns: "ps \<noteq> [] \<Longrightarrow> last ps \<noteq> key \<Longrightarrow> \<exists>vs. key_values key ps = Inr vs"
proof (induction key ps rule: key_values.induct)
  case (3 key k v kvs)
  show ?case
  proof (cases "kvs = []")
    case False
    with 3 have "\<exists>vs. key_values key kvs = Inr vs" by auto
    then show ?thesis by auto
  qed simp
qed auto

text \<open>
  A key has no newline and a line ends in one, so the key is never the last piece of a line:
  the value after it can be read.
\<close>

lemma key_values_line:
  assumes "newline \<notin> set key" and "line = l @ [newline]"
  shows "\<exists>vs. key_values key (go_split line '':'') = Inr vs"
proof -
  obtain p where "last (go_split line '':'') = p @ [newline]"
    using last_go_split_snoc [of newline "CHR '':''" l] assms(2) by auto
  then have "last (go_split line '':'') \<noteq> key" using assms(1) by auto
  then show ?thesis by (intro key_values_returns) simp_all
qed

lemma foldM_no_panic: "(\<And>x s. x \<in> set xs \<Longrightarrow> f x s \<noteq> Inl p) \<Longrightarrow> foldM f xs s \<noteq> Inl p"
  by (induction xs arbitrary: s) (auto simp: go_simps)

lemma key_values_no_panic:
  assumes "line \<in> set (complete_lines out)" and "newline \<notin> set key"
  shows "key_values key (go_split line '':'') \<noteq> Inl p"
proof -
  obtain l where "line = l @ [newline]" using complete_lines_form [OF assms(1)] by blast
  from key_values_line [OF assms(2) this] show ?thesis by auto
qed

lemma device_lines_no_panic: "for_lines device_line out s \<noteq> Inl p"
  unfolding for_lines_eq
  by (rule foldM_no_panic) (simp add: device_line_def go_simps key_values_no_panic newline_def)

lemma connection_lines_no_panic: "for_lines connection_line out s \<noteq> Inl p"
  unfolding for_lines_eq
  by (rule foldM_no_panic) (simp add: connection_line_def go_simps key_values_no_panic newline_def)

section \<open>Changing addresses\<close>

lemma agent_run_simps:
  "agent_run env args st = (res, st') \<Longrightarrow> ag_commands st' = ag_commands st @ [args] \<and> ag_replies st' = ag_replies st"
  by (auto simp: agent_run_def split: prod.splits)

lemma agent_reply_simps [simp]:
  "ag_commands (agent_reply r st) = ag_commands st"
  "ag_replies (agent_reply r st) = ag_replies st @ [r]"
  by (simp_all add: agent_reply_def)

lemma set_address_no_panic: "set_address env name addr st \<noteq> Inl p"
  by (auto simp: set_address_def go_simps connection_lines_no_panic Let_def split: prod.splits if_splits)

lemma del_address_no_panic: "del_address env name addr st \<noteq> Inl p"
  by (auto simp: del_address_def Let_def split: prod.splits if_splits)

lemma each_address_no_panic: "(\<And>a st. f a st \<noteq> Inl p) \<Longrightarrow> each_address f as st \<noteq> Inl p"
  by (induction as arbitrary: st) (auto simp: go_simps)

lemma addresses_no_panic:
  "each_address (set_address env name) as st \<noteq> Inl p"
  "each_address (del_address env name) as st \<noteq> Inl p"
  by (auto intro!: each_address_no_panic simp: set_address_no_panic del_address_no_panic)

text \<open>Of all requests that change an interface only the body \<open>null\<close> makes the agent panic,
  whatever \<open>nmcli\<close> prints.\<close>

theorem interface_change_panics_iff:
  "((\<exists>p. SetLocalInterface env bound st = Inl p) \<longleftrightarrow> bound = Inr None) \<and>
   ((\<exists>p. DelLocalInterface env bound st = Inl p) \<longleftrightarrow> bound = Inr None)"
  by (cases bound; cases "case bound of Inr i \<Rightarrow> i | Inl _ \<Rightarrow> None")
    (auto simp: SetLocalInterface_def DelLocalInterface_def go_simps addresses_no_panic)

lemma address_changes_return:
  obtains st1 st2 where "SetLocalInterface env (Inr (Some i)) st = Inr st1"
    and "DelLocalInterface env (Inr (Some i)) st = Inr st2"
proof -
  have "\<exists>st1. SetLocalInterface env (Inr (Some i)) st = Inr st1"
    by (cases "each_address (set_address env (ni_Name i)) (ni_Ipnet i) st")
      (auto simp: SetLocalInterface_def go_simps addresses_no_panic)
  moreover have "\<exists>st2. DelLocalInterface env (Inr (Some i)) st = Inr st2"
    by (cases "each_address (del_address env (ni_Name i)) (ni_Ipnet i) st")
      (auto simp: DelLocalInterface_def go_simps addresses_no_panic)
  ultimately show ?thesis using that by blast
qed

text \<open>The commands that change the configuration, and the one an address is added with.\<close>

definition changes :: "string list list \<Rightarrow> string list list" where
  "changes cmds = filter (\<lambda>c. c \<noteq> [] \<and> hd c = ''conn'') cmds"

definition adds_address :: "string \<Rightarrow> string \<Rightarrow> string list \<Rightarrow> bool" where
  "adds_address name addr c \<longleftrightarrow>
     c = [''conn'', ''modify'', name, ''+ipv4.address'', addr] \<or>
     c = [''conn'', ''add'', ''con-name'', name, ''ifname'', name, ''type'', ''ethernet'', ''ip4'', addr]"

definition removes_address :: "string \<Rightarrow> string \<Rightarrow> string list \<Rightarrow> bool" where
  "removes_address name addr c \<longleftrightarrow> c = [''conn'', ''modify'', name, ''-ipv4.address'', addr]"

text \<open>
  How a loop over addresses ends: silently after one change for each valid address, or with an
  error after changes for the first of them.
\<close>

definition address_run ::
    "'w agent_env \<Rightarrow> (string \<Rightarrow> string list \<Rightarrow> bool) \<Rightarrow> string list \<Rightarrow> 'w agent \<Rightarrow> bool \<Rightarrow> 'w agent \<Rightarrow> bool" where
  "address_run env change addrs st replied st' \<longleftrightarrow>
     (\<exists>n new. n \<le> length (filter (parse_cidr env) addrs) \<and>
        ag_commands st' = ag_commands st @ new \<and>
        list_all2 change (take n (filter (parse_cidr env) addrs)) (changes new) \<and>
        (if replied then ag_replies st' = ag_replies st @ [AgentError 400 ''failed to set routes'']
         else ag_replies st' = ag_replies st \<and> n = length (filter (parse_cidr env) addrs)))"

text \<open>One round: an invalid address is skipped; a valid one is changed, or not even tried.\<close>

definition address_round ::
    "'w agent_env \<Rightarrow> (string \<Rightarrow> string list \<Rightarrow> bool) \<Rightarrow> string \<Rightarrow> 'w agent \<Rightarrow> bool \<Rightarrow> 'w agent \<Rightarrow> bool" where
  "address_round env change a st replied st' \<longleftrightarrow>
     (if parse_cidr env a then
        \<exists>new. ag_commands st' = ag_commands st @ new \<and>
          (list_all2 change [a] (changes new) \<or> replied \<and> changes new = []) \<and>
          ag_replies st' = ag_replies st @ (if replied then [AgentError 400 ''failed to set routes''] else [])
      else \<not> replied \<and> st' = st)"

lemma changes_append [simp]: "changes (xs @ ys) = changes xs @ changes ys"
  by (simp add: changes_def)

lemma address_run_step:
  assumes "address_round env change a st False st1" and "address_run env change as st1 replied st'"
  shows "address_run env change (a # as) st replied st'"
proof (cases "parse_cidr env a")
  case True
  from assms(2) obtain n new where run: "n \<le> length (filter (parse_cidr env) as)"
    "ag_commands st' = ag_commands st1 @ new"
    "list_all2 change (take n (filter (parse_cidr env) as)) (changes new)"
    "if replied then ag_replies st' = ag_replies st1 @ [AgentError 400 ''failed to set routes'']
     else ag_replies st' = ag_replies st1 \<and> n = length (filter (parse_cidr env) as)"
    by (auto simp: address_run_def)
  from assms(1) True obtain new1 where "ag_commands st1 = ag_commands st @ new1"
    "list_all2 change [a] (changes new1)" "ag_replies st1 = ag_replies st"
    by (auto simp: address_round_def)
  with run True show ?thesis
    unfolding address_run_def
    by (intro exI [of _ "Suc n"] exI [of _ "new1 @ new"]) (auto simp: list_all2_Cons1 split: if_splits)
next
  case False
  with assms show ?thesis by (auto simp: address_round_def address_run_def)
qed

lemma address_run_stop:
  assumes "address_round env change a st True st'"
  shows "address_run env change (a # as) st True st'"
proof -
  from assms have valid: "parse_cidr env a" by (auto simp: address_round_def split: if_splits)
  with assms obtain new where "ag_commands st' = ag_commands st @ new"
    "list_all2 change [a] (changes new) \<or> changes new = []"
    "ag_replies st' = ag_replies st @ [AgentError 400 ''failed to set routes'']"
    by (auto simp: address_round_def)
  with valid show ?thesis
    unfolding address_run_def
    by (intro exI [of _ "if changes new = [] then 0 else 1"] exI [of _ new]) auto
qed

lemma each_address_run:
  assumes "\<And>a st replied st'. f a st = Inr (replied, st') \<Longrightarrow> address_round env change a st replied st'"
    and "each_address f addrs st = Inr (replied, st')"
  shows "address_run env change addrs st replied st'"
  using assms(2)
proof (induction addrs arbitrary: st)
  case Nil
  then show ?case by (auto simp: address_run_def changes_def)
next
  case (Cons a as)
  then obtain r1 st1 where 1: "f a st = Inr (r1, st1)"
    "(if r1 then Inr (True, st1) else each_address f as st1) = Inr (replied, st')"
    by (auto simp: go_simps)
  show ?case
  proof (cases r1)
    case True
    with 1 assms(1) show ?thesis by (auto intro: address_run_stop)
  next
    case False
    with 1 Cons.IH [of st1] assms(1) [of a st r1 st1] show ?thesis by (auto intro: address_run_step)
  qed
qed

lemma set_address_round:
  assumes "set_address env name addr st = Inr (replied, st')"
  shows "address_round env (adds_address name) addr st replied st'"
  using assms
  by (auto simp: set_address_def address_round_def go_simps changes_def adds_address_def Let_def
      dest!: agent_run_simps split: if_splits prod.splits)

lemma del_address_round:
  assumes "del_address env name addr st = Inr (replied, st')"
  shows "address_round env (removes_address name) addr st replied st'"
  using assms
  by (auto simp: del_address_def address_round_def changes_def removes_address_def Let_def
      dest!: agent_run_simps split: if_splits prod.splits)

text \<open>
  The whole request: one change for each valid address in order and then \<open>conn up\<close> and 204; or
  an error after changes for the first of them, which stay configured but are not activated.
\<close>

definition interface_run ::
    "'w agent_env \<Rightarrow> (string \<Rightarrow> string list \<Rightarrow> bool) \<Rightarrow> string \<Rightarrow> string list \<Rightarrow> 'w agent \<Rightarrow> 'w agent \<Rightarrow> bool" where
  "interface_run env change name addrs st st' \<longleftrightarrow>
     (\<exists>n new. n \<le> length (filter (parse_cidr env) addrs) \<and>
        ag_commands st' = ag_commands st @ new \<and>
        (ag_replies st' = ag_replies st @ [AgentStatus 204] \<and> n = length (filter (parse_cidr env) addrs) \<and>
           (\<exists>cs. changes new = cs @ [[''conn'', ''up'', name]] \<and>
              list_all2 change (filter (parse_cidr env) addrs) cs) \<or>
         ag_replies st' = ag_replies st @ [AgentError 400 ''failed to set routes''] \<and>
           list_all2 change (take n (filter (parse_cidr env) addrs)) (changes new)))"

lemma conn_up_simps [simp]:
  "ag_commands (conn_up env name st) = ag_commands st @ [[''conn'', ''up'', name]]"
  "ag_replies (conn_up env name st) = ag_replies st @ [AgentStatus 204]"
  by (simp_all add: conn_up_def agent_run_def split: prod.splits)

lemma address_run_interface:
  assumes "address_run env change addrs st replied st1"
  shows "interface_run env change name addrs st (if replied then st1 else conn_up env name st1)"
proof (cases replied)
  case True
  with assms show ?thesis by (auto simp: address_run_def interface_run_def)
next
  case False
  with assms obtain new where "ag_commands st1 = ag_commands st @ new"
    "list_all2 change (filter (parse_cidr env) addrs) (changes new)" "ag_replies st1 = ag_replies st"
    by (auto simp: address_run_def)
  with False show ?thesis
    unfolding interface_run_def
    by (intro exI [of _ "length (filter (parse_cidr env) addrs)"] exI [of _ "new @ [[''conn'', ''up'', name]]"])
      (auto simp: changes_def)
qed

lemma interface_run_of_requests:
  assumes "SetLocalInterface env (Inr (Some i)) st = Inr st1"
    and "DelLocalInterface env (Inr (Some i)) st = Inr st2"
  shows "interface_run env (adds_address (ni_Name i)) (ni_Name i) (ni_Ipnet i) st st1 \<and>
    interface_run env (removes_address (ni_Name i)) (ni_Name i) (ni_Ipnet i) st st2"
proof -
  from assms(1) obtain r1 s1 where 1: "each_address (set_address env (ni_Name i)) (ni_Ipnet i) st = Inr (r1, s1)"
    "st1 = (if r1 then s1 else conn_up env (ni_Name i) s1)"
    by (auto simp: SetLocalInterface_def go_simps)
  from assms(2) obtain r2 s2 where 2: "each_address (del_address env (ni_Name i)) (ni_Ipnet i) st = Inr (r2, s2)"
    "st2 = (if r2 then s2 else conn_up env (ni_Name i) s2)"
    by (auto simp: DelLocalInterface_def go_simps)
  have "address_run env (adds_address (ni_Name i)) (ni_Ipnet i) st r1 s1"
    using each_address_run [OF _ 1(1)] set_address_round by blast
  moreover have "address_run env (removes_address (ni_Name i)) (ni_Ipnet i) st r2 s2"
    using each_address_run [OF _ 2(1)] del_address_round by blast
  ultimately show ?thesis using 1(2) 2(2) by (simp add: address_run_interface)
qed


section \<open>What is listed\<close>

text \<open>Output of \<open>nmcli\<close>: one line for each key and value.\<close>

definition nm_line :: "string \<times> string \<Rightarrow> string" where
  "nm_line kv = fst kv @ '':'' @ snd kv"

definition nm_text :: "(string \<times> string) list \<Rightarrow> string" where
  "nm_text kvs = concat (map (\<lambda>kv. nm_line kv @ [newline]) kvs)"

text \<open>A line that names a device, or one in which the key of devices does not occur as a piece.\<close>

definition device_ok :: "string \<times> string \<Rightarrow> bool" where
  "device_ok kv \<longleftrightarrow> newline \<notin> set (nm_line kv) \<and>
     (fst kv = ''GENERAL.DEVICE'' \<and> CHR '':'' \<notin> set (snd kv) \<or>
      ''GENERAL.DEVICE'' \<notin> set (go_split (nm_line kv @ [newline]) '':''))"

definition address_ok :: "string \<times> string \<Rightarrow> bool" where
  "address_ok kv \<longleftrightarrow> newline \<notin> set (nm_line kv) \<and> CHR '':'' \<notin> set (fst kv) \<and> CHR '':'' \<notin> set (snd kv)"

lemma complete_lines_nm_text:
  "(\<forall>kv \<in> set kvs. newline \<notin> set (nm_line kv)) \<Longrightarrow>
     complete_lines (nm_text kvs) = map (\<lambda>kv. nm_line kv @ [newline]) kvs"
  using complete_lines_concat [of "map nm_line kvs" "[]"] by (simp add: nm_text_def comp_def)

lemma trim_space_newline [simp]: "trim_space (s @ [newline]) = trim_space s"
proof -
  have "is_space newline" by (simp add: is_space_def newline_def)
  then show ?thesis
  proof (cases "\<forall>c \<in> set s. is_space c")
    case True
    then have "\<forall>c \<in> set (dropWhile is_space s). is_space c" by (auto dest: set_dropWhileD)
    with True \<open>is_space newline\<close> show ?thesis by (simp add: trim_space_def dropWhile_append2)
  next
    case False
    then obtain c where "c \<in> set s" "\<not> is_space c" by blast
    with \<open>is_space newline\<close> show ?thesis by (simp add: trim_space_def dropWhile_append1)
  qed
qed

lemma split_nm_line:
  assumes "CHR '':'' \<notin> set (fst kv)" and "CHR '':'' \<notin> set (snd kv)"
  shows "go_split (nm_line kv @ [newline]) '':'' = [fst kv, snd kv @ [newline]]"
proof -
  have "CHR '':'' \<notin> set (snd kv @ [newline])" using assms(2) newline_not_colon by auto
  then show ?thesis
    using assms(1) by (simp add: nm_line_def go_split_single_append go_split_single_no_sep)
qed

lemma key_values_absent: "key \<notin> set ps \<Longrightarrow> key_values key ps = Inr []"
  by (induction key ps rule: key_values.induct) auto

lemma device_line_ok:
  assumes "device_ok kv"
  shows "device_line (nm_line kv @ [newline]) ifaces =
    Inr (ifaces @ (if fst kv = ''GENERAL.DEVICE'' \<and> CHR '':'' \<notin> set (snd kv)
      then [\<lparr>ni_Name = trim_space (snd kv), ni_Ipnet = []\<rparr>] else []))"
proof (cases "fst kv = ''GENERAL.DEVICE'' \<and> CHR '':'' \<notin> set (snd kv)")
  case True
  then have "CHR '':'' \<notin> set (fst kv)" by simp
  with True split_nm_line [of kv] have "go_split (nm_line kv @ [newline]) '':'' = [''GENERAL.DEVICE'', snd kv @ [newline]]"
    by simp
  with True show ?thesis by (simp add: device_line_def)
next
  case False
  with assms have "''GENERAL.DEVICE'' \<notin> set (go_split (nm_line kv @ [newline]) '':'')"
    by (auto simp: device_ok_def)
  then have "key_values ''GENERAL.DEVICE'' (go_split (nm_line kv @ [newline]) '':'') = Inr []"
    by (rule key_values_absent)
  with False show ?thesis by (simp add: device_line_def)
qed

text \<open>The devices an output names, and the addresses.\<close>

definition devices :: "(string \<times> string) list \<Rightarrow> string list" where
  "devices kvs = map (\<lambda>kv. trim_space (snd kv))
     (filter (\<lambda>kv. fst kv = ''GENERAL.DEVICE'' \<and> CHR '':'' \<notin> set (snd kv)) kvs)"

lemma for_lines_devices:
  assumes "list_all device_ok kvs"
  shows "for_lines device_line (nm_text kvs) ifaces =
    Inr (ifaces @ map (\<lambda>d. \<lparr>ni_Name = d, ni_Ipnet = []\<rparr>) (devices kvs))"
proof -
  have "foldM device_line (map (\<lambda>kv. nm_line kv @ [newline]) kvs) ifaces =
      Inr (ifaces @ map (\<lambda>d. \<lparr>ni_Name = d, ni_Ipnet = []\<rparr>) (devices kvs))"
    using assms
    by (induction kvs arbitrary: ifaces) (simp_all add: devices_def device_line_ok)
  moreover have "\<forall>kv \<in> set kvs. newline \<notin> set (nm_line kv)"
    using assms by (auto simp: list_all_iff device_ok_def)
  ultimately show ?thesis by (simp add: for_lines_eq complete_lines_nm_text)
qed

lemma for_lines_addresses:
  assumes "list_all address_ok kvs"
  shows "for_lines address_line (nm_text kvs) ipnet = Inr (ipnet @ map (\<lambda>kv. trim_space (snd kv)) kvs)"
proof -
  have line: "address_line (nm_line kv @ [newline]) ip = Inr (ip @ [trim_space (snd kv)])"
    if "address_ok kv" for kv ip
    using that
    by (simp add: address_ok_def address_line_def line_value_def split_nm_line)
  have "foldM address_line (map (\<lambda>kv. nm_line kv @ [newline]) kvs) ipnet =
      Inr (ipnet @ map (\<lambda>kv. trim_space (snd kv)) kvs)"
    using assms by (induction kvs arbitrary: ipnet) (simp_all add: line)
  moreover have "\<forall>kv \<in> set kvs. newline \<notin> set (nm_line kv)"
    using assms by (auto simp: list_all_iff address_ok_def)
  ultimately show ?thesis by (simp add: for_lines_eq complete_lines_nm_text)
qed

text \<open>Commands that always print the same: the devices, and the addresses of each device.\<close>

definition prints :: "'w agent_env \<Rightarrow> (string \<times> string) list \<Rightarrow> (string \<Rightarrow> (string \<times> string) list) \<Rightarrow> bool" where
  "prints env devs addrs \<longleftrightarrow>
     (\<forall>w. fst (run_cmd env [''--mode'', ''multiline'', ''dev'', ''show''] w) = (nm_text devs, True)) \<and>
     (\<forall>name w. fst (run_cmd env [''--mode'', ''multiline'', ''--fields'', ''IP4.ADDRESS'', ''dev'', ''show'', name] w)
        = (nm_text (addrs name), True))"

lemma agent_run_printed:
  "fst (run_cmd env args (ag_world st)) = out \<Longrightarrow> \<exists>st1. agent_run env args st = (out, st1)"
  by (auto simp: agent_run_def split: prod.splits)

lemma interface_addresses_ok:
  assumes "prints env devs addrs" and "\<And>name. list_all address_ok (addrs name)"
  shows "\<exists>st'. interface_addresses env (map (\<lambda>d. \<lparr>ni_Name = d, ni_Ipnet = []\<rparr>) ds) [] st =
    Inr (map (\<lambda>d. \<lparr>ni_Name = d, ni_Ipnet = map (\<lambda>kv. trim_space (snd kv)) (addrs d)\<rparr>) ds, st')"
proof (induction ds arbitrary: st)
  case (Cons d ds)
  let ?args = "[''--mode'', ''multiline'', ''--fields'', ''IP4.ADDRESS'', ''dev'', ''show'', d]"
  obtain st1 where "agent_run env ?args st = ((nm_text (addrs d), True), st1)"
    using assms(1) agent_run_printed [of env ?args st] by (auto simp: prints_def)
  with Cons [of st1] show ?case by (auto simp: for_lines_addresses [OF assms(2)])
qed simp

text \<open>From an output of \<open>nmcli\<close> with one key and value to a line, the agent lists the values of
  the lines whose key is \<open>GENERAL.DEVICE\<close>, in order, each with all the values that the query for
  its addresses prints, without the spaces around them.\<close>

theorem interfaces_listed:
  assumes "prints env devs addrs" and "list_all device_ok devs" and "\<And>name. list_all address_ok (addrs name)"
  shows "\<exists>st'. GetLocalInterfaces env st = Inr (agent_reply (AgentInterfaces \<lparr>nil_Ifaces =
    map (\<lambda>d. \<lparr>ni_Name = d, ni_Ipnet = map (\<lambda>kv. trim_space (snd kv)) (addrs d)\<rparr>) (devices devs)\<rparr>) st')"
proof -
  let ?args = "[''--mode'', ''multiline'', ''dev'', ''show'']"
  obtain st1 where run: "agent_run env ?args st = ((nm_text devs, True), st1)"
    using assms(1) agent_run_printed [of env ?args st] by (auto simp: prints_def)
  from interface_addresses_ok [OF assms(1,3), of "devices devs" st1] run show ?thesis
    by (auto simp: GetLocalInterfaces_def getLocalInterfaces_def for_lines_devices [OF assms(2)])
qed

text \<open>What \<open>nmcli\<close> printed before it failed for one interface is not discarded but listed as
  addresses of the next interface for which it succeeds.\<close>

theorem failed_output_moves_to_next:
  assumes "agent_run env [''--mode'', ''multiline'', ''--fields'', ''IP4.ADDRESS'', ''dev'', ''show'', ni_Name a] st
      = ((nm_text printed, False), st1)"
    and "agent_run env [''--mode'', ''multiline'', ''--fields'', ''IP4.ADDRESS'', ''dev'', ''show'', ni_Name b] st1
      = ((nm_text own, True), st2)"
    and "list_all address_ok printed" and "list_all address_ok own"
  shows "interface_addresses env [a, b] [] st =
    Inr ([a, b\<lparr>ni_Ipnet := ni_Ipnet b @ map (\<lambda>kv. trim_space (snd kv)) (printed @ own)\<rparr>], st2)"
proof -
  have "nm_text printed @ nm_text own = nm_text (printed @ own)" by (simp add: nm_text_def)
  then show ?thesis using assms by (simp add: for_lines_addresses)
qed

section \<open>A sample node\<close>

text \<open>Two interfaces; the query for addresses of the first prints a line and fails if \<open>broken\<close>.\<close>

definition sample_node :: "bool \<Rightarrow> unit agent_env" where
  "sample_node broken = \<lparr>run_cmd = (\<lambda>args w.
       (if args = [''--mode'', ''multiline'', ''dev'', ''show'']
        then (nm_text [(''GENERAL.DEVICE'', '' eth0''), (''GENERAL.TYPE'', ''ethernet''), (''GENERAL.DEVICE'', '' eth1'')], True)
        else (nm_text [(''IP4.ADDRESS[1]'', '' 10.0.0.1/24'')], \<not> (broken \<and> last args = ''eth0'')), w)),
     parse_cidr = (\<lambda>a. a \<noteq> ''bad'')\<rparr>"

definition idle_agent :: "unit agent" where
  "idle_agent = \<lparr>ag_world = (), ag_commands = [], ag_replies = []\<rparr>"

lemma sample_lines_ok:
  "list_all device_ok [(''GENERAL.DEVICE'', '' eth0''), (''GENERAL.TYPE'', ''ethernet''), (''GENERAL.DEVICE'', '' eth1'')]"
  "list_all address_ok [(''IP4.ADDRESS[1]'', '' 10.0.0.1/24'')]"
  by code_simp+

theorem interfaces_listed_witness:
  "\<exists>st'. GetLocalInterfaces (sample_node False) idle_agent = Inr (agent_reply (AgentInterfaces \<lparr>nil_Ifaces =
     [\<lparr>ni_Name = ''eth0'', ni_Ipnet = [''10.0.0.1/24'']\<rparr>, \<lparr>ni_Name = ''eth1'', ni_Ipnet = [''10.0.0.1/24'']\<rparr>]\<rparr>) st')"
proof -
  let ?devs = "[(''GENERAL.DEVICE'', '' eth0''), (''GENERAL.TYPE'', ''ethernet''), (''GENERAL.DEVICE'', '' eth1'')]"
  let ?addrs = "\<lambda>name :: string. [(''IP4.ADDRESS[1]'', '' 10.0.0.1/24'')]"
  have "prints (sample_node False) ?devs ?addrs" by (simp add: prints_def sample_node_def)
  from interfaces_listed [OF this sample_lines_ok(1), of idle_agent] sample_lines_ok(2)
  show ?thesis by (simp add: devices_def) (simp add: trim_space_def is_space_def)
qed

theorem failed_output_moves_to_next_witness:
  "\<exists>st'. interface_addresses (sample_node True) [\<lparr>ni_Name = ''eth0'', ni_Ipnet = []\<rparr>, \<lparr>ni_Name = ''eth1'', ni_Ipnet = []\<rparr>]
     [] idle_agent = Inr ([\<lparr>ni_Name = ''eth0'', ni_Ipnet = []\<rparr>,
       \<lparr>ni_Name = ''eth1'', ni_Ipnet = [''10.0.0.1/24'', ''10.0.0.1/24'']\<rparr>], st')"
proof -
  let ?own = "[(''IP4.ADDRESS[1]'', '' 10.0.0.1/24'')]"
  let ?a = "\<lparr>ni_Name = ''eth0'', ni_Ipnet = []\<rparr>" and ?b = "\<lparr>ni_Name = ''eth1'', ni_Ipnet = []\<rparr>"
  let ?args = "\<lambda>name. [''--mode'', ''multiline'', ''--fields'', ''IP4.ADDRESS'', ''dev'', ''show'', name]"
  obtain st1 where 1: "agent_run (sample_node True) (?args (ni_Name ?a)) idle_agent = ((nm_text ?own, False), st1)"
    using agent_run_printed [of "sample_node True" "?args ''eth0''" idle_agent] by (auto simp: sample_node_def)
  obtain st2 where 2: "agent_run (sample_node True) (?args (ni_Name ?b)) st1 = ((nm_text ?own, True), st2)"
    using agent_run_printed [of "sample_node True" "?args ''eth1''" st1] by (auto simp: sample_node_def)
  have "map (\<lambda>kv. trim_space (snd kv)) (?own @ ?own) = [''10.0.0.1/24'', ''10.0.0.1/24'']"
    by (simp add: trim_space_def is_space_def)
  with failed_output_moves_to_next [OF 1 2 sample_lines_ok(2) sample_lines_ok(2)] show ?thesis by auto
qed


end
