(* ===== verification/AgentApi.thy ===== *)
theory AgentApi
  imports LiveProps NodeAgentProps ApiProps
begin

text \<open>
  The handlers of \<open>rapi/rapi.go\<close> for interfaces and routes, which forward to the agent of a node
  over HTTP, and their composition with the agent's own handlers.
\<close>

section \<open>Forwarding\<close>

text \<open>
  The HTTP client: whether \<open>http.NewRequest\<close> accepts a method and a URL (else it returns a nil
  request), and what sending a request returns, an error or a status.
\<close>

record 'w forward_env =
  new_request :: "string \<Rightarrow> string \<Rightarrow> bool"
  http_do :: "string \<Rightarrow> string \<Rightarrow> string \<Rightarrow> 'w \<Rightarrow> (string + int) \<times> 'w"

definition agent_url :: "NodeStaticConfigType \<Rightarrow> string \<Rightarrow> string" where
  "agent_url node path = ''http://'' @ nd_Address node @ '':9902/api/v1/'' @ path"

text \<open>A listing is passed on if it is read to its end and has the JSON form of its type.\<close>

definition forward_get ::
    "string \<Rightarrow> string \<Rightarrow> (string \<Rightarrow> bool) \<Rightarrow> string + NodeStaticConfigType \<Rightarrow> http \<Rightarrow> reply" where
  "forward_get path msg unmarshals node_found get =
     (case node_found of
        Inl err \<Rightarrow> JSON 200 ''localinterfaces''
      | Inr newNode \<Rightarrow>
          (case get (agent_url newNode path) of
             Inl err \<Rightarrow> JSON 200 ''localinterfaces''
           | Inr r \<Rightarrow>
               if bd_end r = Broken then JSON 400 msg
               else if \<not> unmarshals (bd_text r) then JSON 400 msg
               else Data (bd_text r)))"

definition GetConfigInterfaces ::
    "(string \<Rightarrow> bool) \<Rightarrow> string + NodeStaticConfigType \<Rightarrow> http \<Rightarrow> reply" where
  "GetConfigInterfaces = forward_get ''interface'' ''failed to get interfaces''"

definition GetConfigRoutes ::
    "(string \<Rightarrow> bool) \<Rightarrow> string + NodeStaticConfigType \<Rightarrow> http \<Rightarrow> reply" where
  "GetConfigRoutes = forward_get ''route'' ''failed to get routes''"

text \<open>A change is sent on; only an answer with a status above 299 is an error to the caller.\<close>

definition forward_change ::
    "string \<Rightarrow> string \<Rightarrow> string \<Rightarrow> 'w forward_env \<Rightarrow> ('x \<Rightarrow> string) \<Rightarrow> string + NodeStaticConfigType
       \<Rightarrow> string + 'x \<Rightarrow> 'w \<Rightarrow> (reply \<times> 'w) go" where
  "forward_change verb path msg env marshal_body node_found bound w =
     (case node_found of
        Inl err \<Rightarrow> Inr (JSON 400 ''node not found'', w)
      | Inr newNode \<Rightarrow>
          (case bound of
             Inl err \<Rightarrow> Inr (JSON 400 err, w)
           | Inr x \<Rightarrow>
               (let url = agent_url newNode path in
                if \<not> new_request env verb url then Inl NilDereference
                else (case http_do env verb url (marshal_body x) w of
                        (Inl err, w) \<Rightarrow> Inr (Status 204, w)
                      | (Inr code, w) \<Rightarrow>
                          if code > 299 then Inr (JSON 400 msg, w) else Inr (Status 204, w)))))"

definition PutConfigInterfaces ::
    "'w forward_env \<Rightarrow> (NodeInterfaceConfigType \<Rightarrow> string) \<Rightarrow> string + NodeStaticConfigType
       \<Rightarrow> string + NodeInterfaceConfigType \<Rightarrow> 'w \<Rightarrow> (reply \<times> 'w) go" where
  "PutConfigInterfaces = forward_change ''PUT'' ''interface'' ''failed to set interfaces''"

definition DeleteConfigInterfaces ::
    "'w forward_env \<Rightarrow> (NodeInterfaceConfigType \<Rightarrow> string) \<Rightarrow> string + NodeStaticConfigType
       \<Rightarrow> string + NodeInterfaceConfigType \<Rightarrow> 'w \<Rightarrow> (reply \<times> 'w) go" where
  "DeleteConfigInterfaces = forward_change ''DELETE'' ''interface'' ''failed to delete interfaces''"

definition PutConfigRoutes ::
    "'w forward_env \<Rightarrow> (NodeRouteConfigType \<Rightarrow> string) \<Rightarrow> string + NodeStaticConfigType
       \<Rightarrow> string + NodeRouteConfigType \<Rightarrow> 'w \<Rightarrow> (reply \<times> 'w) go" where
  "PutConfigRoutes = forward_change ''PUT'' ''route'' ''failed to set routes''"

definition DeleteConfigRoutes ::
    "'w forward_env \<Rightarrow> (NodeRouteConfigType \<Rightarrow> string) \<Rightarrow> string + NodeStaticConfigType
       \<Rightarrow> string + NodeRouteConfigType \<Rightarrow> 'w \<Rightarrow> (reply \<times> 'w) go" where
  "DeleteConfigRoutes = forward_change ''DELETE'' ''route'' ''failed to delete route''"

section \<open>An agent that does not answer\<close>

lemma forward_unreachable:
  assumes "\<And>verb url. new_request env verb url" and "\<And>verb url body v. \<exists>err. http_do env verb url body v = (Inl err, v)"
  shows "forward_change verb path msg env marshal_body (Inr node) (Inr x) w = Inr (Status 204, w)"
  using assms(1) assms(2) [of verb "agent_url node path" "marshal_body x" w]
  by (auto simp: forward_change_def Let_def)

text \<open>When the agent cannot be reached or does not answer in time, the API reports success for
  every change of interfaces and routes.\<close>

theorem unreachable_agent_reported_as_success:
  assumes "\<And>verb url. new_request env verb url" and "\<And>verb url body v. \<exists>err. http_do env verb url body v = (Inl err, v)"
  shows "PutConfigInterfaces env mi (Inr node) (Inr i) w = Inr (Status 204, w) \<and>
    DeleteConfigInterfaces env mi (Inr node) (Inr i) w = Inr (Status 204, w) \<and>
    PutConfigRoutes env mr (Inr node) (Inr r) w = Inr (Status 204, w) \<and>
    DeleteConfigRoutes env mr (Inr node) (Inr r) w = Inr (Status 204, w)"
  using assms
  by (simp add: PutConfigInterfaces_def DeleteConfigInterfaces_def PutConfigRoutes_def DeleteConfigRoutes_def
      forward_unreachable)

definition dead_network :: "unit forward_env" where
  "dead_network = \<lparr>new_request = (\<lambda>verb url. True), http_do = (\<lambda>verb url body w. (Inl ''timeout'', w))\<rparr>"

theorem unreachable_agent_reported_as_success_witness:
  "PutConfigInterfaces dead_network ni_Name (Inr sample_node_config) (Inr \<lparr>ni_Name = ''eth0'', ni_Ipnet = []\<rparr>) () = Inr (Status 204, ())"
  using unreachable_agent_reported_as_success [of dead_network ni_Name sample_node_config
      "\<lparr>ni_Name = ''eth0'', ni_Ipnet = []\<rparr>" "()" nr_Net]
  by (simp add: dead_network_def)

section \<open>The agent behind the API\<close>

text \<open>The status of a reply; the agent's framework answers a panic with 500.\<close>

fun agent_status :: "agent_reply \<Rightarrow> int" where
  "agent_status (AgentError c msg) = c"
| "agent_status (AgentStatus c) = c"
| "agent_status (AgentInterfaces l) = 200"
| "agent_status (AgentRoutes l) = 200"

definition answer :: "'w agent go \<Rightarrow> 'w agent \<Rightarrow> (string + int) \<times> 'w agent" where
  "answer r st = (case r of Inl p \<Rightarrow> (Inr 500, st) | Inr st' \<Rightarrow> (Inr (agent_status (last (ag_replies st'))), st'))"

text \<open>A network on which the agent of the node answers, given how it binds a body.\<close>

definition agent_network ::
    "'w agent_env \<Rightarrow> (string \<Rightarrow> string + NodeInterfaceConfigType option) \<Rightarrow> 'w agent forward_env" where
  "agent_network aenv bind_iface = \<lparr>new_request = (\<lambda>verb url. True),
     http_do = (\<lambda>verb url body st.
       if verb = ''PUT'' then answer (SetLocalInterface aenv (bind_iface body) st) st
       else answer (DelLocalInterface aenv (bind_iface body) st) st)\<rparr>"

text \<open>How a change of an interface ends: as the agent's run of the same request, answered 204 or 400.\<close>

lemma interface_run_status:
  assumes "interface_run aenv change name addrs st st'"
  shows "agent_status (last (ag_replies st')) > 299 \<longleftrightarrow> ag_replies st' \<noteq> ag_replies st @ [AgentStatus 204]"
  using assms by (auto simp: interface_run_def)

text \<open>The caller's view of such a run: 204 for a run that ended with 204, else an error.\<close>

definition ends_as_told ::
    "'w agent_env \<Rightarrow> (string \<Rightarrow> string \<Rightarrow> string list \<Rightarrow> bool) \<Rightarrow> NodeInterfaceConfigType \<Rightarrow> 'w agent
       \<Rightarrow> (reply \<times> 'w agent) go \<Rightarrow> bool" where
  "ends_as_told aenv change i st res \<longleftrightarrow>
     (\<exists>r st'. res = Inr (r, st') \<and> interface_run aenv (change (ni_Name i)) (ni_Name i) (ni_Ipnet i) st st' \<and>
        (r = Status 204 \<longleftrightarrow> ag_replies st' = ag_replies st @ [AgentStatus 204]))"

lemma forward_change_answer:
  assumes "new_request env verb (agent_url node path)"
    and "http_do env verb (agent_url node path) (marshal_body i) st = answer (Inr st') st"
    and "interface_run aenv (change (ni_Name i)) (ni_Name i) (ni_Ipnet i) st st'"
  shows "ends_as_told aenv change i st (forward_change verb path msg env marshal_body (Inr node) (Inr i) st)"
  using assms(1,2) assms(3) interface_run_status [OF assms(3)]
  by (auto simp: ends_as_told_def forward_change_def answer_def Let_def)



end
