(* ===== verification/SecretView.thy ===== *)
theory SecretView
  imports ApiProps
begin

text \<open>
  \<open>GetConfigSecrets\<close> of \<open>rapi/rapi.go\<close>: the listing of a node's secrets, which shows who a
  certificate was issued to and by and how long it is valid, and how it meets what
  \<open>PutConfigSecrets\<close> has stored.
\<close>

section \<open>The handler\<close>

record TlsCertificateViewType =
  tv_Subject :: string
  tv_Issuer :: string
  tv_NotBefore :: string
  tv_NotAfter :: string

record SecretViewType =
  sv_Name :: string
  sv_TlsCertificate :: "TlsCertificateViewType option"
  sv_ValidationContextCa :: "TlsCertificateViewType option"

text \<open>
  The texts of a certificate, the JSON form of a view, and \<open>fmt.Fprintf\<close> with a format and no
  arguments, which writes a format without percent signs as it is.
\<close>

record 'cert view_env =
  cert_view :: "'cert \<Rightarrow> TlsCertificateViewType"
  marshal_view :: "SecretViewType \<Rightarrow> string"
  format_only :: "string \<Rightarrow> string"

text \<open>The text that is decoded: \<open>TrustedCa\<close> and \<open>CertificateChain\<close> are dereferenced.\<close>

definition shown_pem :: "Secret \<Rightarrow> string option go" where
  "shown_pem e =
     (case scr_Type e of
        None \<Rightarrow> Inr None
      | Some (Secret_TlsCertificate c) \<Rightarrow>
          bind_go (deref (crt_CertificateChain c)) (\<lambda>d. case d of InlineString t \<Rightarrow> Inr (Some t))
      | Some (Secret_ValidationContext v) \<Rightarrow>
          bind_go (deref (cvc_TrustedCa v)) (\<lambda>d. case d of InlineString t \<Rightarrow> Inr (Some t)))"

text \<open>A secret's view, or nothing if its certificate does not parse.\<close>

definition secret_view ::
    "('cert, 'key) crypto_env \<Rightarrow> 'cert view_env \<Rightarrow> Secret \<Rightarrow> SecretViewType option go" where
  "secret_view cr ve e =
     bind_go (shown_pem e) (\<lambda>pem.
     let cblock = (case pem of None \<Rightarrow> None | Some t \<Rightarrow> fst (pem_decode cr t)) in
     bind_go (deref cblock) (\<lambda>cbytes.
     case parse_certificate cr cbytes of
       None \<Rightarrow> Inr None
     | Some crt \<Rightarrow>
         (let c = \<lparr>sv_Name = scr_Name e, sv_TlsCertificate = None, sv_ValidationContextCa = None\<rparr>
          in Inr (Some (case scr_Type e of
               None \<Rightarrow> c
             | Some (Secret_TlsCertificate _) \<Rightarrow> c\<lparr>sv_TlsCertificate := Some (cert_view ve crt)\<rparr>
             | Some (Secret_ValidationContext _) \<Rightarrow> c\<lparr>sv_ValidationContextCa := Some (cert_view ve crt)\<rparr>)))))"

definition secret_item ::
    "('cert, 'key) crypto_env \<Rightarrow> 'cert view_env \<Rightarrow> string \<Rightarrow> Secret \<Rightarrow> string \<Rightarrow> string go" where
  "secret_item cr ve name e res =
     (if selected name (scr_Name e) then
        bind_go (secret_view cr ve e) (\<lambda>c.
        case c of
          None \<Rightarrow> Inr res
        | Some c \<Rightarrow> Inr (res @ format_only ve (marshal_view ve c) @ '',''))
      else Inr res)"

definition GetConfigSecrets ::
    "('cert, 'key) crypto_env \<Rightarrow> 'cert view_env \<Rightarrow> 'any loader_env \<Rightarrow> node_docs \<Rightarrow> string \<Rightarrow> string go" where
  "GetConfigSecrets cr ve env docs name =
     bind_go (load_docs env docs) (\<lambda>(r, err).
     bind_go (foldM (secret_item cr ve name) (nr_Secrets r) ''{ \"secrets\": ['') (\<lambda>res.
     let res = (if length res > 14 then take (length res - 1) res else res)
     in Inr (res @ ''] }'')))"

section \<open>What can be shown\<close>

text \<open>The stored text of the certificate that is shown: a trusted CA before a certificate.\<close>

definition stored_pem :: "SecretConfigType \<Rightarrow> string option" where
  "stored_pem s =
     (case sec_ValidationContext s of
        Some vc \<Rightarrow> map_option is_InlineString (vc_TrustedCa vc)
      | None \<Rightarrow> map_option (\<lambda>c. is_InlineString (tc_CertificateChain c)) (sec_TlsCertificate s))"

definition showable :: "('cert, 'key) crypto_env \<Rightarrow> SecretConfigType \<Rightarrow> bool" where
  "showable cr s \<longleftrightarrow> (\<exists>t b. stored_pem s = Some t \<and> fst (pem_decode cr t) = Some b)"

lemma parseSecret_shown:
  assumes "parseSecret s = Inr e"
  shows "shown_pem e = Inr (stored_pem s)"
  using assms
  by (auto simp: parseSecret_result shown_pem_def stored_pem_def split: option.splits)

lemma secret_view_panics_iff:
  assumes "parseSecret s = Inr e"
  shows "(\<exists>p. secret_view cr ve e = Inl p) \<longleftrightarrow> \<not> showable cr s"
  using parseSecret_shown [OF assms]
  by (auto simp: secret_view_def showable_def Let_def go_simps split: option.splits)

lemma secret_item_panics_iff:
  assumes "parseSecret s = Inr e"
  shows "(\<exists>p. secret_item cr ve name e res = Inl p) \<longleftrightarrow> selected name (sec_Name s) \<and> \<not> showable cr s"
  using secret_view_panics_iff [OF assms, of cr ve] parseSecret_name [OF assms]
  by (auto simp: secret_item_def go_simps split: option.splits)

lemma foldM_panics_iff:
  assumes "\<And>x s. x \<in> set xs \<Longrightarrow> (\<exists>p. f x s = Inl p) \<longleftrightarrow> P x"
  shows "(\<exists>p. foldM f xs s = Inl p) \<longleftrightarrow> (\<exists>x \<in> set xs. P x)"
  using assms
proof (induction xs arbitrary: s)
  case (Cons x xs)
  show ?case
  proof (cases "f x s")
    case (Inl p)
    with Cons.prems [of x s] show ?thesis by auto
  next
    case (Inr t)
    with Cons.prems [of x s] have "\<not> P x" by auto
    with Inr Cons show ?thesis by simp
  qed
qed simp

text \<open>If a node's documents can be loaded, listing its secrets panics exactly when one of the
  selected secrets has no certificate to show: neither a certificate nor a trusted CA, or one
  without a PEM block.  A single such secret hides all the others.\<close>

theorem secrets_listing_panics_iff:
  assumes "load_docs env docs = Inr (r, err)"
  shows "(\<exists>p. GetConfigSecrets cr ve env docs name = Inl p) \<longleftrightarrow>
    (\<exists>s \<in> set (decoded (nd_secrets docs)). selected name (sec_Name s) \<and> \<not> showable cr s)"
proof -
  have secrets: "list_all2 (\<lambda>s e. parseSecret s = Inr e) (decoded (nd_secrets docs)) (nr_Secrets r)"
    using assms by (auto simp: load_docs_def LoadNode_def Let_def go_simps traverse_Inr_iff)
  let ?bad = "\<lambda>e. selected name (scr_Name e) \<and> (\<exists>p. secret_view cr ve e = Inl p)"
  have bad: "?bad e \<longleftrightarrow> selected name (sec_Name s) \<and> \<not> showable cr s" if "parseSecret s = Inr e" for s e
    using secret_view_panics_iff [OF that, of cr ve] parseSecret_name [OF that] by simp
  have "(\<exists>p. GetConfigSecrets cr ve env docs name = Inl p) \<longleftrightarrow>
      (\<exists>p. foldM (secret_item cr ve name) (nr_Secrets r) ''{ \"secrets\": ['' = Inl p)"
    using assms by (auto simp: GetConfigSecrets_def Let_def go_simps)
  also have "\<dots> \<longleftrightarrow> (\<exists>e \<in> set (nr_Secrets r). ?bad e)"
    by (rule foldM_panics_iff) (auto simp: secret_item_def go_simps split: option.splits)
  also have "\<dots> \<longleftrightarrow> (\<exists>s \<in> set (decoded (nd_secrets docs)). selected name (sec_Name s) \<and> \<not> showable cr s)"
    using secrets by (induction rule: list_all2_induct) (auto simp: bad)
  finally show ?thesis .
qed

definition empty_secret :: SecretConfigType where
  "empty_secret = \<lparr>sec_NodeID = ''n1'', sec_Name = ''none'', sec_TlsCertificate = None, sec_ValidationContext = None\<rparr>"

definition toy_view :: "string view_env" where
  "toy_view = \<lparr>cert_view = (\<lambda>c. \<lparr>tv_Subject = c, tv_Issuer = c, tv_NotBefore = [], tv_NotAfter = []\<rparr>),
     marshal_view = sv_Name, format_only = (\<lambda>f. f)\<rparr>"

definition secret_docs :: node_docs where
  "secret_docs = \<lparr>nd_listeners = Inr [], nd_clusters = Inr [], nd_endpoints = Inr [],
     nd_secrets = Inr [Some ca_secret, Some empty_secret]\<rparr>"

theorem secrets_listing_panics_iff_witness:
  "(\<exists>p. GetConfigSecrets toy_crypto toy_view sample_env secret_docs ''/'' = Inl p) \<and>
   (\<nexists>p. GetConfigSecrets toy_crypto toy_view sample_env secret_docs ''/ca'' = Inl p)"
proof -
  obtain r err where run: "load_docs sample_env secret_docs = Inr (r, err)"
    by (simp add: load_docs_def LoadNode_def secret_docs_def decoded_def parseSecret_result ca_secret_def empty_secret_def)
  show ?thesis
    using secrets_listing_panics_iff [OF run, of toy_crypto toy_view "''/''"]
      secrets_listing_panics_iff [OF run, of toy_crypto toy_view "''/ca''"]
    by (simp add: secret_docs_def decoded_def selected_def showable_def stored_pem_def ca_secret_def
        empty_secret_def toy_crypto_def)
qed

section \<open>What the API has stored\<close>

lemma checked_validation_pem:
  assumes "check_validation cr vc = Inr None"
  shows "\<exists>ca b. vc_TrustedCa vc = Some ca \<and> fst (pem_decode cr (is_InlineString ca)) = Some b"
proof -
  from assms obtain ca where ca: "vc_TrustedCa vc = Some ca" by (auto simp: check_validation_def go_simps)
  with assms show ?thesis
    by (cases "pem_decode cr (is_InlineString ca)") (auto simp: check_validation_def go_simps)
qed

lemma checked_certificate_pem:
  assumes "check_certificate cr c = Inr None"
  shows "\<exists>b. fst (pem_decode cr (is_InlineString (tc_CertificateChain c))) = Some b"
  using assms
  by (cases "pem_decode cr (is_InlineString (tc_CertificateChain c))")
    (auto simp: check_certificate_def go_simps split: prod.splits if_splits)

lemma checked_secret_showable:
  assumes "check_secret cr s = Inr None"
  shows "showable cr s \<longleftrightarrow> sec_TlsCertificate s \<noteq> None \<or> sec_ValidationContext s \<noteq> None"
proof (cases "sec_ValidationContext s")
  case None
  with assms show ?thesis
    using checked_certificate_pem [of cr]
    by (auto simp: check_secret_def showable_def stored_pem_def go_simps split: option.splits)
next
  case (Some vc)
  with assms have "check_validation cr vc = Inr None"
    by (auto simp: check_secret_def go_simps split: option.splits)
  with Some show ?thesis
    using checked_validation_pem [of cr vc] by (auto simp: showable_def stored_pem_def)
qed

text \<open>Of the secrets that the API stores all can be listed that have a certificate or a
  validation context; one with neither is stored too, and then no listing of the node's secrets
  succeeds.\<close>

theorem api_stored_secret_showable:
  assumes "PutConfigSecrets cr env node (Inr s) st = Inr st'"
    and "ReplaceOne c f (SecretDoc s') \<in> set (api_ops st')"
    and "ReplaceOne c f (SecretDoc s') \<notin> set (api_ops st)"
  shows "showable cr s' \<longleftrightarrow> sec_TlsCertificate s' \<noteq> None \<or> sec_ValidationContext s' \<noteq> None"
  using put_secret_checked [OF assms] by (simp add: checked_secret_showable)

theorem api_stored_secret_showable_witness:
  "\<exists>st'. PutConfigSecrets toy_crypto accept_env ''n1'' (Inr empty_secret) fresh = Inr st' \<and>
     ReplaceOne ''secrets'' [(''nodeId'', ''n1''), (''name'', ''none'')] (SecretDoc empty_secret) \<in> set (api_ops st') \<and>
     \<not> showable toy_crypto empty_secret"
proof -
  obtain st' where put: "PutConfigSecrets toy_crypto accept_env ''n1'' (Inr empty_secret) fresh = Inr st'"
    and stored: "ReplaceOne ''secrets'' [(''nodeId'', ''n1''), (''name'', ''none'')] (SecretDoc empty_secret) \<in> set (api_ops st')"
    by (simp add: PutConfigSecrets_def check_secret_def empty_secret_def
        accept_env_def fresh_def name_guard_def run_op_def bump_version_def)
  from api_stored_secret_showable [OF put stored] put stored show ?thesis
    by (auto simp: fresh_def empty_secret_def)
qed

end
