(* ===== verification/Drivers.thy ===== *)
theory Drivers
  imports GoIO
begin

text \<open>
  The connections of the servers: \<open>drivers/redis.go\<close> and the time-out each main program sets
  in \<open>drivers.ConnectTimeout\<close>.  The Redis library is the environment \<open>radix_env\<close>; what the
  code decides is the options of every connection and the kind of client.
\<close>

section \<open>Redis\<close>

datatype dial_opt = DialUseTLS | DialAuthPass string

text \<open>
  The library's functions: a connection made with options, a pool over a function that opens
  connections, a cluster over a function that makes pools, and commands run as one pipeline.
\<close>

record ('conn, 'client, 'cmd, 'w) radix_env =
  Dial :: "string \<Rightarrow> string \<Rightarrow> dial_opt list \<Rightarrow> 'w \<Rightarrow> (string + 'conn) \<times> 'w"
  NewPool :: "string \<Rightarrow> string \<Rightarrow> int \<Rightarrow> (string \<Rightarrow> string \<Rightarrow> 'w \<Rightarrow> (string + 'conn) \<times> 'w) \<Rightarrow> 'w
    \<Rightarrow> (string + 'client) \<times> 'w"
  NewCluster :: "string list \<Rightarrow> (string \<Rightarrow> string \<Rightarrow> 'w \<Rightarrow> (string + 'client) \<times> 'w) \<Rightarrow> 'w
    \<Rightarrow> (string + 'client) \<times> 'w"
  Do :: "'client \<Rightarrow> 'cmd list \<Rightarrow> 'w \<Rightarrow> string option \<times> 'w"

definition dial_opts :: "bool \<Rightarrow> string \<Rightarrow> dial_opt list" where
  "dial_opts useTls auth =
     (let dialOpts = [];
          dialOpts = (if useTls then dialOpts @ [DialUseTLS] else dialOpts)
      in if auth \<noteq> [] then dialOpts @ [DialAuthPass auth] else dialOpts)"

definition connFunc ::
    "('conn, 'client, 'cmd, 'w) radix_env \<Rightarrow> bool \<Rightarrow> string \<Rightarrow> string \<Rightarrow> string \<Rightarrow> 'w
       \<Rightarrow> (string + 'conn) \<times> 'w" where
  "connFunc env useTls auth network addr = Dial env network addr (dial_opts useTls auth)"

definition poolFunc ::
    "('conn, 'client, 'cmd, 'w) radix_env \<Rightarrow> bool \<Rightarrow> string \<Rightarrow> int \<Rightarrow> string \<Rightarrow> string \<Rightarrow> 'w
       \<Rightarrow> (string + 'client) \<times> 'w" where
  "poolFunc env useTls auth poolSize network addr =
     NewPool env network addr poolSize (connFunc env useTls auth)"

definition NewClient ::
    "('conn, 'client, 'cmd, 'w) radix_env \<Rightarrow> string \<Rightarrow> bool \<Rightarrow> string \<Rightarrow> int \<Rightarrow> string \<Rightarrow> 'w
       \<Rightarrow> ((string + 'client) \<times> 'w) go" where
  "NewClient env uri useTls auth poolSize redisType w =
     (let kind = to_lower redisType in
      if kind = ''single'' then Inr (poolFunc env useTls auth poolSize ''tcp'' uri w)
      else if kind = ''cluster''
      then Inr (NewCluster env (go_split uri '','') (poolFunc env useTls auth poolSize) w)
      else Inl (Panicked ''Unknown redis type''))"

definition DoPipeline ::
    "('conn, 'client, 'cmd, 'w) radix_env \<Rightarrow> 'client \<Rightarrow> 'cmd list \<Rightarrow> 'w \<Rightarrow> string option \<times> 'w" where
  "DoPipeline env client pipeline w = Do env client pipeline w"

lemma dial_opts_complete:
  "DialUseTLS \<in> set (dial_opts useTls auth) \<longleftrightarrow> useTls"
  "DialAuthPass p \<in> set (dial_opts useTls auth) \<longleftrightarrow> p = auth \<and> auth \<noteq> []"
  by (auto simp: dial_opts_def Let_def)

text \<open>
  The client depends on the library's \<open>Dial\<close> only through connections with the chosen options:
  an environment that refuses every other connection gives the same client.
\<close>

definition only_with :: "dial_opt list \<Rightarrow> ('conn, 'client, 'cmd, 'w) radix_env
    \<Rightarrow> ('conn, 'client, 'cmd, 'w) radix_env" where
  "only_with opts env =
     env\<lparr>Dial := \<lambda>network addr os w. if os = opts then Dial env network addr os w else (Inl ''refused'', w)\<rparr>"

text \<open>Whatever the kind of client, single or cluster, every connection it ever opens carries
  TLS exactly when it is configured, and the configured password; the kind is read without
  regard to case, and any other kind panics.\<close>

theorem NewClient_connections:
  "NewClient (only_with (dial_opts useTls auth) env) uri useTls auth poolSize redisType w =
     NewClient env uri useTls auth poolSize redisType w \<and>
   (set (dial_opts useTls auth) = (if useTls then {DialUseTLS} else {}) \<union>
     (if auth = [] then {} else {DialAuthPass auth})) \<and>
   ((\<exists>r. NewClient env uri useTls auth poolSize redisType w = Inr r) \<longleftrightarrow>
     to_lower redisType \<in> {''single'', ''cluster''})"
proof (intro conjI)
  have conn: "connFunc (only_with (dial_opts useTls auth) env) useTls auth = connFunc env useTls auth"
    by (intro ext) (simp add: connFunc_def only_with_def)
  then have "poolFunc (only_with (dial_opts useTls auth) env) useTls auth poolSize =
      poolFunc env useTls auth poolSize"
    by (intro ext) (simp add: poolFunc_def only_with_def)
  then show "NewClient (only_with (dial_opts useTls auth) env) uri useTls auth poolSize redisType w =
      NewClient env uri useTls auth poolSize redisType w"
    by (simp add: NewClient_def only_with_def Let_def)
qed (auto simp: dial_opts_def NewClient_def Let_def)

section \<open>Time-outs\<close>

text \<open>
  \<open>time.Duration(driverTimeout) * time.Second\<close>, 64-bit and in nanoseconds.  The programs read
  \<open>driverTimeout\<close> from the flag \<open>-timeout\<close>, whose default is 5; \<open>authz.go\<close> declares the
  variable and no flag for it, so it keeps its zero value.
\<close>

definition connect_timeout :: "64 word \<Rightarrow> 64 word" where
  "connect_timeout driverTimeout = driverTimeout * 1000000000"

definition driverTimeout_flag :: "64 word option \<Rightarrow> 64 word" where
  "driverTimeout_flag given = (case given of None \<Rightarrow> 5 | Some v \<Rightarrow> v)"

definition az_driverTimeout :: "64 word" where
  "az_driverTimeout = 0"

lemma default_timeout: "sint (connect_timeout (driverTimeout_flag None)) = 5000000000"
  by (simp add: connect_timeout_def driverTimeout_flag_def)

lemma az_timeout_zero [simp]: "connect_timeout az_driverTimeout = 0"
  by (simp add: connect_timeout_def az_driverTimeout_def)

end
