(* ===== verification/ServerViews.thy ===== *)
theory ServerViews
  imports Reload Drivers
begin

text \<open>
  The live endpoints of the three servers, and what the time-out of the authorization server
  does to its rules.  \<open>json.Marshal\<close> is a parameter; its error is dropped, so that the body is
  then empty.
\<close>

section \<open>Live endpoints\<close>

definition live_body :: "('c option \<Rightarrow> string option) \<Rightarrow> 'c option \<Rightarrow> string" where
  "live_body marshal c = (case marshal c of None \<Rightarrow> [] | Some body \<Rightarrow> body)"

definition GetLiveStatus :: "int \<times> (string \<times> string) list" where
  "GetLiveStatus = (200, [(''status'', ''alive'')])"

definition rl_GetLiveConfig :: "(CacheConfig option \<Rightarrow> string option) \<Rightarrow> rl_main \<Rightarrow> int \<times> string" where
  "rl_GetLiveConfig marshal m = (200, live_body marshal (rlm_cache m))"

text \<open>The handler sees the package's variable, not the one \<open>main\<close> declares.\<close>

definition az_GetLiveConfig :: "(AuthzConfigType option \<Rightarrow> string option) \<Rightarrow> az_main \<Rightarrow> int \<times> string" where
  "az_GetLiveConfig marshal m = (200, live_body marshal (azm_package_cache m))"

definition s3_GetLiveConfig :: "(Authzs3ConfigType option \<Rightarrow> string option) \<Rightarrow> s3_main \<Rightarrow> int \<times> string" where
  "s3_GetLiveConfig marshal m = (200, live_body marshal (s3_cache m))"

definition s3_GetLiveUsers :: "((string, string) fmap option \<Rightarrow> string option) \<Rightarrow> s3_main \<Rightarrow> int \<times> string" where
  "s3_GetLiveUsers marshal m = (200, live_body marshal (s3_users m))"

lemma az_package_cache_kept:
  "run_loop (az_watch decode) es m = Running m' \<Longrightarrow> azm_package_cache m' = azm_package_cache m"
  by (induction es arbitrary: m) (auto simp: az_watch_def Let_def split: if_splits)

text \<open>The live configuration endpoints after any history of changes: the rate-limit server's
  shows the configuration its service answers from, the authorization server's shows null
  whatever its service answers from.\<close>

theorem live_config_views:
  assumes "rl_start uv decode found = Running m"
    and "run_loop (rl_watch uv decode) es m = Running m'"
    and "az_start az_decode az_found = Running n"
    and "run_loop (az_watch az_decode) az_es n = Running n'"
  shows "rl_GetLiveConfig rl_marshal m' = (200, live_body rl_marshal (rl_config (rlm_server m'))) \<and>
    az_GetLiveConfig az_marshal n' = (200, live_body az_marshal None)"
proof
  have "\<forall>e \<in> set es. rl_readable e"
    using assms(2) rlw.running_iff_readable [of uv decode es m] by blast
  from rlw.serves_last_load [OF this, of uv decode m] rlc.serves_last_load [OF this, of uv decode m] assms(1,2)
  have "rl_config (rlm_server m') = rlm_cache m'"
    by (auto simp: rl_start_def rl_SetConfig_def split: sum.splits)
  then show "rl_GetLiveConfig rl_marshal m' = (200, live_body rl_marshal (rl_config (rlm_server m')))"
    by (simp add: rl_GetLiveConfig_def)
  from az_package_cache_kept [OF assms(4)] assms(3)
  show "az_GetLiveConfig az_marshal n' = (200, live_body az_marshal None)"
    by (auto simp: az_GetLiveConfig_def az_start_def split: sum.splits)
qed

theorem live_config_views_witness:
  "\<exists>m n n'. rl_start minute_table Some (Inr [limit_doc 5]) = Running m \<and>
     rl_GetLiveConfig (\<lambda>c. Some (if c = None then ''null'' else ''{}'')) m = (200, ''{}'') \<and>
     az_start (\<lambda>d c. d) (Inr [Inr az_example_config]) = Running n \<and>
     run_loop (az_watch (\<lambda>d c. d))
       [\<lparr>ev_decoded = True, ev_operation = None, ev_found = Inr [Inr az_example_config]\<rparr>] n = Running n' \<and>
     az_config (azm_server n') = Some az_example_config \<and>
     az_GetLiveConfig (\<lambda>c. Some (if c = None then ''null'' else ''{}'')) n' = (200, ''null'')"
proof -
  let ?ev = "\<lparr>ev_decoded = True, ev_operation = None :: string option, ev_found = Inr [Inr az_example_config]\<rparr>"
  obtain m where m: "rl_start minute_table Some (Inr [limit_doc 5]) = Running m"
    and c: "rl_config (rlm_server m) \<noteq> None"
    by (simp add: rl_start_def rl_loadConfig_def rl_SetConfig_def)
  obtain n n' where n: "az_start (\<lambda>d c. d) (Inr [Inr az_example_config]) = Running n"
    and n': "run_loop (az_watch (\<lambda>d c. d)) [?ev] n = Running n'"
    and s: "az_config (azm_server n') = Some az_example_config"
    by (simp add: az_start_def az_watch_def az_loadConfig_def decode_into_def installed_def az_SetConfig_def Let_def)
  have "run_loop (rl_watch minute_table Some) [] m = Running m" by simp
  from live_config_views [OF m this n n'] c m n n' s show ?thesis
    by (auto simp: live_body_def simp del: run_loop.simps)
qed

section \<open>The authorization server's queries\<close>

text \<open>
  A context whose time-out is not positive is born expired, and the MongoDB driver answers a
  query under an expired context with an error: the documented behaviour of both, for a query
  as a function of its time-out and of what the collection holds.
\<close>

definition expired_context_fails :: "(64 word \<Rightarrow> 'doc list \<Rightarrow> string + 'doc list) \<Rightarrow> bool" where
  "expired_context_fails query \<longleftrightarrow> (\<forall>t docs. sint t \<le> 0 \<longrightarrow> isl (query t docs))"

text \<open>The event of a change after which the collection holds some documents.\<close>

definition az_event ::
    "(64 word \<Rightarrow> 'doc list \<Rightarrow> string + 'doc list) \<Rightarrow> string option \<times> 'doc list \<Rightarrow> 'doc change_event" where
  "az_event query h = \<lparr>ev_decoded = True, ev_operation = fst h,
     ev_found = query (connect_timeout az_driverTimeout) (snd h)\<rparr>"

lemma az_load_failed_query: "isl found \<Longrightarrow> az_loadConfig decode found = Inr \<lparr>az_Config = \<lparr>az_Domains = None\<rparr>\<rparr>"
  by (auto simp: az_loadConfig_def Let_def isl_def)

lemma az_check_no_rules:
  "az_config s = Some \<lparr>az_Config = \<lparr>az_Domains = None\<rparr>\<rparr> \<Longrightarrow> Attributes req \<noteq> None \<Longrightarrow>
     az_check s req = Inr initial_response"
  by (auto simp: az_check_def Let_def split: option.splits)

text \<open>The authorization server never enforces a rule: its time-out has no flag and is zero, a
  query under an expired context fails, and a failed query is loaded as an empty configuration,
  so that whatever rules the database holds at start and after each change, the server starts,
  stays up and lets every request pass.\<close>

theorem authz_enforces_nothing:
  assumes "expired_context_fails query"
  shows "\<exists>m m'. az_start decode (query (connect_timeout az_driverTimeout) docs) = Running m \<and>
    run_loop (az_watch decode) (map (az_event query) history) m = Running m' \<and>
    (\<forall>req. Attributes req \<noteq> None \<longrightarrow> az_check (azm_server m') req = Inr initial_response)"
proof -
  let ?empty = "\<lparr>az_Config = \<lparr>az_Domains = None\<rparr>\<rparr>"
  have failed: "isl (query (connect_timeout az_driverTimeout) ds)" for ds
    using assms by (simp add: expired_context_fails_def)
  then have load: "az_loadConfig decode (query (connect_timeout az_driverTimeout) ds) = Inr ?empty" for ds
    by (rule az_load_failed_query)
  obtain m where m: "az_start decode (query (connect_timeout az_driverTimeout) docs) = Running m"
    and c: "az_config (azm_server m) = Some ?empty"
    using load [of docs] by (simp add: az_start_def az_SetConfig_def del: az_timeout_zero)
  have "\<forall>e \<in> set (map (az_event query) history). ev_decoded e" by (auto simp: az_event_def)
  from azw.serves_last_load [OF this, of decode m]
  obtain m' where run: "run_loop (az_watch decode) (map (az_event query) history) m = Running m'"
    and served: "az_config (azm_server m') = last_load (\<lambda>_. True)
      (\<lambda>e. installed (az_loadConfig decode (ev_found e))) (map (az_event query) history) (Some ?empty)"
    using c by auto
  have "az_config (azm_server m') = Some ?empty"
    unfolding served using load
    by (simp add: last_load_def last_map az_event_def installed_def del: az_timeout_zero)
  from az_check_no_rules [OF this] m run show ?thesis by blast
qed

text \<open>A driver that answers while the context lives.\<close>

definition timed_query :: "64 word \<Rightarrow> 'doc list \<Rightarrow> string + 'doc list" where
  "timed_query t docs = (if 0 < sint t then Inr docs else Inl ''context deadline exceeded'')"

lemma timed_query_expires: "expired_context_fails timed_query"
  by (simp add: expired_context_fails_def timed_query_def)

lemma az_example_denied:
  "\<exists>res. az_check \<lparr>az_config = Some az_example_config\<rparr> (request_from ''10.0.0.9'' az_example_http) = Inr res
     \<and> \<not> is_allowed res"
  by (simp add: request_from_def az_check_def az_check_sources_def source_address_def az_example_config_def
      az_example_http_def az_setStatus_def is_allowed_def Let_def go_simps)

theorem authz_enforces_nothing_witness:
  "\<exists>m. az_start (\<lambda>d c. d) (timed_query (connect_timeout az_driverTimeout) [Inr az_example_config]) = Running m \<and>
     az_check (azm_server m) (request_from ''10.0.0.9'' az_example_http) = Inr initial_response \<and>
     (\<exists>res. az_check \<lparr>az_config = Some az_example_config\<rparr> (request_from ''10.0.0.9'' az_example_http) = Inr res \<and>
        \<not> is_allowed res)"
  using authz_enforces_nothing [OF timed_query_expires, of "\<lambda>d c. d" "[Inr az_example_config]" "[]"]
    az_example_denied
  by (auto simp: request_from_def)

end
