(* ===== verification/WorkerSync.thy ===== *)
theory WorkerSync
  imports RestApi
begin

text \<open>
  The callbacks of go-control-plane (\<open>main.go\<close>) and the sync status they feed.  A request of a
  proxy for a snapshot carries the version it runs and, when it rejects an update, the error;
  the callback stores both under the proxy's name, and \<open>GetLiveSyncStatus\<close> reports them.
\<close>

section \<open>Requests and the collection of workers\<close>

text \<open>
  The node of a request is its \<open>Id\<close>, or nil; \<open>'status\<close> is the error detail's message type,
  whose \<open>String\<close> method (generated code, defined on nil too) is a parameter.
\<close>

record 'status DiscoveryRequest =
  dr_Node :: "string option"
  dr_VersionInfo :: string
  dr_ErrorDetail :: "'status option"

type_synonym workers = "string \<rightharpoonup> WorkerSyncConfigType"

text \<open>
  \<open>UpdateOne\<close> with \<open>$set\<close> and upsert on the name; \<open>written\<close> is whether the database carried it
  out, \<open>now\<close> the formatted time.  The result and the error are dropped.
\<close>

definition note_request ::
    "('status option \<Rightarrow> string) \<Rightarrow> 'status DiscoveryRequest \<Rightarrow> bool \<Rightarrow> string \<Rightarrow> workers \<Rightarrow> workers go" where
  "note_request error_text req written now ws =
     bind_go (deref (dr_Node req)) (\<lambda>node_id.
     Inr (if written
          then ws(node_id \<mapsto> \<lparr>ws_Name = node_id, ws_Version = dr_VersionInfo req,
                             ws_Status = error_text (dr_ErrorDetail req), ws_Updated = now\<rparr>)
          else ws))"

definition OnStreamRequest ::
    "('status option \<Rightarrow> string) \<Rightarrow> 'status DiscoveryRequest \<Rightarrow> bool \<Rightarrow> string \<Rightarrow> workers \<Rightarrow> workers go" where
  "OnStreamRequest error_text req written now ws = note_request error_text req written now ws"

definition OnFetchRequest ::
    "('status option \<Rightarrow> string) \<Rightarrow> 'status DiscoveryRequest \<Rightarrow> bool \<Rightarrow> string \<Rightarrow> workers \<Rightarrow> workers go" where
  "OnFetchRequest error_text req written now ws = note_request error_text req written now ws"

text \<open>The delta protocol's callback logs the node's name and stores nothing.\<close>

definition OnStreamDeltaRequest :: "string option \<Rightarrow> workers \<Rightarrow> workers go" where
  "OnStreamDeltaRequest node ws = bind_go (deref node) (\<lambda>node_id. Inr ws)"

text \<open>What the server hands to the callbacks, one after the other, over all its streams.\<close>

datatype 'status xds_event =
    StreamRequest "'status DiscoveryRequest" bool string
  | FetchRequest "'status DiscoveryRequest" bool string
  | StreamDeltaRequest "string option"

fun xds_callback :: "('status option \<Rightarrow> string) \<Rightarrow> 'status xds_event \<Rightarrow> workers \<Rightarrow> workers go" where
  "xds_callback error_text (StreamRequest req written now) = OnStreamRequest error_text req written now"
| "xds_callback error_text (FetchRequest req written now) = OnFetchRequest error_text req written now"
| "xds_callback error_text (StreamDeltaRequest node) = OnStreamDeltaRequest node"

definition find_worker :: "workers \<Rightarrow> string \<Rightarrow> string + WorkerSyncConfigType" where
  "find_worker ws node = (case ws node of None \<Rightarrow> Inl ''mongo: no documents in result'' | Some w \<Rightarrow> Inr w)"

section \<open>The status reported\<close>

text \<open>The requests a node's record comes from, and those that can be handled at all.\<close>

fun noted :: "string \<Rightarrow> 'status xds_event \<Rightarrow> ('status DiscoveryRequest \<times> string) list" where
  "noted node (StreamRequest req written now) = (if written \<and> dr_Node req = Some node then [(req, now)] else [])"
| "noted node (FetchRequest req written now) = (if written \<and> dr_Node req = Some node then [(req, now)] else [])"
| "noted node (StreamDeltaRequest n) = []"

fun named :: "'status xds_event \<Rightarrow> bool" where
  "named (StreamRequest req written now) \<longleftrightarrow> dr_Node req \<noteq> None"
| "named (FetchRequest req written now) \<longleftrightarrow> dr_Node req \<noteq> None"
| "named (StreamDeltaRequest n) \<longleftrightarrow> n \<noteq> None"

definition worker_of :: "('status option \<Rightarrow> string) \<Rightarrow> string \<Rightarrow> 'status DiscoveryRequest \<times> string \<Rightarrow> WorkerSyncConfigType" where
  "worker_of error_text node rn = \<lparr>ws_Name = node, ws_Version = dr_VersionInfo (fst rn),
     ws_Status = error_text (dr_ErrorDetail (fst rn)), ws_Updated = snd rn\<rparr>"

lemmas callback_defs = OnStreamRequest_def OnFetchRequest_def OnStreamDeltaRequest_def note_request_def

lemma xds_callback_step:
  assumes "named e"
  shows "\<exists>ws'. xds_callback error_text e ws = Inr ws' \<and>
    ws' node = (if noted node e = [] then ws node else Some (worker_of error_text node (last (noted node e))))"
  using assms by (cases e) (auto simp: callback_defs worker_of_def)

lemma xds_callback_panics: "(\<exists>p. xds_callback error_text e ws = Inl p) \<longleftrightarrow> \<not> named e"
  by (cases e) (auto simp: callback_defs deref_def split: option.splits)

lemma callbacks_run:
  assumes "\<forall>e \<in> set es. named e"
  shows "\<exists>ws'. foldM (xds_callback error_text) es ws = Inr ws' \<and>
    ws' node = (if concat (map (noted node) es) = [] then ws node
                else Some (worker_of error_text node (last (concat (map (noted node) es)))))"
  using assms
proof (induction es arbitrary: ws)
  case (Cons e es)
  from xds_callback_step [of e error_text ws node] Cons.prems obtain ws1 where
    "xds_callback error_text e ws = Inr ws1"
    "ws1 node = (if noted node e = [] then ws node else Some (worker_of error_text node (last (noted node e))))"
    by auto
  with Cons.IH [of ws1] Cons.prems show ?case by auto
qed simp

lemma callbacks_panic_iff:
  "(\<exists>p. foldM (xds_callback error_text) es ws = Inl p) \<longleftrightarrow> (\<exists>e \<in> set es. \<not> named e)"
proof (induction es arbitrary: ws)
  case (Cons e es)
  show ?case
    using xds_callback_panics [of error_text e ws] Cons.IH
    by (cases "xds_callback error_text e ws") auto
qed simp

text \<open>C26: the sync status of a node after any sequence of xDS requests that name their nodes is
  decided by the node's last request that was stored, whatever resource type it was for:
  synced if that request carries the stored version, with that request's error as status.  A
  rejection of an update is no longer visible once the proxy asks for anything else.\<close>

theorem sync_status_last_request:
  assumes "\<forall>e \<in> set es. named e"
    and "concat (map (noted node) es) = earlier @ [(req, now)]"
  shows "\<exists>ws'. foldM (xds_callback error_text) es ws = Inr ws' \<and>
    GetLiveSyncStatus (Inr nd) (find_worker ws' node) =
      Inr (if nd_Version nd = dr_VersionInfo req then ''True'' else ''False'',
           now, error_text (dr_ErrorDetail req))"
  using callbacks_run [OF assms(1), of error_text ws node] assms(2)
  by (auto simp: find_worker_def GetLiveSyncStatus_def worker_of_def)

text \<open>A proxy that rejects the listeners of the new version and accepts its clusters.\<close>

theorem sync_status_last_request_witness:
  "\<exists>ws'. foldM (xds_callback (\<lambda>e. case e of None \<Rightarrow> ''<nil>'' | Some msg \<Rightarrow> msg))
      [StreamRequest \<lparr>dr_Node = Some ''edge'', dr_VersionInfo = ''v1'', dr_ErrorDetail = Some ''bad listener''\<rparr> True ''10:00'',
       StreamRequest \<lparr>dr_Node = Some ''edge'', dr_VersionInfo = ''v2'', dr_ErrorDetail = None\<rparr> True ''10:01''] Map.empty = Inr ws' \<and>
    GetLiveSyncStatus (Inr \<lparr>nd_Name = ''edge'', nd_Address = '''', nd_Version = ''v2'', nd_Addresses = []\<rparr>)
      (find_worker ws' ''edge'') = Inr (''True'', ''10:01'', ''<nil>'')"
  using sync_status_last_request [where node = "''edge''" and now = "''10:01''"
      and nd = "\<lparr>nd_Name = ''edge'', nd_Address = '''', nd_Version = ''v2'', nd_Addresses = []\<rparr>"
      and req = "\<lparr>dr_Node = Some ''edge'', dr_VersionInfo = ''v2'', dr_ErrorDetail = None\<rparr>"
      and earlier = "[(\<lparr>dr_Node = Some ''edge'', dr_VersionInfo = ''v1'', dr_ErrorDetail = Some ''bad listener''\<rparr>, ''10:00'')]"
      and es = "[StreamRequest \<lparr>dr_Node = Some ''edge'', dr_VersionInfo = ''v1'', dr_ErrorDetail = Some ''bad listener''\<rparr> True ''10:00'',
       StreamRequest \<lparr>dr_Node = Some ''edge'', dr_VersionInfo = ''v2'', dr_ErrorDetail = None\<rparr> True ''10:01'']"
      and ws = Map.empty and error_text = "\<lambda>e. case e of None \<Rightarrow> ''<nil>'' | Some msg \<Rightarrow> msg"]
  by (simp del: foldM.simps)

end
