(* ===== verification/Rollout.thy ===== *)
theory Rollout
  imports ApiProps
begin

text \<open>
  From the API to the proxies: a change stored by a handler of \<open>rapi/rapi.go\<close>, the event of the
  node's new version, and what the control plane's loop hands to the snapshot cache.
\<close>

section \<open>The database in between\<close>

text \<open>
  The documented behaviour of MongoDB that the two programs rely on: setting a node's version is
  reported as an insert or an update of a document that can be found under its key, and a
  document that was written is among those a query of its node's documents finds.
\<close>

definition version_event :: "string \<Rightarrow> db_op \<Rightarrow> node_event \<Rightarrow> bool" where
  "version_event node op e \<longleftrightarrow>
     ne_decoded e \<and> ne_operation e \<in> {Some ''insert'', Some ''update''} \<and> ne_key_ok e \<and>
     (\<exists>n. ne_node e = Inr n \<and> nd_Name n = node \<and>
        op = UpdateOne ''nodes'' [(''name'', node)] [(''version'', nd_Version n)])"

definition finds_written :: "db_op list \<Rightarrow> node_docs \<Rightarrow> bool" where
  "finds_written ops docs \<longleftrightarrow>
     (\<forall>f d. ReplaceOne ''listeners'' f (ListenerDoc d) \<in> set ops \<longrightarrow> d \<in> set (decoded (nd_listeners docs))) \<and>
     (\<forall>f d. ReplaceOne ''clusters'' f (ClusterDoc d) \<in> set ops \<longrightarrow> d \<in> set (decoded (nd_clusters docs))) \<and>
     (\<forall>f d. ReplaceOne ''endpoints'' f (EndpointsDoc d) \<in> set ops \<longrightarrow> d \<in> set (decoded (nd_endpoints docs)))"

text \<open>The operations a handler has added.\<close>

definition new_ops :: "'w api \<Rightarrow> 'w api \<Rightarrow> db_op list" where
  "new_ops st st' = drop (length (api_ops st)) (api_ops st')"

text \<open>The event is handled with a snapshot made from the resources of the node's documents.\<close>

definition handed_over ::
    "('any, 'snap) cp_env \<Rightarrow> string \<Rightarrow> node_event \<Rightarrow> string \<Rightarrow> 'any node_resources \<Rightarrow> bool" where
  "handed_over cp node e u res \<longleftrightarrow>
     load_docs (cp_loader cp) (ne_docs e) = Inr (res, None) \<and>
     (\<exists>snap. NewSnapshot cp u res = Some snap \<and>
        (\<forall>calls. cp_watch cp e calls = Running (calls @ [(node, snap)])))"

lemma list_all2_in_left: "list_all2 P xs ys \<Longrightarrow> x \<in> set xs \<Longrightarrow> \<exists>y \<in> set ys. P x y"
  by (induction rule: list_all2_induct) auto

lemma loaded_listener:
  assumes "load_docs env docs = Inr (res, err)" and "l \<in> set (decoded (nd_listeners docs))"
  shows "\<exists>m \<in> set (nr_Listeners res). parseListener env l = Inr m"
proof -
  from assms(1) have "list_all2 (\<lambda>x y. parseListener env x = Inr y) (decoded (nd_listeners docs)) (nr_Listeners res)"
    by (auto simp: load_docs_def LoadNode_def Let_def go_simps traverse_Inr_iff)
  from list_all2_in_left [OF this assms(2)] show ?thesis .
qed

lemma loaded_cluster:
  assumes "load_docs env docs = Inr (res, err)" and "c \<in> set (decoded (nd_clusters docs))"
  shows "parseCluster env c \<in> set (nr_Clusters res)"
  using assms by (auto simp: load_docs_def LoadNode_def Let_def go_simps)

section \<open>The change arrives\<close>

text \<open>
  What has to go well outside the two programs for a handler's operations: the version is
  reported, the documents are found, all of the node's listeners and secrets translate, and
  go-control-plane accepts the snapshot.
\<close>

definition well_reported :: "('any, 'snap) cp_env \<Rightarrow> string \<Rightarrow> db_op list \<Rightarrow> node_event \<Rightarrow> bool" where
  "well_reported cp node ops e \<longleftrightarrow>
     version_event node (last ops) e \<and> finds_written ops (ne_docs e) \<and> docs_ok (ne_docs e) \<and>
     (\<forall>n. ne_node e = Inr n \<longrightarrow> good_snapshot cp (ne_docs e) (nd_Version n) \<noteq> None)"

lemma well_reported_handed_over:
  assumes "well_reported cp node ops e"
  obtains u res where "last ops = UpdateOne ''nodes'' [(''name'', node)] [(''version'', u)]"
    and "handed_over cp node e u res"
proof -
  from assms obtain n where n: "ne_node e = Inr n" "nd_Name n = node"
      "last ops = UpdateOne ''nodes'' [(''name'', node)] [(''version'', nd_Version n)]"
    and event: "ne_decoded e" "ne_operation e \<in> {Some ''insert'', Some ''update''}" "ne_key_ok e"
    by (auto simp: well_reported_def version_event_def)
  from assms n(1) obtain snap where snap: "good_snapshot cp (ne_docs e) (nd_Version n) = Some snap"
    by (auto simp: well_reported_def)
  from assms load_docs_returns [of "cp_loader cp" "ne_docs e"] obtain res err where
    run: "load_docs (cp_loader cp) (ne_docs e) = Inr (res, err)" by (auto simp: well_reported_def)
  then have "err = None" unfolding load_docs_def by (rule LoadNode_no_error)
  have "event_ok e" using event assms by (auto simp: event_ok_def well_reported_def)
  from cp_watch_ok [OF this, of cp] snap n event
  have "cp_watch cp e calls = Running (calls @ [(node, snap)])" for calls by (simp add: event_calls_def)
  moreover have "NewSnapshot cp (nd_Version n) res = Some snap"
    using snap run by (auto simp: good_snapshot_def split: option.splits if_splits)
  ultimately have "handed_over cp node e (nd_Version n) res"
    using run \<open>err = None\<close> by (auto simp: handed_over_def)
  with n(3) show ?thesis by (rule that)
qed

text \<open>A write before the new version is among the new operations, and the version is the last.\<close>

lemma new_ops_write_bump:
  assumes "successful st (case run_op env op st1 of (ok, st) \<Rightarrow>
      if \<not> ok then reply (JSON 400 msg) st else bump_version env node st)" (is "successful st ?st'")
    and "api_ops st1 = api_ops st"
  shows "op \<in> set (new_ops st ?st')"
proof -
  obtain ok st2 where run: "run_op env op st1 = (ok, st2)" by fastforce
  then have "ok" using assms(1) by (auto simp: not_successful_reply split: if_splits)
  with run bump_version_ops [of env node st2] assms(2) show ?thesis
    by (auto simp: new_ops_def dest!: run_op_simps)
qed

lemma put_listener_ops:
  assumes "successful st (PutConfigListeners env node (Inr l) st)"
  shows "ReplaceOne ''listeners'' [(''nodeId'', node), (''name'', li_Name l)] (ListenerDoc (l\<lparr>li_NodeID := node\<rparr>))
    \<in> set (new_ops st (PutConfigListeners env node (Inr l) st))"
  using assms unfolding PutConfigListeners_def Let_def
  by (auto simp: not_successful_reply intro!: new_ops_write_bump split: if_splits)

lemma put_cluster_ops:
  assumes "successful st (PutConfigClusters env node (Inr c) st)"
  shows "ReplaceOne ''clusters'' [(''nodeId'', node), (''name'', cl_Name c)] (ClusterDoc (c\<lparr>cl_NodeID := node\<rparr>))
    \<in> set (new_ops st (PutConfigClusters env node (Inr c) st))"
  using assms unfolding PutConfigClusters_def Let_def
  by (auto simp: not_successful_reply intro!: new_ops_write_bump split: if_splits)


definition reported :: "node_docs \<Rightarrow> node_event" where
  "reported docs = \<lparr>ne_decoded = True, ne_operation = Some ''update'', ne_key_ok = True,
     ne_node = Inr \<lparr>nd_Name = ''n1'', nd_Address = [], nd_Version = ''v'', nd_Addresses = []\<rparr>, ne_docs = docs\<rparr>"

lemma accepted_write: "run_op accept_env op st = (True, st\<lparr>api_ops := api_ops st @ [op]\<rparr>)"
  by (simp add: run_op_def accept_env_def)

lemma accepted_bump: "bump_version accept_env node st =
    st\<lparr>api_ops := api_ops st @ [UpdateOne ''nodes'' [(''name'', node)] [(''version'', ''v'')]],
       api_replies := api_replies st @ [Status 204]\<rparr>"
  by (simp add: bump_version_def run_op_def reply_def accept_env_def)

lemma accepted_put:
  "PutConfigListeners accept_env ''n1'' (Inr l) fresh = \<lparr>api_world = (), api_ops =
     [ReplaceOne ''listeners'' [(''nodeId'', ''n1''), (''name'', li_Name l)] (ListenerDoc (l\<lparr>li_NodeID := ''n1''\<rparr>)),
      UpdateOne ''nodes'' [(''name'', ''n1'')] [(''version'', ''v'')]], api_replies = [Status 204]\<rparr>"
  "cl_ConnectTimeout c \<notin> {''0s'', ''0''} \<Longrightarrow> PutConfigClusters accept_env ''n1'' (Inr c) fresh = \<lparr>api_world = (), api_ops =
     [ReplaceOne ''clusters'' [(''nodeId'', ''n1''), (''name'', cl_Name c)] (ClusterDoc (c\<lparr>cl_NodeID := ''n1''\<rparr>)),
      UpdateOne ''nodes'' [(''name'', ''n1'')] [(''version'', ''v'')]], api_replies = [Status 204]\<rparr>"
  by (simp_all add: PutConfigListeners_def PutConfigClusters_def name_guard_def Let_def accepted_write accepted_bump)
    (simp_all add: accept_env_def fresh_def)

lemma fresh_simps: "api_ops fresh = []" "api_replies fresh = []"
  by (simp_all add: fresh_def)

lemma n1_decoded: "decoded (nd_listeners n1_docs) = [sample_listener]" "decoded (nd_clusters n1_docs) = []"
    "decoded (nd_endpoints n1_docs) = []" "decoded (Inr [Some d]) = [d]"
  by (simp_all add: n1_docs_def decoded_def)


section \<open>A node that is deleted\<close>

lemma cp_watch_adds: "cp_watch cp e calls = Running calls' \<Longrightarrow> calls' = calls @ event_calls cp e"
  using cp_watch_ok [of e cp calls] cp_watch_not_ok [of e cp calls] by (cases "event_ok e") auto

lemma event_calls_of:
  "c \<in> set (event_calls cp e) \<Longrightarrow>
     ne_operation e \<noteq> Some ''delete'' \<and> (\<exists>n. ne_node e = Inr n \<and> nd_Name n = fst c)"
  by (simp only: event_calls_def split: if_splits sum.splits option.splits) auto

text \<open>The proxies of a deleted node go on being served its last snapshot: whatever happens, the
  deletion of the node included, only an insert or an update of the node itself changes what
  was handed over for it.\<close>

theorem deleted_node_still_served:
  assumes "run_loop (cp_watch cp) es calls = Running calls'"
    and "\<forall>e \<in> set es. ne_operation e = Some ''delete'' \<or> (\<forall>n. ne_node e = Inr n \<longrightarrow> nd_Name n \<noteq> node)"
  shows "[c \<leftarrow> calls'. fst c = node] = [c \<leftarrow> calls. fst c = node]"
  using assms
proof (induction es arbitrary: calls)
  case (Cons e es)
  then obtain calls1 where first: "cp_watch cp e calls = Running calls1"
    and rest: "run_loop (cp_watch cp) es calls1 = Running calls'"
    by (auto split: process.splits)
  have "fst c \<noteq> node" if "c \<in> set (event_calls cp e)" for c
    using Cons.prems(2) event_calls_of [OF that] by fastforce
  then have "[c \<leftarrow> event_calls cp e. fst c = node] = []" by (simp add: filter_empty_conv)
  with Cons.IH [OF rest] Cons.prems(2) cp_watch_adds [OF first] show ?case by simp
qed simp

theorem deleted_node_still_served_witness:
  "[c \<leftarrow> [(''n1'', (''v1'', [''web'']))]. fst c = ''n1''] = [(''n1'', (''v1'', [''web'']))] \<and>
   run_loop (cp_watch sample_cp) [n1_event ''delete''] [(''n1'', (''v1'', [''web'']))] = Running [(''n1'', (''v1'', [''web'']))]"
proof -
  have run: "run_loop (cp_watch sample_cp) [n1_event ''delete''] [(''n1'', (''v1'', [''web'']))] =
      Running [(''n1'', (''v1'', [''web'']))]"
    by (simp add: cp_watch_def n1_event_def)
  from deleted_node_still_served [OF run, of "''n1''"] run show ?thesis by (simp add: n1_event_def)
qed

end
