(* ===== verification/Flags.thy ===== *)
theory Flags
  imports GoIO
begin

text \<open>
  The command lines of the programs: the flags each \<open>init\<close> declares with their defaults, and
  what \<open>flag.Parse\<close> makes of the arguments.  The standard library's parser is modelled in full
  (the shapes of a flag, the values of each kind, the exit statuses), numbers included:
  \<open>strconv.ParseUint\<close> and \<open>strconv.ParseInt\<close> with base 0, which read a prefix and underscores.
\<close>

section \<open>Numbers in the base of their prefix\<close>

text \<open>\<open>lower(c)\<close> of \<open>strconv\<close>, \<open>c | 0x20\<close>: on bytes that are no letters the result is not one of \<open>a\<close> to \<open>z\<close>.\<close>

definition lower_byte :: "char \<Rightarrow> nat" where
  "lower_byte c = (if (of_char c div 32) mod 2 = (1::nat) then of_char c else of_char c + 32)"

definition base_digit :: "char \<Rightarrow> nat option" where
  "base_digit c =
     (if is_digit c then Some (of_char c - 48)
      else if 97 \<le> lower_byte c \<and> lower_byte c \<le> 122 then Some (lower_byte c - 97 + 10)
      else None)"

fun parse_digits :: "nat \<Rightarrow> nat \<Rightarrow> nat \<Rightarrow> string \<Rightarrow> nat option" where
  "parse_digits base max_val n [] = Some n"
| "parse_digits base max_val n (c # s) =
     (if c = CHR ''_'' then parse_digits base max_val n s
      else case base_digit c of
        None \<Rightarrow> None
      | Some d \<Rightarrow> if base \<le> d \<or> max_val < n * base + d then None
                  else parse_digits base max_val (n * base + d) s)"

text \<open>The base and the digits after the prefix.\<close>

definition based :: "string \<Rightarrow> nat \<times> string" where
  "based s =
     (case s of
        CHR ''0'' # rest \<Rightarrow>
          (case rest of
             p # d # ds \<Rightarrow>
               if lower_byte p = of_char (CHR ''b'') then (2, d # ds)
               else if lower_byte p = of_char (CHR ''o'') then (8, d # ds)
               else if lower_byte p = of_char (CHR ''x'') then (16, d # ds)
               else (8, rest)
           | _ \<Rightarrow> (8, rest))
      | _ \<Rightarrow> (10, s))"

text \<open>\<open>underscoreOK\<close>: an underscore stands between digits, or between the prefix and a digit.\<close>

datatype saw = SawBegin | SawDigit | SawUnderscore | SawOther

fun underscores_from :: "bool \<Rightarrow> saw \<Rightarrow> string \<Rightarrow> bool" where
  "underscores_from hex prev [] = (prev \<noteq> SawUnderscore)"
| "underscores_from hex prev (c # s) =
     (if is_digit c \<or> hex \<and> 97 \<le> lower_byte c \<and> lower_byte c \<le> 102 then underscores_from hex SawDigit s
      else if c = CHR ''_'' then prev = SawDigit \<and> underscores_from hex SawUnderscore s
      else prev \<noteq> SawUnderscore \<and> underscores_from hex SawOther s)"

definition underscore_ok :: "string \<Rightarrow> bool" where
  "underscore_ok s0 =
     (let s = (if has_prefix s0 ''-'' \<or> has_prefix s0 ''+'' then drop 1 s0 else s0)
      in case s of
           CHR ''0'' # p # rest \<Rightarrow>
             if lower_byte p \<in> {of_char (CHR ''b''), of_char (CHR ''o''), of_char (CHR ''x'')}
             then underscores_from (lower_byte p = of_char (CHR ''x'')) SawDigit rest
             else underscores_from False SawBegin s
         | _ \<Rightarrow> underscores_from False SawBegin s)"

text \<open>\<open>ParseUint(s, 0, 64)\<close> and \<open>ParseInt(s, 0, 64)\<close>; \<open>None\<close> is an error of either kind.\<close>

definition parse_uint0 :: "string \<Rightarrow> nat option" where
  "parse_uint0 s =
     (if s = [] then None
      else case based s of (base, digits) \<Rightarrow>
        (case parse_digits base (2 ^ 64 - 1) 0 digits of
           None \<Rightarrow> None
         | Some n \<Rightarrow> if CHR ''_'' \<in> set digits \<and> \<not> underscore_ok s then None else Some n))"

definition parse_int0 :: "string \<Rightarrow> int option" where
  "parse_int0 s =
     (let neg = has_prefix s ''-'';
          un = parse_uint0 (if neg \<or> has_prefix s ''+'' then drop 1 s else s)
      in case un of
           None \<Rightarrow> None
         | Some n \<Rightarrow> if \<not> neg \<and> 2 ^ 63 \<le> n then None
                     else if neg \<and> 2 ^ 63 < n then None
                     else Some (if neg then - int n else int n))"

section \<open>The parser\<close>

text \<open>A flag's variable with its value; \<open>flag.IntVar\<close> and \<open>flag.Int64Var\<close> read the same 64-bit numbers.\<close>

datatype flag_value =
    BoolFlag bool
  | UintFlag u64
  | IntFlag go_int
  | StringFlag string

type_synonym flag_set = "string \<rightharpoonup> flag_value"

definition parse_bool :: "string \<Rightarrow> bool option" where
  "parse_bool s =
     (if s \<in> {''1'', ''t'', ''T'', ''TRUE'', ''true'', ''True''} then Some True
      else if s \<in> {''0'', ''f'', ''F'', ''FALSE'', ''false'', ''False''} then Some False
      else None)"

text \<open>The method \<open>Set\<close> of a flag's value.\<close>

fun set_flag :: "flag_value \<Rightarrow> string \<Rightarrow> flag_value option" where
  "set_flag (BoolFlag b) s = map_option BoolFlag (parse_bool s)"
| "set_flag (UintFlag n) s = map_option (\<lambda>k. UintFlag (of_nat k)) (parse_uint0 s)"
| "set_flag (IntFlag i) s = map_option (\<lambda>k. IntFlag (of_int k)) (parse_int0 s)"
| "set_flag (StringFlag t) s = Some (StringFlag s)"

fun is_bool_flag :: "flag_value \<Rightarrow> bool" where
  "is_bool_flag (BoolFlag b) = True"
| "is_bool_flag _ = False"

datatype flag_error =
    ErrHelp
  | BadSyntax
  | NotDefined
  | NeedsArgument
  | InvalidValue

text \<open>The name and, after the first \<open>=\<close> that is not its first byte, the value.\<close>

definition split_value :: "string \<Rightarrow> string \<times> string option" where
  "split_value name =
     (case dropWhile (\<lambda>c. c \<noteq> CHR ''='') (drop 1 name) of
        [] \<Rightarrow> (name, None)
      | _ # value \<Rightarrow> (take 1 name @ takeWhile (\<lambda>c. c \<noteq> CHR ''='') (drop 1 name), Some value))"

text \<open>What one round of the parser does: stop before the remaining arguments, set a flag, or fail.\<close>

datatype flag_step =
    Stop "string list"
  | Seen flag_set "string list"
  | Failed flag_error

definition parse_one :: "flag_set \<Rightarrow> string list \<Rightarrow> flag_step" where
  "parse_one fs args =
     (case args of
        [] \<Rightarrow> Stop []
      | s # rest \<Rightarrow>
          if length s < 2 \<or> hd s \<noteq> CHR ''-'' then Stop args
          else if s = ''--'' then Stop rest
          else
            let name = drop (if s ! 1 = CHR ''-'' then 2 else 1) s
            in if name = [] \<or> hd name = CHR ''-'' \<or> hd name = CHR ''='' then Failed BadSyntax
               else case split_value name of (name, given) \<Rightarrow>
                 (case fs name of
                    None \<Rightarrow> Failed (if name = ''help'' \<or> name = ''h'' then ErrHelp else NotDefined)
                  | Some old \<Rightarrow>
                      (let (value, rest) =
                         (case given of
                            Some v \<Rightarrow> (Some v, rest)
                          | None \<Rightarrow> if is_bool_flag old then (Some ''true'', rest)
                                    else case rest of [] \<Rightarrow> (None, []) | v # rest' \<Rightarrow> (Some v, rest'))
                       in case value of
                            None \<Rightarrow> Failed NeedsArgument
                          | Some v \<Rightarrow>
                              (case set_flag old v of
                                 None \<Rightarrow> Failed InvalidValue
                               | Some new \<Rightarrow> Seen (fs(name \<mapsto> new)) rest))))"

lemma parse_one_shorter: "parse_one fs args = Seen fs' rest \<Longrightarrow> length rest < length args"
  by (auto simp: parse_one_def Let_def split: list.splits if_splits option.splits prod.splits)

text \<open>The loop of \<open>Parse\<close>: the flags as set, and the arguments that are left.\<close>

function parse_flags :: "flag_set \<Rightarrow> string list \<Rightarrow> flag_error + flag_set \<times> string list" where
  "parse_flags fs args =
     (case parse_one fs args of
        Stop rest \<Rightarrow> Inr (fs, rest)
      | Seen fs' rest \<Rightarrow> parse_flags fs' rest
      | Failed e \<Rightarrow> Inl e)"
  by pat_completeness auto
termination
  by (relation "measure (\<lambda>(fs, args). length args)") (auto dest: parse_one_shorter)

declare parse_flags.simps [simp del]

text \<open>\<open>flag.Parse\<close> exits the process at an error: with status 0 after help, with 2 otherwise.\<close>

definition exit_status :: "flag_error \<Rightarrow> int" where
  "exit_status e = (if e = ErrHelp then 0 else 2)"

definition flag_Parse :: "flag_set \<Rightarrow> string list \<Rightarrow> int + flag_set" where
  "flag_Parse fs args =
     (case parse_flags fs args of Inl e \<Rightarrow> Inl (exit_status e) | Inr (fs', _) \<Rightarrow> Inr fs')"

section \<open>Settings read back\<close>

text \<open>A setting as it is written on a command line, with the value after an equals sign.\<close>

fun show_flag :: "flag_value \<Rightarrow> string" where
  "show_flag (BoolFlag b) = (if b then ''true'' else ''false'')"
| "show_flag (UintFlag n) = format_uint (unat n)"
| "show_flag (IntFlag i) = format_int (sint i)"
| "show_flag (StringFlag s) = s"

definition print_setting :: "string \<times> flag_value \<Rightarrow> string" where
  "print_setting nv = ''-'' @ fst nv @ ''='' @ show_flag (snd nv)"

fun same_kind :: "flag_value \<Rightarrow> flag_value \<Rightarrow> bool" where
  "same_kind (BoolFlag a) (BoolFlag b) = True"
| "same_kind (UintFlag a) (UintFlag b) = True"
| "same_kind (IntFlag a) (IntFlag b) = True"
| "same_kind (StringFlag a) (StringFlag b) = True"
| "same_kind _ _ = False"

definition flag_name :: "string \<Rightarrow> bool" where
  "flag_name name \<longleftrightarrow> name \<noteq> [] \<and> hd name \<noteq> CHR ''-'' \<and> CHR ''='' \<notin> set name"

lemma same_kind_trans: "same_kind a b \<Longrightarrow> same_kind a c \<Longrightarrow> same_kind b c"
  by (cases a; cases b; cases c) auto

lemma format_uint_leading: "0 < n \<Longrightarrow> \<exists>c s. format_uint n = c # s \<and> c \<noteq> CHR ''0''"
proof (induction n rule: format_uint.induct)
  case (1 n)
  show ?case
  proof (cases "n < 10")
    case True
    with 1 have "of_char (digit_char n) \<noteq> (of_char (CHR ''0'') :: nat)" by (simp add: of_char_digit)
    then have "digit_char n \<noteq> CHR ''0''" by metis
    with True show ?thesis by (subst format_uint.simps) simp
  next
    case False
    with 1 obtain c s where "format_uint (n div 10) = c # s" "c \<noteq> CHR ''0''"
      by (auto simp: div_greater_zero_iff)
    with False show ?thesis by (subst format_uint.simps) simp
  qed
qed

lemma parse_digits_decimal:
  assumes "\<forall>c \<in> set s. is_digit c" and "foldl (\<lambda>v c. 10 * v + (of_char c - 48)) n s \<le> m"
  shows "parse_digits 10 m n s = Some (foldl (\<lambda>v c. 10 * v + (of_char c - 48)) n s)"
  using assms
proof (induction s arbitrary: n)
  case (Cons c s)
  from Cons.prems have "is_digit c" "c \<noteq> CHR ''_''" by (auto simp: is_digit_def)
  moreover from \<open>is_digit c\<close> have "of_char c - 48 < (10::nat)" by (auto simp: is_digit_def)
  moreover have "10 * n + (of_char c - 48) \<le> m"
    using digits_grow [of "10 * n + (of_char c - 48)" s] Cons.prems(2) by simp
  ultimately show ?case
    using Cons by (simp add: base_digit_def mult.commute not_less)
qed simp

lemma based_format_uint: "0 < n \<Longrightarrow> based (format_uint n) = (10, format_uint n)"
  using format_uint_leading [of n] by (auto simp: based_def split: char.splits bool.splits)

lemma parse_uint0_format: "n < 2 ^ 64 \<Longrightarrow> parse_uint0 (format_uint n) = Some n"
proof (cases "n = 0")
  case True
  have "format_uint 0 = ''0''" by code_simp
  with True show ?thesis by (simp add: parse_uint0_def based_def)
next
  case False
  assume n: "n < 2 ^ 64"
  have "parse_digits 10 (2 ^ 64 - 1) 0 (format_uint n) = Some n"
    using parse_digits_decimal [of "format_uint n" 0 "2 ^ 64 - 1"] format_uint_digits
      digits_value_format_uint [of n] n
    by (auto simp: digits_value_def)
  moreover have "CHR ''_'' \<notin> set (format_uint n)" by (rule format_uint_chars) (simp add: is_digit_def)
  ultimately show ?thesis using False by (simp add: parse_uint0_def based_format_uint)
qed

lemma format_uint_no_sign: "\<not> has_prefix (format_uint n) ''-''" "\<not> has_prefix (format_uint n) ''+''"
proof -
  have "\<not> has_prefix (format_uint n) [c]" if "\<not> is_digit c" for c
    using format_uint_chars [OF that, of n] by (cases "format_uint n") auto
  then show "\<not> has_prefix (format_uint n) ''-''" "\<not> has_prefix (format_uint n) ''+''"
    by (simp_all add: is_digit_def)
qed

lemma parse_int0_format: "- (2 ^ 63) \<le> i \<Longrightarrow> i < 2 ^ 63 \<Longrightarrow> parse_int0 (format_int i) = Some i"
  by (auto simp: parse_int0_def format_int_def format_uint_no_sign parse_uint0_format Let_def)

lemma sint_go_int: "- (2 ^ 63) \<le> sint (i :: go_int)" "sint (i :: go_int) < 2 ^ 63"
  using sint_greater_eq [of i] sint_less [of i] by simp_all

lemma set_flag_show: "same_kind old v \<Longrightarrow> set_flag old (show_flag v) = Some v"
proof (cases old; cases v)
  fix a b assume "old = UintFlag a" "v = UintFlag b"
  moreover have "unat b < 2 ^ 64" using unsigned_less [of b] by simp
  ultimately show ?thesis by (simp add: parse_uint0_format)
next
  fix a b assume "old = IntFlag a" "v = IntFlag b"
  with parse_int0_format [OF sint_go_int, of b] show ?thesis by simp
qed (auto simp: parse_bool_def)

lemma split_value_printed: "flag_name name \<Longrightarrow> split_value (name @ ''='' @ v) = (name, Some v)"
proof -
  assume "flag_name name"
  then obtain c s where name: "name = c # s" and s: "\<forall>x \<in> set s. x \<noteq> CHR ''=''"
    by (cases name) (auto simp: flag_name_def)
  from s have "dropWhile (\<lambda>c. c \<noteq> CHR ''='') (s @ ''='' @ v) = ''='' @ v"
    "takeWhile (\<lambda>c. c \<noteq> CHR ''='') (s @ ''='' @ v) = s"
    by (simp_all add: dropWhile_append2 takeWhile_append2)
  with name show ?thesis by (simp add: split_value_def)
qed

text \<open>A setting of a flag the program has, printed, is one flag seen.\<close>

lemma parse_one_printed:
  assumes "flag_name name" and "fs name = Some old" and "same_kind old v"
  shows "parse_one fs (print_setting (name, v) # rest) = Seen (fs(name \<mapsto> v)) rest"
proof -
  from assms(1) obtain c s where name: "name = c # s" "c \<noteq> CHR ''-''" "c \<noteq> CHR ''=''"
    by (cases name) (auto simp: flag_name_def)
  with split_value_printed [OF assms(1), of "show_flag v"] assms(2) set_flag_show [OF assms(3)]
  show ?thesis by (simp add: parse_one_def print_setting_def Let_def)
qed

definition settable :: "flag_set \<Rightarrow> string \<times> flag_value \<Rightarrow> bool" where
  "settable fs nv \<longleftrightarrow> flag_name (fst nv) \<and> (\<exists>old. fs (fst nv) = Some old \<and> same_kind old (snd nv))"

lemma settable_update: "settable fs nv \<Longrightarrow> settable fs mv \<Longrightarrow> settable (fs(fst nv \<mapsto> snd nv)) mv"
  by (auto simp: settable_def intro: same_kind_trans)

text \<open>
  Printed settings are read in their order, the later setting of a flag wins, and the rest of
  the arguments is parsed from there.
\<close>

lemma parse_flags_printed:
  assumes "\<forall>nv \<in> set settings. settable fs nv"
  shows "parse_flags fs (map print_setting settings @ args) =
    parse_flags (fs ++ map_of (rev settings)) args"
  using assms
proof (induction settings arbitrary: fs)
  case (Cons nv settings)
  obtain name v where nv: "nv = (name, v)" by (cases nv)
  with Cons.prems have "parse_one fs (print_setting nv # map print_setting settings @ args) =
      Seen (fs(name \<mapsto> v)) (map print_setting settings @ args)"
    by (auto simp: settable_def intro: parse_one_printed)
  then have "parse_flags fs (map print_setting (nv # settings) @ args) =
      parse_flags (fs(name \<mapsto> v)) (map print_setting settings @ args)"
    by (subst parse_flags.simps) simp
  also have "\<dots> = parse_flags (fs(name \<mapsto> v) ++ map_of (rev settings)) args"
  proof (rule Cons.IH, rule ballI)
    fix mv assume "mv \<in> set settings"
    with Cons.prems have "settable fs nv" "settable fs mv" by auto
    then have "settable (fs(fst nv \<mapsto> snd nv)) mv" by (rule settable_update)
    with nv show "settable (fs(name \<mapsto> v)) mv" by simp
  qed
  also have "fs(name \<mapsto> v) ++ map_of (rev settings) = fs ++ map_of (rev (nv # settings))"
    by (simp add: nv map_add_assoc [symmetric])
  finally show ?case .
qed simp

section \<open>What parsing never does\<close>

text \<open>Parsing declares no flag and changes no flag's kind.\<close>

lemma same_kind_refl [simp]: "same_kind v v"
  by (cases v) auto

lemma same_kind_sym: "same_kind a b \<Longrightarrow> same_kind b a"
  using same_kind_trans [of a b a] by simp

lemma set_flag_kind: "set_flag old s = Some v \<Longrightarrow> same_kind old v"
  by (cases old) auto

lemma same_kinds_refl [simp]: "rel_option same_kind y y"
  by (cases y) auto

lemma parse_one_kinds:
  assumes "parse_one fs args = Seen fs' rest"
  shows "rel_option same_kind (fs x) (fs' x)"
  using assms
  by (auto simp: parse_one_def Let_def intro: set_flag_kind
      split: list.splits if_splits option.splits prod.splits)

lemma parse_flags_kinds:
  "parse_flags fs args = Inr (fs', rest) \<Longrightarrow> rel_option same_kind (fs x) (fs' x)"
proof (induction fs args rule: parse_flags.induct)
  case (1 fs args)
  show ?case
  proof (cases "parse_one fs args")
    case (Stop r)
    with "1.prems" show ?thesis by (simp add: parse_flags.simps [of fs args])
  next
    case (Seen fs1 r)
    with "1.prems" have "parse_flags fs1 r = Inr (fs', rest)" by (simp add: parse_flags.simps [of fs args])
    with "1.IH" Seen have "rel_option same_kind (fs1 x) (fs' x)" by blast
    with parse_one_kinds [OF Seen, of x] show ?thesis
      by (auto elim!: option.rel_cases) (metis same_kind_trans same_kind_sym)
  next
    case (Failed e)
    with "1.prems" show ?thesis by (simp add: parse_flags.simps [of fs args])
  qed
qed

section \<open>The programs' flags\<close>

definition cp_flags :: flag_set where
  "cp_flags =
     [''debug'' \<mapsto> BoolFlag True, ''port'' \<mapsto> UintFlag 18000, ''gateway'' \<mapsto> UintFlag 18001,
      ''ads'' \<mapsto> StringFlag ''ads'', ''mongodb'' \<mapsto> StringFlag ''mongodb://10.99.6.19:27017'',
      ''timeout'' \<mapsto> IntFlag 5]"

definition rl_flags :: flag_set where
  "rl_flags =
     [''port'' \<mapsto> UintFlag 18000, ''mongodb'' \<mapsto> StringFlag ''mongodb://10.99.6.19:27017'',
      ''redis'' \<mapsto> StringFlag ''127.0.0.1:6379'', ''timeout'' \<mapsto> IntFlag 5, ''redisPool'' \<mapsto> IntFlag 10,
      ''redisTls'' \<mapsto> BoolFlag False, ''redisAuth'' \<mapsto> StringFlag [], ''redisType'' \<mapsto> StringFlag ''single'',
      ''healthCheckPort'' \<mapsto> UintFlag 8081]"

definition az_flags :: flag_set where
  "az_flags =
     [''port'' \<mapsto> UintFlag 18006, ''mongodb'' \<mapsto> StringFlag ''mongodb://10.99.6.19:27017'',
      ''healthCheckPort'' \<mapsto> UintFlag 8083]"

definition s3_flags :: flag_set where
  "s3_flags =
     [''port'' \<mapsto> UintFlag 18007, ''mongodb'' \<mapsto> StringFlag ''mongodb://10.99.6.24:27017'',
      ''s3'' \<mapsto> StringFlag ''https://avntg.s3mts.ru:4443'', ''s3auth'' \<mapsto> StringFlag ''base64 auth'',
      ''debug'' \<mapsto> BoolFlag False, ''healthCheckPort'' \<mapsto> UintFlag 8082, ''timeout'' \<mapsto> IntFlag 5]"

definition als_flags :: flag_set where
  "als_flags =
     [''debug'' \<mapsto> BoolFlag True, ''als'' \<mapsto> UintFlag 18090,
      ''elastic'' \<mapsto> StringFlag ''http://10.99.6.19:9200'', ''clickhouse'' \<mapsto> StringFlag ''127.0.0.1:9000'',
      ''username'' \<mapsto> StringFlag [], ''password'' \<mapsto> StringFlag [],
      ''grpcmaxstreams'' \<mapsto> UintFlag 100000, ''workers'' \<mapsto> IntFlag 10, ''backend'' \<mapsto> StringFlag []]"

lemmas program_flags = cp_flags_def rl_flags_def az_flags_def s3_flags_def als_flags_def

text \<open>The value of a flag's variable.\<close>

definition uint_var :: "flag_set \<Rightarrow> string \<Rightarrow> u64" where
  "uint_var fs name = (case fs name of Some (UintFlag n) \<Rightarrow> n | _ \<Rightarrow> 0)"

definition int_var :: "flag_set \<Rightarrow> string \<Rightarrow> go_int" where
  "int_var fs name = (case fs name of Some (IntFlag i) \<Rightarrow> i | _ \<Rightarrow> 0)"

definition string_var :: "flag_set \<Rightarrow> string \<Rightarrow> string" where
  "string_var fs name = (case fs name of Some (StringFlag s) \<Rightarrow> s | _ \<Rightarrow> [])"

definition bool_var :: "flag_set \<Rightarrow> string \<Rightarrow> bool" where
  "bool_var fs name = (case fs name of Some (BoolFlag b) \<Rightarrow> b | _ \<Rightarrow> False)"

lemma flag_names_ok:
  "dom cp_flags \<subseteq> {n. flag_name n}" "dom rl_flags \<subseteq> {n. flag_name n}" "dom az_flags \<subseteq> {n. flag_name n}"
  "dom s3_flags \<subseteq> {n. flag_name n}" "dom als_flags \<subseteq> {n. flag_name n}"
  by (simp_all add: program_flags flag_name_def)

lemma program_flag_names:
  assumes "fs \<in> {cp_flags, rl_flags, az_flags, s3_flags, als_flags}" and "fs name = Some v"
  shows "flag_name name"
  using assms flag_names_ok by blast

lemma split_value_bare: "flag_name name \<Longrightarrow> split_value name = (name, None)"
proof -
  assume "flag_name name"
  then have "\<forall>x \<in> set (drop 1 name). x \<noteq> CHR ''=''" by (auto simp: flag_name_def dest: in_set_dropD)
  then have "dropWhile (\<lambda>c. c \<noteq> CHR ''='') (drop 1 name) = []" by (simp add: dropWhile_eq_Nil_conv del: One_nat_def)
  then show ?thesis by (simp only: split_value_def list.case)
qed

text \<open>The four ways to write a flag.\<close>

definition flag_forms :: "string \<Rightarrow> string \<Rightarrow> string set" where
  "flag_forms name v =
     {dashes @ given | dashes given. dashes \<in> {''-'', ''--''} \<and> given \<in> {name, name @ ''='' @ v}}"

lemma parse_one_undefined:
  assumes "flag_name name" and "name \<noteq> ''help''" and "name \<noteq> ''h''" and "fs name = None"
    and "s \<in> flag_forms name v"
  shows "parse_one fs (s # args) = Failed NotDefined"
proof -
  from assms(1) obtain c n where n: "name = c # n" "c \<noteq> CHR ''-''" "c \<noteq> CHR ''=''"
    by (cases name) (auto simp: flag_name_def)
  have split: "fst (split_value name) = name" "fst (split_value (name @ ''='' @ v)) = name"
    using split_value_bare [OF assms(1)] split_value_printed [OF assms(1), of v] by simp_all
  from assms(5) obtain dashes t where s: "s = dashes @ t" "dashes \<in> {''-'', ''--''}"
      "t \<in> {name, name @ ''='' @ v}"
    unfolding flag_forms_def by blast
  then obtain t' where t: "t = c # t'" using n by auto
  have "parse_one fs (s # args) =
      (case split_value t of (name, given) \<Rightarrow>
         (case fs name of
            None \<Rightarrow> Failed (if name = ''help'' \<or> name = ''h'' then ErrHelp else NotDefined)
          | Some old \<Rightarrow> parse_one fs (s # args)))"
    using s(2) n(2,3)
    by (cases "split_value t"; cases "fs (fst (split_value t))")
      (auto simp: s(1) t parse_one_def Let_def)
  with split s(3) assms(2-4) show ?thesis by (cases "split_value t") auto
qed

lemma az_no_timeout: "az_flags ''timeout'' = None"
  by (simp add: az_flags_def)

section \<open>Command lines\<close>



text \<open>The authorization server has no flag for the time-out of its queries: after any settings of the
  flags it has, a \<open>-timeout\<close> in any of its forms ends the process with status 2 whatever follows,
  and no command line it starts with declares one.\<close>

theorem az_timeout_refused:
  assumes "\<forall>(name, v) \<in> set settings. \<exists>old. az_flags name = Some old \<and> same_kind old v"
    and "s \<in> flag_forms ''timeout'' v"
  shows "flag_Parse az_flags (map print_setting settings @ s # args) = Inl 2 \<and>
    (\<forall>fs args. flag_Parse az_flags args = Inr fs \<longrightarrow> fs ''timeout'' = None)"
proof (intro conjI allI impI)
  have ok: "\<forall>nv \<in> set settings. settable az_flags nv"
    using assms(1) program_flag_names [of az_flags] by (auto simp: settable_def)
  have "(''timeout'', u) \<notin> set settings" for u
    using bspec [OF assms(1), of "(''timeout'', u)"] az_no_timeout by auto
  then have "map_of (rev settings) ''timeout'' = None" by (force simp: map_of_eq_None_iff)
  then have "(az_flags ++ map_of (rev settings)) ''timeout'' = None"
    by (simp add: map_add_def az_no_timeout)
  with assms(2) have "parse_one (az_flags ++ map_of (rev settings)) (s # args) = Failed NotDefined"
    by (intro parse_one_undefined) (simp_all add: flag_name_def)
  then show "flag_Parse az_flags (map print_setting settings @ s # args) = Inl 2"
    by (simp add: flag_Parse_def parse_flags_printed [OF ok] parse_flags.simps [of _ "s # args"] exit_status_def)
next
  fix fs args assume "flag_Parse az_flags args = Inr fs"
  then obtain rest where "parse_flags az_flags args = Inr (fs, rest)"
    by (auto simp: flag_Parse_def split: sum.splits)
  from parse_flags_kinds [OF this, of "''timeout''"] show "fs ''timeout'' = None"
    by (auto simp: az_no_timeout elim: option.rel_cases)
qed

theorem az_timeout_refused_witness:
  "flag_Parse az_flags (map print_setting [(''port'', UintFlag 18016)] @ ''-timeout=5'' # [''-port=1'']) = Inl 2"
proof -
  have "''-timeout=5'' \<in> flag_forms ''timeout'' ''5''"
    by (auto simp: flag_forms_def intro: exI [of _ "''-''"])
  moreover have "\<forall>(name, v) \<in> set [(''port'', UintFlag 18016)]. \<exists>old. az_flags name = Some old \<and> same_kind old v"
    by (simp add: az_flags_def)
  ultimately show ?thesis using az_timeout_refused by blast
qed

end
