(* ===== verification/Boot.thy ===== *)
theory Boot
  imports Flags ServerViews
begin

text \<open>
  The start of the programs that watch the database: \<open>main\<close> of \<open>ratelimit.go\<close>, \<open>authz.go\<close>,
  \<open>authzs3.go\<close> and \<open>main.go\<close> up to the loop over the change stream, and the goroutines it
  starts on the way.  \<open>main\<close> is the list of its stages, each a call whose outcome the code
  examines or drops; goroutines run at any time after they are started, so that the start of a
  program is a step relation, and a panic or \<open>log.Fatal\<close> anywhere ends the whole process.
\<close>

section \<open>Stages\<close>

datatype stage =
    MongoClient string
  | MongoConnect
  | MongoPing
  | RedisClient string bool string int string
  | FirstLoad "64 word"
  | StartUsers
  | StartServer string
  | StartHttp string
  | OpenStream

datatype goroutine =
    Users
  | GrpcServer string
  | HttpServer string

text \<open>
  The library calls.  \<open>drivers.Cli\<close> is a pointer that may be nil; the calls on it and the first
  load, whose queries are made on it, take it as it is.  \<open>net.Listen\<close> is a function of the
  addresses the process listens on already.
\<close>

record ('c, 'm) boot_env =
  mongo_NewClient :: "string \<Rightarrow> string + 'c"
  mongo_Connect :: "'c option \<Rightarrow> string option go"
  mongo_Ping :: "'c option \<Rightarrow> string option go"
  redis_NewClient :: "string \<Rightarrow> bool \<Rightarrow> string \<Rightarrow> int \<Rightarrow> string \<Rightarrow> string option go"
  first_load :: "'c option \<Rightarrow> 64 word \<Rightarrow> 'm process"
  open_stream :: "'c option \<Rightarrow> string option go"
  net_Listen :: "string list \<Rightarrow> string \<Rightarrow> string option"

record ('c, 'm) boot =
  bt_todo :: "stage list"
  bt_client :: "'c option"
  bt_app :: "'m option"
  bt_started :: "goroutine list"
  bt_serving :: "string list"

text \<open>\<open>fmt.Sprintf(":%d", port)\<close>.\<close>

definition port_addr :: "u64 \<Rightarrow> string" where
  "port_addr port = '':'' @ format_uint (unat port)"

text \<open>A call that panics, fails with an error the code turns into \<open>log.Fatal\<close>, or goes on.\<close>

definition or_fatal :: "string option go \<Rightarrow> (string \<Rightarrow> string) \<Rightarrow> 's \<Rightarrow> 's process" where
  "or_fatal r msg s = (case r of Inl p \<Rightarrow> Crashed p | Inr (Some err) \<Rightarrow> Exited (msg err) | Inr None \<Rightarrow> Running s)"

definition go_start :: "goroutine \<Rightarrow> ('c, 'm) boot \<Rightarrow> ('c, 'm) boot" where
  "go_start g s = s\<lparr>bt_started := bt_started s @ [g]\<rparr>"

text \<open>The error of \<open>mongo.NewClient\<close> is overwritten before it is examined; its client is then nil.\<close>

fun exec_stage :: "('c, 'm) boot_env \<Rightarrow> stage \<Rightarrow> ('c, 'm) boot \<Rightarrow> ('c, 'm) boot process" where
  "exec_stage env (MongoClient uri) s = Running (s\<lparr>bt_client := installed (mongo_NewClient env uri)\<rparr>)"
| "exec_stage env MongoConnect s =
     or_fatal (mongo_Connect env (bt_client s)) (\<lambda>err. ''Cannot connect to mongodb'') s"
| "exec_stage env MongoPing s = or_fatal (mongo_Ping env (bt_client s)) (\<lambda>err. err) s"
| "exec_stage env (RedisClient uri tls auth pool kind) s =
     or_fatal (redis_NewClient env uri tls auth pool kind) (\<lambda>err. ''Cannot connect to redis'') s"
| "exec_stage env (FirstLoad t) s =
     (case first_load env (bt_client s) t of
        Running m \<Rightarrow> Running (s\<lparr>bt_app := Some m\<rparr>)
      | Exited msg \<Rightarrow> Exited msg
      | Crashed p \<Rightarrow> Crashed p)"
| "exec_stage env StartUsers s = Running (go_start Users s)"
| "exec_stage env (StartServer addr) s = Running (go_start (GrpcServer addr) s)"
| "exec_stage env (StartHttp addr) s = Running (go_start (HttpServer addr) s)"
| "exec_stage env OpenStream s = or_fatal (open_stream env (bt_client s)) (\<lambda>err. err) s"

text \<open>
  \<open>RunServer\<close> and \<open>RunManagementServer\<close> end the process when they cannot listen; the error of
  \<open>r.Run\<close> is dropped and that of the gateway's \<open>ListenAndServe\<close> logged.  \<open>Serve\<close> then answers
  requests, and \<open>ctx.Done()\<close> of the background context is never ready.
\<close>

definition listening :: "string \<Rightarrow> ('c, 'm) boot \<Rightarrow> ('c, 'm) boot" where
  "listening addr s = s\<lparr>bt_serving := addr # bt_serving s\<rparr>"

fun run_goroutine :: "('c, 'm) boot_env \<Rightarrow> goroutine \<Rightarrow> ('c, 'm) boot \<Rightarrow> ('c, 'm) boot process" where
  "run_goroutine env Users s = Running s"
| "run_goroutine env (GrpcServer addr) s =
     or_fatal (Inr (net_Listen env (bt_serving s) addr)) (\<lambda>err. ''failed to listen'') (listening addr s)"
| "run_goroutine env (HttpServer addr) s =
     Running (case net_Listen env (bt_serving s) addr of Some err \<Rightarrow> s | None \<Rightarrow> listening addr s)"

inductive boot_step :: "('c, 'm) boot_env \<Rightarrow> ('c, 'm) boot \<Rightarrow> ('c, 'm) boot process \<Rightarrow> bool"
  for env :: "('c, 'm) boot_env" where
  next_stage: "bt_todo s = st # rest \<Longrightarrow> boot_step env s (exec_stage env st (s\<lparr>bt_todo := rest\<rparr>))"
| goroutine: "bt_started s = gs @ g # hs \<Longrightarrow>
    boot_step env s (run_goroutine env g (s\<lparr>bt_started := gs @ hs\<rparr>))"

definition boot_initial :: "stage list \<Rightarrow> ('c, 'm) boot" where
  "boot_initial prog =
     \<lparr>bt_todo = prog, bt_client = None, bt_app = None, bt_started = [], bt_serving = []\<rparr>"

inductive boot_reach :: "('c, 'm) boot_env \<Rightarrow> stage list \<Rightarrow> ('c, 'm) boot process \<Rightarrow> bool"
  for env :: "('c, 'm) boot_env" and prog :: "stage list" where
  start: "boot_reach env prog (Running (boot_initial prog))"
| step: "boot_reach env prog (Running s) \<Longrightarrow> boot_step env s p \<Longrightarrow> boot_reach env prog p"

inductive_cases boot_stepE: "boot_step env s p"

section \<open>The programs\<close>

definition rl_program :: "flag_set \<Rightarrow> stage list" where
  "rl_program fs =
     [MongoClient (string_var fs ''mongodb''), MongoConnect, MongoPing,
      RedisClient (string_var fs ''redis'') (bool_var fs ''redisTls'') (string_var fs ''redisAuth'')
        (sint (int_var fs ''redisPool'')) (string_var fs ''redisType''),
      FirstLoad (connect_timeout (int_var fs ''timeout'')),
      StartServer (port_addr (uint_var fs ''port'')),
      OpenStream,
      StartHttp (port_addr (uint_var fs ''healthCheckPort''))]"

definition az_program :: "flag_set \<Rightarrow> stage list" where
  "az_program fs =
     [MongoClient (string_var fs ''mongodb''), MongoConnect, MongoPing,
      FirstLoad (connect_timeout az_driverTimeout),
      StartServer (port_addr (uint_var fs ''port'')),
      OpenStream,
      StartHttp (port_addr (uint_var fs ''healthCheckPort''))]"

definition s3_program :: "flag_set \<Rightarrow> stage list" where
  "s3_program fs =
     [MongoClient (string_var fs ''mongodb''), MongoConnect, MongoPing,
      FirstLoad (connect_timeout (int_var fs ''timeout'')),
      StartUsers,
      StartServer (port_addr (uint_var fs ''port'')),
      OpenStream,
      StartHttp (port_addr (uint_var fs ''healthCheckPort''))]"

text \<open>The control plane starts its xDS server and gateway before it connects to the database.\<close>

definition cp_program :: "flag_set \<Rightarrow> stage list" where
  "cp_program fs =
     [StartServer (port_addr (uint_var fs ''port'')),
      StartHttp (port_addr (uint_var fs ''gateway'')),
      MongoClient (string_var fs ''mongodb''), MongoConnect, MongoPing,
      StartHttp '':8080'',
      FirstLoad (connect_timeout (int_var fs ''timeout'')),
      OpenStream]"

text \<open>\<open>drivers.NewClient\<close> as the rate-limit server calls it: the outcome its \<open>main\<close> examines.\<close>

definition redis_outcome ::
    "('conn, 'client, 'cmd, 'w) radix_env \<Rightarrow> 'w \<Rightarrow> string \<Rightarrow> bool \<Rightarrow> string \<Rightarrow> int \<Rightarrow> string \<Rightarrow> string option go" where
  "redis_outcome env w uri tls auth pool kind =
     bind_go (NewClient env uri tls auth pool kind w) (\<lambda>(r, w').
       Inr (case r of Inl err \<Rightarrow> Some err | Inr client \<Rightarrow> None))"

section \<open>The main goroutine\<close>

text \<open>
  The goroutines leave alone what \<open>main\<close> works on, so that its part of any interleaving is the
  sequential run of its stages.
\<close>

definition same_main :: "('c, 'm) boot \<Rightarrow> ('c, 'm) boot \<Rightarrow> bool" where
  "same_main s t \<longleftrightarrow> bt_client s = bt_client t \<and> bt_app s = bt_app t"

lemma same_main_refl [simp]: "same_main s s"
  by (simp add: same_main_def)

lemma or_fatal_rel: "R s t \<Longrightarrow> rel_process R (or_fatal r msg s) (or_fatal r msg t)"
  by (auto simp: or_fatal_def split: sum.splits option.splits)

lemma exec_stage_main: "same_main s t \<Longrightarrow> rel_process same_main (exec_stage env st s) (exec_stage env st t)"
  by (cases st)
    (auto simp: same_main_def go_start_def intro!: or_fatal_rel split: process.splits)

text \<open>What a stage starts, and the address a goroutine listens on.\<close>

fun starts :: "stage \<Rightarrow> goroutine list" where
  "starts StartUsers = [Users]"
| "starts (StartServer addr) = [GrpcServer addr]"
| "starts (StartHttp addr) = [HttpServer addr]"
| "starts st = []"

fun addr_of :: "goroutine \<Rightarrow> string option" where
  "addr_of Users = None"
| "addr_of (GrpcServer addr) = Some addr"
| "addr_of (HttpServer addr) = Some addr"

definition begun :: "stage list \<Rightarrow> goroutine set" where
  "begun sts = (\<Union>st \<in> set sts. set (starts st))"

lemma begun_append [simp]: "begun (xs @ ys) = begun xs \<union> begun ys"
  by (auto simp: begun_def)

lemma begun_simps [simp]: "begun [] = {}" "begun (st # sts) = set (starts st) \<union> begun sts"
  by (auto simp: begun_def)

lemma exec_stage_others:
  assumes "exec_stage env st s = Running s'"
  shows "bt_started s' = bt_started s @ starts st" "bt_serving s' = bt_serving s" "bt_todo s' = bt_todo s"
  using assms by (cases st; auto simp: or_fatal_def go_start_def split: sum.splits option.splits process.splits)+

text \<open>A goroutine that is not waiting any more serves its address, unless it could not listen on it.\<close>

definition settled_down :: "('c, 'm) boot_env \<Rightarrow> ('c, 'm) boot \<Rightarrow> goroutine \<Rightarrow> bool" where
  "settled_down env s g \<longleftrightarrow>
     (\<forall>addr. addr_of g = Some addr \<longrightarrow> addr \<in> set (bt_serving s) \<or> (\<exists>bound. addr \<notin> set bound \<and> net_Listen env bound addr \<noteq> None))"

text \<open>A running state has run a prefix of the program; only what that prefix started can serve.\<close>

definition boot_inv :: "('c, 'm) boot_env \<Rightarrow> stage list \<Rightarrow> stage list \<Rightarrow> ('c, 'm) boot \<Rightarrow> bool" where
  "boot_inv env prog past s \<longleftrightarrow>
     prog = past @ bt_todo s \<and>
     (\<exists>s'. run_loop (exec_stage env) past (boot_initial []) = Running s' \<and> same_main s s') \<and>
     set (bt_started s) \<subseteq> begun past \<and>
     begun past \<subseteq> set (bt_started s) \<union> {g. settled_down env s g} \<and>
     set (bt_serving s) \<subseteq> {addr. \<exists>g \<in> begun past. addr_of g = Some addr}"

text \<open>How a process that is starting can end.\<close>

definition boot_ended :: "('c, 'm) boot_env \<Rightarrow> stage list \<Rightarrow> ('c, 'm) boot process \<Rightarrow> bool" where
  "boot_ended env prog p \<longleftrightarrow>
     rel_process (\<lambda>_ _. False) p (run_loop (exec_stage env) prog (boot_initial [])) \<or>
     p = Exited ''failed to listen'' \<and>
       (\<exists>s addr. boot_reach env prog (Running s) \<and> GrpcServer addr \<in> set (bt_started s) \<and>
          net_Listen env (bt_serving s) addr \<noteq> None)"

lemma run_goroutine_cases:
  "(\<exists>s'. run_goroutine env g s = Running s' \<and> bt_todo s' = bt_todo s \<and> same_main s' s \<and>
      bt_started s' = bt_started s \<and>
      set (bt_serving s) \<subseteq> set (bt_serving s') \<and>
      set (bt_serving s') \<subseteq> set (bt_serving s) \<union> {addr. addr_of g = Some addr} \<and> settled_down env s' g) \<or>
   (\<exists>addr. g = GrpcServer addr \<and> net_Listen env (bt_serving s) addr \<noteq> None \<and>
      run_goroutine env g s = Exited ''failed to listen'')"
proof (cases g)
  case (GrpcServer addr)
  then show ?thesis
    by (cases "net_Listen env (bt_serving s) addr") (auto simp: or_fatal_def listening_def same_main_def settled_down_def)
next
  case (HttpServer addr)
  then show ?thesis
    by (cases "net_Listen env (bt_serving s) addr") (auto simp: listening_def same_main_def settled_down_def)
qed (simp add: settled_down_def)

lemma boot_inv_stage:
  assumes inv: "boot_inv env prog past s" and todo: "bt_todo s = st # rest"
  shows "(\<exists>s'. exec_stage env st (s\<lparr>bt_todo := rest\<rparr>) = Running s' \<and> boot_inv env prog (past @ [st]) s') \<or>
    boot_ended env prog (exec_stage env st (s\<lparr>bt_todo := rest\<rparr>))"
proof -
  from inv obtain t where t: "run_loop (exec_stage env) past (boot_initial []) = Running t" "same_main s t"
    by (auto simp: boot_inv_def)
  then have "same_main (s\<lparr>bt_todo := rest\<rparr>) t" by (simp add: same_main_def)
  from exec_stage_main [OF this, of env st]
  have rel: "rel_process same_main (exec_stage env st (s\<lparr>bt_todo := rest\<rparr>)) (exec_stage env st t)" .
  show ?thesis
  proof (cases "exec_stage env st (s\<lparr>bt_todo := rest\<rparr>)")
    case (Running s')
    with rel obtain t' where "exec_stage env st t = Running t'" "same_main s' t'"
      by (auto elim: process.rel_cases)
    moreover have "settled_down env s g \<Longrightarrow> settled_down env s' g" for g
      using exec_stage_others(2) [OF Running] by (simp add: settled_down_def)
    ultimately show ?thesis using inv todo t(1) exec_stage_others [OF Running] Running
      by (auto simp: boot_inv_def run_loop_append)
  next
    case (Exited msg)
    with rel t(1) inv todo show ?thesis
      by (auto simp: boot_ended_def boot_inv_def run_loop_append elim: process.rel_cases)
  next
    case (Crashed p)
    with rel t(1) inv todo show ?thesis
      by (auto simp: boot_ended_def boot_inv_def run_loop_append elim: process.rel_cases)
  qed
qed

lemma boot_inv_goroutine:
  assumes reach: "boot_reach env prog (Running s)" and inv: "boot_inv env prog past s"
    and g: "bt_started s = gs @ g # hs"
  shows "(\<exists>s'. run_goroutine env g (s\<lparr>bt_started := gs @ hs\<rparr>) = Running s' \<and> boot_inv env prog past s') \<or>
    boot_ended env prog (run_goroutine env g (s\<lparr>bt_started := gs @ hs\<rparr>))"
proof -
  let ?s = "s\<lparr>bt_started := gs @ hs\<rparr>"
  have g_past: "g \<in> begun past" using inv g by (auto simp: boot_inv_def)
  from run_goroutine_cases [of env g ?s] show ?thesis
  proof (elim disjE exE conjE)
    fix s' assume "run_goroutine env g ?s = Running s'" "bt_todo s' = bt_todo ?s" "same_main s' ?s"
      "bt_started s' = bt_started ?s" "set (bt_serving ?s) \<subseteq> set (bt_serving s')"
      "set (bt_serving s') \<subseteq> set (bt_serving ?s) \<union> {addr. addr_of g = Some addr}" "settled_down env s' g"
    moreover from this have "settled_down env s h \<Longrightarrow> settled_down env s' h" for h by (auto simp: settled_down_def)
    ultimately show ?thesis using inv g g_past by (auto simp: boot_inv_def same_main_def)
  next
    fix addr assume "g = GrpcServer addr" "net_Listen env (bt_serving ?s) addr \<noteq> None"
      "run_goroutine env g ?s = Exited ''failed to listen''"
    moreover from this g have "GrpcServer addr \<in> set (bt_started s)" by simp
    ultimately show ?thesis using reach unfolding boot_ended_def by auto
  qed
qed

lemma boot_reach_inv:
  "boot_reach env prog p \<Longrightarrow> (\<exists>s past. p = Running s \<and> boot_inv env prog past s) \<or> boot_ended env prog p"
proof (induction rule: boot_reach.induct)
  case start
  then show ?case
    by (auto simp: boot_inv_def boot_initial_def same_main_def intro!: exI [of _ "[]"])
next
  case (step s p)
  then consider past where "boot_inv env prog past s" | "boot_ended env prog (Running s)" by auto
  then show ?case
  proof cases
    case 1
    from step.hyps(2) show ?thesis
    proof cases
      case (next_stage st rest)
      with boot_inv_stage [OF 1 next_stage(2)] show ?thesis by auto
    next
      case (goroutine gs g hs)
      with boot_inv_goroutine [OF step.hyps(1) 1 goroutine(2)] show ?thesis by auto
    qed
  qed (auto simp: boot_ended_def elim: process.rel_cases)
qed

section \<open>When a program comes up\<close>

text \<open>The call of a stage succeeds, given the client \<open>mongo.NewClient\<close> left behind.\<close>

fun stage_ok :: "('c, 'm) boot_env \<Rightarrow> 'c option \<Rightarrow> stage \<Rightarrow> bool" where
  "stage_ok env client MongoConnect \<longleftrightarrow> mongo_Connect env client = Inr None"
| "stage_ok env client MongoPing \<longleftrightarrow> mongo_Ping env client = Inr None"
| "stage_ok env client (RedisClient uri tls auth pool kind) \<longleftrightarrow>
     redis_NewClient env uri tls auth pool kind = Inr None"
| "stage_ok env client (FirstLoad t) \<longleftrightarrow> (\<exists>m. first_load env client t = Running m)"
| "stage_ok env client OpenStream \<longleftrightarrow> open_stream env client = Inr None"
| "stage_ok env client st \<longleftrightarrow> True"

fun starts_only :: "stage \<Rightarrow> bool" where
  "starts_only StartUsers = True"
| "starts_only (StartServer addr) = True"
| "starts_only (StartHttp addr) = True"
| "starts_only _ = False"

fun sets_client :: "stage \<Rightarrow> bool" where
  "sets_client (MongoClient uri) = True"
| "sets_client _ = False"

lemma or_fatal_Running [simp]: "or_fatal r msg s = Running t \<longleftrightarrow> r = Inr None \<and> t = s"
  by (auto simp: or_fatal_def split: sum.splits option.splits)

lemma exec_stage_ok:
  "\<not> sets_client st \<Longrightarrow> (\<exists>s'. exec_stage env st s = Running s') \<longleftrightarrow> stage_ok env (bt_client s) st"
  by (cases st) (auto split: process.splits)

lemma exec_stage_client:
  "\<not> sets_client st \<Longrightarrow> exec_stage env st s = Running s' \<Longrightarrow> bt_client s' = bt_client s"
  by (cases st) (auto simp: go_start_def split: process.splits)

lemma exec_stages_ok:
  "\<forall>st \<in> set sts. \<not> sets_client st \<Longrightarrow>
     (\<exists>s'. run_loop (exec_stage env) sts s = Running s') \<longleftrightarrow> (\<forall>st \<in> set sts. stage_ok env (bt_client s) st)"
proof (induction sts arbitrary: s)
  case (Cons st sts)
  show ?case
  proof (cases "exec_stage env st s")
    case (Running s')
    with Cons.prems exec_stage_client [of st env s s'] exec_stage_ok [of st env s] show ?thesis
      by (auto simp: Cons.IH)
  qed (use Cons.prems exec_stage_ok [of st env s] in auto)
qed simp

lemma starts_only_run:
  "\<forall>st \<in> set sts. starts_only st \<Longrightarrow> \<exists>s'. run_loop (exec_stage env) sts s = Running s' \<and> same_main s' s"
proof (induction sts arbitrary: s)
  case (Cons st sts)
  then obtain s1 where "exec_stage env st s = Running s1" "same_main s1 s"
    by (cases st) (auto simp: go_start_def same_main_def)
  with Cons.IH [of s1] Cons.prems show ?case by (auto simp: same_main_def)
qed simp

text \<open>A program that makes its client once, after stages that only start goroutines.\<close>

definition one_client :: "stage list \<Rightarrow> string \<Rightarrow> bool" where
  "one_client prog uri \<longleftrightarrow> (\<exists>pre post. prog = pre @ MongoClient uri # post \<and>
     (\<forall>st \<in> set pre. starts_only st) \<and> (\<forall>st \<in> set post. \<not> sets_client st))"

lemma main_run_ok:
  assumes "one_client prog uri"
  shows "(\<exists>s. run_loop (exec_stage env) prog (boot_initial []) = Running s) \<longleftrightarrow>
    (\<forall>st \<in> set prog. stage_ok env (installed (mongo_NewClient env uri)) st)"
proof -
  from assms obtain pre post where prog: "prog = pre @ MongoClient uri # post"
    "\<forall>st \<in> set pre. starts_only st" "\<forall>st \<in> set post. \<not> sets_client st"
    by (auto simp: one_client_def)
  from starts_only_run [OF prog(2), of env "boot_initial []"] obtain s
    where "run_loop (exec_stage env) pre (boot_initial []) = Running s" by auto
  moreover have "\<forall>st \<in> set pre. stage_ok env c st" for c :: "'a option"
  proof
    fix st assume "st \<in> set pre"
    with prog(2) show "stage_ok env c st" by (cases st) auto
  qed
  ultimately show ?thesis
    using exec_stages_ok [OF prog(3), of env "s\<lparr>bt_client := installed (mongo_NewClient env uri)\<rparr>"]
    by (auto simp: prog(1) run_loop_append)
qed

lemma programs_one_client:
  "prog \<in> {rl_program fs, az_program fs, s3_program fs, cp_program fs} \<Longrightarrow>
     one_client prog (string_var fs ''mongodb'')"
proof -
  let ?uri = "string_var fs ''mongodb''"
  have "one_client (MongoClient ?uri # post) ?uri" if "\<forall>st \<in> set post. \<not> sets_client st" for post
    unfolding one_client_def using that by (intro exI [of _ "[]"] exI [of _ post]) simp
  moreover have "one_client (StartServer a # StartHttp b # MongoClient ?uri # post) ?uri"
    if "\<forall>st \<in> set post. \<not> sets_client st" for a b post
    unfolding one_client_def using that by (intro exI [of _ "[StartServer a, StartHttp b]"] exI [of _ post]) simp
  moreover assume "prog \<in> {rl_program fs, az_program fs, s3_program fs, cp_program fs}"
  ultimately show ?thesis
    by (auto simp: rl_program_def az_program_def s3_program_def cp_program_def)
qed

text \<open>The main goroutine alone can take every stage in turn.\<close>

lemma main_alone:
  assumes "boot_reach env prog (Running s)" and "same_main s t" and "bt_todo s = sts"
  shows "\<exists>p. boot_reach env prog p \<and>
    rel_process (\<lambda>s' t'. same_main s' t' \<and> bt_todo s' = []) p (run_loop (exec_stage env) sts t)"
  using assms
proof (induction sts arbitrary: s t)
  case Nil
  then show ?case by (intro exI [of _ "Running s"]) simp
next
  case (Cons st sts)
  let ?p = "exec_stage env st (s\<lparr>bt_todo := sts\<rparr>)"
  from Cons.prems have reach: "boot_reach env prog ?p"
    by (blast intro: boot_reach.step boot_step.next_stage)
  from Cons.prems(2) have "same_main (s\<lparr>bt_todo := sts\<rparr>) t" by (simp add: same_main_def)
  from exec_stage_main [OF this] have rel: "rel_process same_main ?p (exec_stage env st t)" .
  show ?case
  proof (cases ?p)
    case (Running s1)
    with rel obtain t1 where "exec_stage env st t = Running t1" "same_main s1 t1"
      by (auto elim: process.rel_cases)
    with Cons.IH [of s1 t1] reach Running exec_stage_others(3) [OF Running] show ?thesis by auto
  next
    case (Exited msg)
    with rel reach show ?thesis by (intro exI [of _ "Exited msg"]) (auto elim: process.rel_cases)
  next
    case (Crashed e)
    with rel reach show ?thesis by (intro exI [of _ "Crashed e"]) (auto elim: process.rel_cases)
  qed
qed

lemma boot_end_reachable:
  "\<exists>p. boot_reach env prog p \<and>
    rel_process (\<lambda>s' t'. bt_todo s' = []) p (run_loop (exec_stage env) prog (boot_initial []))"
proof -
  have "same_main (boot_initial prog) (boot_initial [])" by (simp add: same_main_def boot_initial_def)
  from main_alone [OF boot_reach.start this, of prog env] obtain p where "boot_reach env prog p"
    "rel_process (\<lambda>s' t'. same_main s' t' \<and> bt_todo s' = []) p (run_loop (exec_stage env) prog (boot_initial []))"
    by (auto simp: boot_initial_def)
  then show ?thesis by (blast intro: process.rel_mono_strong)
qed

text \<open>Every step uses up a stage or a goroutine.\<close>

lemma boot_step_shorter:
  assumes "boot_step env s (Running s')"
  shows "2 * length (bt_todo s') + length (bt_started s') < 2 * length (bt_todo s) + length (bt_started s)"
  using assms
proof cases
  case (next_stage st rest)
  have "length (starts st) \<le> 1" by (cases st) auto
  with next_stage exec_stage_others [of env st "s\<lparr>bt_todo := rest\<rparr>" s'] show ?thesis by simp
next
  case (goroutine gs g hs)
  with run_goroutine_cases [of env g "s\<lparr>bt_started := gs @ hs\<rparr>"] show ?thesis by auto
qed

section \<open>The first load comes before the first answer\<close>

fun is_load :: "stage \<Rightarrow> bool" where
  "is_load (FirstLoad t) = True"
| "is_load _ = False"

definition load_first :: "stage list \<Rightarrow> string \<Rightarrow> 64 word \<Rightarrow> bool" where
  "load_first prog uri t \<longleftrightarrow> (\<exists>pre post. prog = MongoClient uri # pre @ FirstLoad t # post \<and>
     (\<forall>st \<in> set pre. \<not> sets_client st \<and> starts st = []) \<and>
     (\<forall>st \<in> set post. \<not> sets_client st \<and> \<not> is_load st))"

lemma stages_keep_client:
  "run_loop (exec_stage env) sts s = Running s' \<Longrightarrow> \<forall>st \<in> set sts. \<not> sets_client st \<Longrightarrow>
     bt_client s' = bt_client s"
proof (induction sts arbitrary: s)
  case (Cons st sts)
  then obtain s1 where "exec_stage env st s = Running s1" "run_loop (exec_stage env) sts s1 = Running s'"
    by (auto split: process.splits)
  with Cons.IH [of s1] Cons.prems(2) exec_stage_client [of st env s s1] show ?case by simp
qed simp

lemma exec_stage_app: "\<not> is_load st \<Longrightarrow> exec_stage env st s = Running s' \<Longrightarrow> bt_app s' = bt_app s"
  by (cases st) (auto simp: go_start_def split: process.splits)

lemma stages_keep_app:
  "run_loop (exec_stage env) sts s = Running s' \<Longrightarrow> \<forall>st \<in> set sts. \<not> is_load st \<Longrightarrow> bt_app s' = bt_app s"
proof (induction sts arbitrary: s)
  case (Cons st sts)
  then obtain s1 where "exec_stage env st s = Running s1" "run_loop (exec_stage env) sts s1 = Running s'"
    by (auto split: process.splits)
  with Cons.IH [of s1] Cons.prems(2) exec_stage_app [of st env s s1] show ?case by simp
qed simp

lemma load_first_app:
  assumes prog: "prog = MongoClient uri # pre @ FirstLoad t # post"
    and pre: "\<forall>st \<in> set pre. \<not> sets_client st \<and> starts st = []"
    and run: "run_loop (exec_stage env) (MongoClient uri # pre @ FirstLoad t # post1) s = Running s'"
    and post: "\<forall>st \<in> set post1. \<not> is_load st"
  shows "\<exists>m. first_load env (installed (mongo_NewClient env uri)) t = Running m \<and> bt_app s' = Some m"
proof -
  from run obtain s1 where s1: "run_loop (exec_stage env) pre (s\<lparr>bt_client := installed (mongo_NewClient env uri)\<rparr>) = Running s1"
    "run_loop (exec_stage env) (FirstLoad t # post1) s1 = Running s'"
    by (auto simp: run_loop_append simp del: run_loop.simps(2) [of _ "FirstLoad t"] split: process.splits)
  from stages_keep_client [OF s1(1)] pre have "bt_client s1 = installed (mongo_NewClient env uri)" by simp
  with s1(2) obtain m where "first_load env (installed (mongo_NewClient env uri)) t = Running m"
    "run_loop (exec_stage env) post1 (s1\<lparr>bt_app := Some m\<rparr>) = Running s'"
    by (auto split: process.splits)
  with stages_keep_app [of env post1] post show ?thesis by fastforce
qed

lemma serving_after_load:
  assumes "load_first prog uri t" and reach: "boot_reach env prog (Running s)"
    and serving: "bt_serving s \<noteq> [] \<or> bt_todo s = []"
  shows "\<exists>m. first_load env (installed (mongo_NewClient env uri)) t = Running m \<and> bt_app s = Some m"
proof -
  from assms(1) obtain pre post where prog: "prog = MongoClient uri # pre @ FirstLoad t # post"
    and pre: "\<forall>st \<in> set pre. \<not> sets_client st \<and> starts st = []"
    and post: "\<forall>st \<in> set post. \<not> sets_client st \<and> \<not> is_load st"
    unfolding load_first_def by blast
  from boot_reach_inv [OF reach] obtain past where inv: "boot_inv env prog past s"
    by (auto simp: boot_ended_def elim: process.rel_cases)
  let ?first = "MongoClient uri # pre @ [FirstLoad t]"
  have split: "past @ bt_todo s = ?first @ post" using inv prog by (simp add: boot_inv_def)
  have quiet: "begun ?first = {}" using pre by (auto simp: begun_def)
  have "\<exists>post1. past = ?first @ post1 \<and> post = post1 @ bt_todo s"
  proof (rule ccontr)
    assume no: "\<not> ?thesis"
    from split obtain us where us: "past = ?first @ us \<and> us @ bt_todo s = post \<or> past @ us = ?first \<and> bt_todo s = us @ post"
      unfolding append_eq_append_conv2 by blast
    with no have "past @ us = ?first" "bt_todo s = us @ post" "us \<noteq> []" by auto
    moreover from \<open>past @ us = ?first\<close> have "begun past \<subseteq> begun ?first" by (metis begun_append Un_upper1)
    ultimately have "begun past = {}" "bt_todo s \<noteq> []" using quiet by auto
    with inv serving show False by (auto simp: boot_inv_def)
  qed
  then obtain post1 where past: "past = ?first @ post1" "post = post1 @ bt_todo s" by blast
  from inv obtain s' where "run_loop (exec_stage env) past (boot_initial []) = Running s'" "same_main s s'"
    by (auto simp: boot_inv_def)
  with load_first_app [OF prog pre, of env post1 "boot_initial []" s'] past post show ?thesis
    by (simp add: same_main_def)
qed

lemma servers_load_first:
  "load_first (rl_program fs) (string_var fs ''mongodb'') (connect_timeout (int_var fs ''timeout''))"
  "load_first (az_program fs) (string_var fs ''mongodb'') (connect_timeout az_driverTimeout)"
  "load_first (s3_program fs) (string_var fs ''mongodb'') (connect_timeout (int_var fs ''timeout''))"
proof -
  let ?uri = "string_var fs ''mongodb''"
  have "load_first (MongoClient ?uri # pre @ FirstLoad t # post) ?uri t"
    if "\<forall>st \<in> set pre. \<not> sets_client st \<and> starts st = []" "\<forall>st \<in> set post. \<not> sets_client st \<and> \<not> is_load st"
    for pre post t unfolding load_first_def using that by blast
  note shape = this [of "[_, _, _]"] this [of "[_, _]"]
  show "load_first (rl_program fs) ?uri (connect_timeout (int_var fs ''timeout''))"
    "load_first (az_program fs) ?uri (connect_timeout az_driverTimeout)"
    "load_first (s3_program fs) ?uri (connect_timeout (int_var fs ''timeout''))"
    unfolding rl_program_def az_program_def s3_program_def
    by (rule shape(1) [simplified append_Cons append_Nil] shape(2) [simplified append_Cons append_Nil]; simp)+
qed

section \<open>Listening\<close>

fun addrs :: "goroutine list \<Rightarrow> string list" where
  "addrs [] = []"
| "addrs (g # gs) = (case addr_of g of None \<Rightarrow> addrs gs | Some addr \<Rightarrow> addr # addrs gs)"

definition prog_addrs :: "stage list \<Rightarrow> string list" where
  "prog_addrs sts = addrs (concat (map starts sts))"

lemma addrs_append [simp]: "addrs (gs @ hs) = addrs gs @ addrs hs"
  by (induction gs) (auto split: option.splits)

lemma prog_addrs_Cons [simp]: "prog_addrs (st # sts) = addrs (starts st) @ prog_addrs sts"
  by (simp add: prog_addrs_def)

lemma addrs_mem: "addr \<in> set (addrs gs) \<longleftrightarrow> (\<exists>g \<in> set gs. addr_of g = Some addr)"
  by (induction gs) (auto split: option.splits)

lemma prog_addrs_begun: "addr \<in> set (prog_addrs sts) \<longleftrightarrow> (\<exists>g \<in> begun sts. addr_of g = Some addr)"
  by (auto simp: prog_addrs_def addrs_mem begun_def)

text \<open>The addresses served, waited for and still to come are different ones.\<close>

lemma boot_addrs_distinct:
  assumes "boot_reach env prog p" and "distinct (prog_addrs prog)" and "p = Running s"
  shows "distinct (bt_serving s @ addrs (bt_started s) @ prog_addrs (bt_todo s))"
  using assms
proof (induction arbitrary: s rule: boot_reach.induct)
  case start
  then show ?case by (auto simp: boot_initial_def)
next
  case (step s0 p)
  from step.IH [OF step.prems(1) refl] have old:
    "distinct (bt_serving s0 @ addrs (bt_started s0) @ prog_addrs (bt_todo s0))" .
  from step.hyps(2) show ?case
  proof cases
    case (next_stage st rest)
    with step.prems(2) old exec_stage_others [of env st "s0\<lparr>bt_todo := rest\<rparr>" s] show ?thesis by auto
  next
    case (goroutine gs g hs)
    with step.prems(2) have run: "run_goroutine env g (s0\<lparr>bt_started := gs @ hs\<rparr>) = Running s" by simp
    then have "bt_todo s = bt_todo s0 \<and> bt_started s = gs @ hs \<and>
        (bt_serving s = bt_serving s0 \<or> (\<exists>addr. addr_of g = Some addr \<and> bt_serving s = addr # bt_serving s0))"
      by (cases g) (auto simp: listening_def split: option.splits)
    with old goroutine(2) show ?thesis by (auto split: option.splits)
  qed
qed

lemma loads_app:
  "run_loop (exec_stage env) sts s = Running s' \<Longrightarrow> bt_app s \<noteq> None \<or> (\<exists>st \<in> set sts. is_load st) \<Longrightarrow>
     bt_app s' \<noteq> None"
proof (induction sts arbitrary: s)
  case (Cons st sts)
  then obtain s1 where s1: "exec_stage env st s = Running s1" "run_loop (exec_stage env) sts s1 = Running s'"
    by (auto split: process.splits)
  have "bt_app s1 \<noteq> None \<or> (\<exists>st \<in> set sts. is_load st)"
  proof (cases "is_load st")
    case True
    with s1(1) show ?thesis by (cases st) (auto split: process.splits)
  next
    case False
    with Cons.prems(2) exec_stage_app [OF False s1(1)] show ?thesis by auto
  qed
  with Cons.IH s1(2) show ?case by blast
qed simp

section \<open>Coming up and failing\<close>

text \<open>What is left to be done: at most two steps for each stage.\<close>

definition boot_weight :: "('c, 'm) boot \<Rightarrow> nat" where
  "boot_weight s = 2 * length (bt_todo s) + length (bt_started s)"

lemma boot_step_exists:
  assumes "\<And>p. \<not> boot_step env s p"
  shows "bt_todo s = []" "bt_started s = []"
proof -
  show "bt_todo s = []"
    using assms boot_step.next_stage [of s _ _ env] by (cases "bt_todo s") auto
  show "bt_started s = []"
    using assms boot_step.goroutine [of s "[]" _ _ env] by (cases "bt_started s") auto
qed

text \<open>The four programs over calls that succeed, with different addresses that can be listened on.\<close>

definition boot_fine :: "('c, 'm) boot_env \<Rightarrow> stage list \<Rightarrow> flag_set \<Rightarrow> bool" where
  "boot_fine env prog fs \<longleftrightarrow>
     prog \<in> {rl_program fs, az_program fs, s3_program fs, cp_program fs} \<and>
     (\<forall>st \<in> set prog. stage_ok env (installed (mongo_NewClient env (string_var fs ''mongodb''))) st) \<and>
     distinct (prog_addrs prog) \<and>
     (\<forall>bound addr. addr \<notin> set bound \<longrightarrow> net_Listen env bound addr = None)"

lemma boot_fine_run:
  assumes "boot_fine env prog fs"
  obtains e where "run_loop (exec_stage env) prog (boot_initial []) = Running e"
proof -
  from assms have mem: "prog \<in> {rl_program fs, az_program fs, s3_program fs, cp_program fs}"
    and ok: "\<forall>st \<in> set prog. stage_ok env (installed (mongo_NewClient env (string_var fs ''mongodb''))) st"
    unfolding boot_fine_def by blast+
  from main_run_ok [OF programs_one_client [OF mem], of env] ok that show ?thesis by blast
qed

lemma boot_fine_alive:
  assumes "boot_fine env prog fs" and q: "boot_reach env prog q"
  shows "\<exists>s past. q = Running s \<and> boot_inv env prog past s"
proof -
  from assms(1) have dist: "distinct (prog_addrs prog)"
    and listens: "\<forall>bound addr. addr \<notin> set bound \<longrightarrow> net_Listen env bound addr = None"
    unfolding boot_fine_def by blast+
  obtain e where e: "run_loop (exec_stage env) prog (boot_initial []) = Running e"
    using boot_fine_run [OF assms(1)] .
  have "\<not> boot_ended env prog q"
  proof
    assume "boot_ended env prog q"
    with e obtain s addr where s: "boot_reach env prog (Running s)" "GrpcServer addr \<in> set (bt_started s)"
      "net_Listen env (bt_serving s) addr \<noteq> None" by (auto simp: boot_ended_def elim: process.rel_cases)
    from s(2) have "addr \<in> set (addrs (bt_started s))" by (force simp: addrs_mem)
    with boot_addrs_distinct [OF s(1) dist refl] have "addr \<notin> set (bt_serving s)" by auto
    with s(3) listens show False by auto
  qed
  with boot_reach_inv [OF q] show ?thesis by blast
qed

lemma boot_fine_step:
  assumes "boot_fine env prog fs" and "boot_reach env prog (Running s)" and q: "boot_step env s q"
  shows "\<exists>s'. q = Running s' \<and> boot_weight s' < boot_weight s"
proof -
  from boot_fine_alive [OF assms(1) boot_reach.step [OF assms(2) q]] obtain s' where "q = Running s'" by blast
  with q boot_step_shorter [of env s s'] show ?thesis by (auto simp: boot_weight_def)
qed

lemma boot_fine_final:
  assumes fine: "boot_fine env prog fs" and reach: "boot_reach env prog (Running s)"
    and final: "\<And>q. \<not> boot_step env s q"
  shows "bt_todo s = []" "bt_app s \<noteq> None" "set (bt_serving s) = set (prog_addrs prog)"
proof -
  from fine have mem: "prog \<in> {rl_program fs, az_program fs, s3_program fs, cp_program fs}"
    and listens: "\<forall>bound addr. addr \<notin> set bound \<longrightarrow> net_Listen env bound addr = None"
    unfolding boot_fine_def by blast+
  from boot_fine_alive [OF fine reach] obtain past where inv: "boot_inv env prog past s" by blast
  have finished: "bt_todo s = []" "bt_started s = []" using boot_step_exists final by blast+
  with inv have past: "past = prog" by (simp add: boot_inv_def)
  obtain e where e: "run_loop (exec_stage env) prog (boot_initial []) = Running e"
    using boot_fine_run [OF fine] .
  have "\<exists>st \<in> set prog. is_load st"
    using mem by (auto simp: rl_program_def az_program_def s3_program_def cp_program_def)
  with loads_app [OF e] inv past e show "bt_app s \<noteq> None" by (auto simp: boot_inv_def same_main_def)
  have "settled_down env s g \<longleftrightarrow> (\<forall>addr. addr_of g = Some addr \<longrightarrow> addr \<in> set (bt_serving s))" for g
    using listens unfolding settled_down_def by metis
  with inv past finished show "set (bt_serving s) = set (prog_addrs prog)"
    by (auto simp: boot_inv_def prog_addrs_begun subset_iff)
  show "bt_todo s = []" by fact
qed

lemma boot_fine_finishes:
  assumes fine: "boot_fine env prog fs" and "boot_reach env prog (Running s)"
  shows "\<exists>s'. boot_reach env prog (Running s') \<and> (\<forall>q. \<not> boot_step env s' q)"
  using assms(2)
proof (induction "boot_weight s" arbitrary: s rule: less_induct)
  case less
  show ?case
  proof (cases "\<exists>q. boot_step env s q")
    case True
    then obtain q where q: "boot_step env s q" ..
    from boot_fine_step [OF fine less.prems q] obtain s' where "q = Running s'" "boot_weight s' < boot_weight s"
      by blast
    with less.hyps boot_reach.step [OF less.prems q] show ?thesis by blast
  qed (use less.prems in blast)
qed


text \<open>Calls that all succeed, on an operating system that lets an address be used once.\<close>

definition once_listen :: "string list \<Rightarrow> string \<Rightarrow> string option" where
  "once_listen bound addr = (if addr \<in> set bound then Some ''address already in use'' else None)"

definition good_boot :: "(unit option \<Rightarrow> 64 word \<Rightarrow> 'm process) \<Rightarrow> (unit, 'm) boot_env" where
  "good_boot load = \<lparr>mongo_NewClient = \<lambda>uri. Inr (), mongo_Connect = \<lambda>c. Inr None, mongo_Ping = \<lambda>c. Inr None,
     redis_NewClient = \<lambda>uri tls auth pool kind. Inr None, first_load = load,
     open_stream = \<lambda>c. Inr None, net_Listen = once_listen\<rparr>"

lemma good_boot_ok:
  assumes "\<And>t. \<exists>m. load (Some ()) t = Running m"
  shows "stage_ok (good_boot load) (Some ()) st"
  using assms by (cases st) (simp_all add: good_boot_def)

lemma good_boot_fine:
  assumes "prog \<in> {rl_program fs, az_program fs, s3_program fs, cp_program fs}"
    and "distinct (prog_addrs prog)" and "\<And>t. \<exists>m. load (Some ()) t = Running m"
  shows "boot_fine (good_boot load) prog fs"
  unfolding boot_fine_def
proof (intro conjI ballI allI impI)
  have "installed (mongo_NewClient (good_boot load) uri) = Some ()" for uri
    by (simp add: good_boot_def installed_def)
  then show "stage_ok (good_boot load) (installed (mongo_NewClient (good_boot load) (string_var fs ''mongodb''))) st" for st
    using good_boot_ok [where load = load, OF assms(3), of st] by simp
  show "net_Listen (good_boot load) bound addr = None" if "addr \<notin> set bound" for bound addr
    using that by (simp add: good_boot_def once_listen_def)
qed (fact assms)+

lemma good_boot_serves:
  assumes "prog \<in> {rl_program fs, az_program fs, s3_program fs, cp_program fs}"
    and "distinct (prog_addrs prog)" and "\<And>t. \<exists>m. load (Some ()) t = Running m"
  obtains s where "boot_reach (good_boot load) prog (Running s)" "bt_todo s = []" "bt_app s \<noteq> None"
    "set (bt_serving s) = set (prog_addrs prog)"
proof -
  from good_boot_fine [of _ _ load, OF assms(1,2)] assms(3) have fine: "boot_fine (good_boot load) prog fs" by blast
  from boot_fine_finishes [OF fine boot_reach.start] boot_fine_final [OF fine] that show ?thesis by blast
qed

lemma cp_default_ports: "uint_var cp_flags ''port'' = 18000" "uint_var cp_flags ''gateway'' = 18001"
  by (simp_all add: uint_var_def cp_flags_def)

lemma cp_default_addrs: "distinct (prog_addrs (cp_program cp_flags))"
proof -
  have "port_addr 18000 = '':18000''" "port_addr 18001 = '':18001''"
    by (simp_all add: port_addr_def format_uint.simps digit_char_def char_of_def bit_0)
  then show ?thesis unfolding cp_program_def by (simp add: prog_addrs_def cp_default_ports)
qed


section \<open>Failing\<close>

lemma client_stages:
  assumes "prog \<in> {rl_program fs, az_program fs, s3_program fs, cp_program fs}"
  obtains pre post where "prog = (pre @ [MongoClient (string_var fs ''mongodb''), MongoConnect]) @ MongoPing # post"
    and "\<forall>st \<in> set pre. starts_only st"
proof -
  let ?cl = "[MongoClient (string_var fs ''mongodb''), MongoConnect]"
    and ?serve = "[StartServer (port_addr (uint_var fs ''port'')), StartHttp (port_addr (uint_var fs ''gateway''))]"
  from assms have "\<exists>post. prog = ?cl @ MongoPing # post \<or> prog = (?serve @ ?cl) @ MongoPing # post"
    by (auto simp: rl_program_def az_program_def s3_program_def cp_program_def)
  then obtain post where "prog = ([] @ ?cl) @ MongoPing # post \<or> prog = (?serve @ ?cl) @ MongoPing # post"
    unfolding append_Nil by blast
  then show ?thesis using that [of "[]" post] that [of ?serve post] by auto
qed

text \<open>A database address that \<open>mongo.NewClient\<close> refuses, on a library whose \<open>Connect\<close> does not
  accept a nil client, never ends in the message meant for it: no run of any of the programs
  gets past the connection, and the process can only end by the panic or for a port that
  cannot be listened on.\<close>

theorem bad_uri_panics:
  assumes "prog \<in> {rl_program fs, az_program fs, s3_program fs, cp_program fs}"
    and "mongo_NewClient env (string_var fs ''mongodb'') = Inl err"
    and "mongo_Connect env None = Inl NilDereference"
  shows "boot_reach env prog (Crashed NilDereference) \<and>
    (\<forall>p. boot_reach env prog p \<longrightarrow> p \<in> {Crashed NilDereference, Exited ''failed to listen''} \<or>
       (\<exists>s. p = Running s \<and> MongoPing \<in> set (bt_todo s)))"
proof -
  obtain pre post where prog: "prog = (pre @ [MongoClient (string_var fs ''mongodb''), MongoConnect]) @ MongoPing # post"
    and pre: "\<forall>st \<in> set pre. starts_only st"
    using client_stages [OF assms(1)] .
  have dead: "run_loop (exec_stage env) (pre @ [MongoClient (string_var fs ''mongodb''), MongoConnect] @ sts)
      (boot_initial []) = Crashed NilDereference" for sts
    using starts_only_run [OF pre, of env "boot_initial []"] assms(2,3)
    by (auto simp: run_loop_append installed_def or_fatal_def)
  have run: "run_loop (exec_stage env) prog (boot_initial []) = Crashed NilDereference"
    using dead [of "MongoPing # post"] by (simp add: prog)
  show ?thesis
  proof (intro conjI allI impI)
    from boot_end_reachable [of env prog] run show "boot_reach env prog (Crashed NilDereference)"
      by (auto elim: process.rel_cases)
  next
    fix p assume "boot_reach env prog p"
    from boot_reach_inv [OF this] consider s past where "p = Running s" "boot_inv env prog past s"
      | "boot_ended env prog p" by blast
    then show "p \<in> {Crashed NilDereference, Exited ''failed to listen''} \<or>
        (\<exists>s. p = Running s \<and> MongoPing \<in> set (bt_todo s))"
    proof cases
      case 1
      let ?first = "pre @ [MongoClient (string_var fs ''mongodb''), MongoConnect]"
      from 1(2) obtain s' where alive: "run_loop (exec_stage env) past (boot_initial []) = Running s'"
        and split: "past @ bt_todo s = ?first @ MongoPing # post"
        by (auto simp: boot_inv_def prog)
      have "past \<noteq> ?first @ us" for us using alive dead [of us] by auto
      with split have "MongoPing \<in> set (bt_todo s)" by (auto simp: append_eq_append_conv2 append_eq_Cons_conv)
      with 1(1) show ?thesis by blast
    next
      case 2
      with run show ?thesis by (auto simp: boot_ended_def elim: process.rel_cases)
    qed
  qed
qed

text \<open>A driver that refuses every address.\<close>

definition bad_uri_boot :: "(unit, nat) boot_env" where
  "bad_uri_boot = (good_boot (\<lambda>c t. Running 0))\<lparr>mongo_NewClient := \<lambda>uri. Inl ''error parsing uri'',
     mongo_Connect := \<lambda>c. case c of None \<Rightarrow> Inl NilDereference | Some _ \<Rightarrow> Inr None\<rparr>"

theorem bad_uri_panics_witness: "boot_reach bad_uri_boot (az_program az_flags) (Crashed NilDereference)"
  using bad_uri_panics [of "az_program az_flags" az_flags bad_uri_boot "''error parsing uri''"]
  by (simp add: bad_uri_boot_def)

section \<open>What the servers answer from\<close>

text \<open>C18: the rate-limit server never answers before its limits are loaded: whatever the order of its
  goroutines, once any of its endpoints is served the service's configuration is the one built
  from the documents the first query found.\<close>

theorem rl_answers_from_loaded:
  assumes "first_load env = (\<lambda>client t. rl_start uv decode (query client t))"
    and "boot_reach env (rl_program fs) (Running s)" and "bt_serving s \<noteq> []"
  shows "\<exists>docs m. query (installed (mongo_NewClient env (string_var fs ''mongodb'')))
        (connect_timeout (int_var fs ''timeout'')) = Inr docs \<and>
      bt_app s = Some m \<and>
      rl_config (rlm_server m) = Some \<lparr>cc_Domains = spec_domain uv (decode_all decode docs)\<rparr>"
proof -
  from serving_after_load [OF servers_load_first(1) assms(2)] assms(1,3) obtain m where
    m: "rl_start uv decode (query (installed (mongo_NewClient env (string_var fs ''mongodb'')))
        (connect_timeout (int_var fs ''timeout''))) = Running m" "bt_app s = Some m"
    by auto
  from m(1) obtain docs where "query (installed (mongo_NewClient env (string_var fs ''mongodb'')))
        (connect_timeout (int_var fs ''timeout'')) = Inr docs"
    by (auto simp: rl_start_def rl_loadConfig_def split: sum.splits)
  with m show ?thesis by (auto simp: rl_start_def rl_SetConfig_def rl_loadConfig_correct)
qed

lemma server_default_addrs:
  "distinct (prog_addrs (rl_program rl_flags))" "distinct (prog_addrs (az_program az_flags))"
  "distinct (prog_addrs (s3_program s3_flags))"
proof -
  have "uint_var rl_flags ''port'' = 18000" "uint_var rl_flags ''healthCheckPort'' = 8081"
    "uint_var az_flags ''port'' = 18006" "uint_var az_flags ''healthCheckPort'' = 8083"
    "uint_var s3_flags ''port'' = 18007" "uint_var s3_flags ''healthCheckPort'' = 8082"
    by (simp_all add: uint_var_def rl_flags_def az_flags_def s3_flags_def)
  moreover have "port_addr a = port_addr b \<longleftrightarrow> a = b" for a b
    by (auto simp: port_addr_def format_uint_inject intro: unsigned_word_eqI)
  ultimately show "distinct (prog_addrs (rl_program rl_flags))" "distinct (prog_addrs (az_program az_flags))"
    "distinct (prog_addrs (s3_program s3_flags))"
    unfolding rl_program_def az_program_def s3_program_def by (simp_all add: prog_addrs_def)
qed

lemma server_addrs_nonempty:
  "prog_addrs (rl_program fs) \<noteq> []" "prog_addrs (az_program fs) \<noteq> []" "prog_addrs (s3_program fs) \<noteq> []"
  by (simp_all add: rl_program_def az_program_def s3_program_def prog_addrs_def)

lemma decode_all_Some [simp]: "decode_all Some ds = ds"
  by (induction ds) auto

lemma rl_boot_serves:
  obtains s where
    "boot_reach (good_boot (\<lambda>c t. rl_start minute_table Some (Inr [limit_doc 5]))) (rl_program rl_flags) (Running s)"
    "bt_serving s \<noteq> []"
proof -
  let ?load = "\<lambda>(c :: unit option) (t :: 64 word). rl_start minute_table Some (Inr [limit_doc 5])"
  have mem: "rl_program rl_flags \<in> {rl_program rl_flags, az_program rl_flags, s3_program rl_flags, cp_program rl_flags}"
    by blast
  have load: "\<exists>m. ?load (Some ()) t = Running m" for t
    by (simp add: rl_start_def rl_loadConfig_def)
  obtain s where "boot_reach (good_boot ?load) (rl_program rl_flags) (Running s)"
    "set (bt_serving s) = set (prog_addrs (rl_program rl_flags))"
    by (rule good_boot_serves [where load = ?load, OF mem server_default_addrs(1) load])
  with that server_addrs_nonempty(1) [of rl_flags] show ?thesis by (metis set_empty)
qed

theorem rl_answers_from_loaded_witness:
  "\<exists>s m. boot_reach (good_boot (\<lambda>c t. rl_start minute_table Some (Inr [limit_doc 5]))) (rl_program rl_flags) (Running s) \<and>
     bt_app s = Some m \<and>
     rl_config (rlm_server m) = Some \<lparr>cc_Domains = spec_domain minute_table [limit_doc 5]\<rparr>"
proof -
  obtain s where
    s: "boot_reach (good_boot (\<lambda>c t. rl_start minute_table Some (Inr [limit_doc 5]))) (rl_program rl_flags) (Running s)"
    "bt_serving s \<noteq> []" by (rule rl_boot_serves)
  have "first_load (good_boot (\<lambda>c t. rl_start minute_table Some (Inr [limit_doc 5]))) =
      (\<lambda>c t. rl_start minute_table Some ((\<lambda>c t. Inr [limit_doc 5]) c t))"
    by (simp add: good_boot_def)
  from rl_answers_from_loaded [OF this s] s(1) show ?thesis by (elim exE conjE) (intro exI conjI; simp)
qed

text \<open>C20: the authorization server lets every request pass for its whole life: with any flags, under any
  order of its goroutines, from the first moment an endpoint is served and after any history of
  changes to its rules.\<close>

theorem authz_open_from_start:
  assumes "expired_context_fails query"
    and "first_load env = (\<lambda>client t. az_start decode (query t docs))"
    and "boot_reach env (az_program fs) (Running s)" and "bt_serving s \<noteq> []"
  shows "\<exists>m m'. bt_app s = Some m \<and>
    run_loop (az_watch decode) (map (az_event query) history) m = Running m' \<and>
    (\<forall>req. Attributes req \<noteq> None \<longrightarrow> az_check (azm_server m') req = Inr initial_response)"
proof -
  from serving_after_load [OF servers_load_first(2) assms(3)] assms(2,4)
  obtain m where m: "az_start decode (query (connect_timeout az_driverTimeout) docs) = Running m" "bt_app s = Some m"
    by (auto simp del: az_timeout_zero)
  with authz_enforces_nothing [OF assms(1), of decode docs history] show ?thesis
    by (simp del: az_timeout_zero)
qed

lemma az_boot_serves:
  obtains s where
    "boot_reach (good_boot (\<lambda>c t. az_start (\<lambda>d c. d) (timed_query t [Inr az_example_config]))) (az_program az_flags) (Running s)"
    "bt_serving s \<noteq> []"
proof -
  let ?load = "\<lambda>(c :: unit option) t. az_start (\<lambda>d c. d) (timed_query t [Inr az_example_config])"
  have mem: "az_program az_flags \<in> {rl_program az_flags, az_program az_flags, s3_program az_flags, cp_program az_flags}"
    by blast
  have load: "\<exists>m. ?load (Some ()) t = Running m" for t
    by (simp add: az_start_def az_loadConfig_def decode_into_def timed_query_def)
  obtain s where "boot_reach (good_boot ?load) (az_program az_flags) (Running s)"
    "set (bt_serving s) = set (prog_addrs (az_program az_flags))"
    by (rule good_boot_serves [where load = ?load, OF mem server_default_addrs(2) load])
  with that server_addrs_nonempty(2) [of az_flags] show ?thesis by (metis set_empty)
qed

theorem authz_open_from_start_witness:
  "\<exists>s m. boot_reach (good_boot (\<lambda>c t. az_start (\<lambda>d c. d) (timed_query t [Inr az_example_config])))
      (az_program az_flags) (Running s) \<and> bt_app s = Some m \<and>
     az_check (azm_server m) (request_from ''10.0.0.9'' az_example_http) = Inr initial_response \<and>
     (\<exists>res. az_check \<lparr>az_config = Some az_example_config\<rparr> (request_from ''10.0.0.9'' az_example_http) = Inr res \<and>
        \<not> is_allowed res)"
proof -
  obtain s where
    s: "boot_reach (good_boot (\<lambda>c t. az_start (\<lambda>d c. d) (timed_query t [Inr az_example_config]))) (az_program az_flags) (Running s)"
    "bt_serving s \<noteq> []" by (rule az_boot_serves)
  have "first_load (good_boot (\<lambda>c t. az_start (\<lambda>d c. d) (timed_query t [Inr az_example_config]))) =
      (\<lambda>c t. az_start (\<lambda>d c. d) (timed_query t [Inr az_example_config]))"
    by (simp add: good_boot_def)
  from authz_open_from_start [OF timed_query_expires this s, of "[]"] obtain m where
    "bt_app s = Some m" "\<forall>req. Attributes req \<noteq> None \<longrightarrow> az_check (azm_server m) req = Inr initial_response"
    by auto
  moreover have "Attributes (request_from ''10.0.0.9'' az_example_http) \<noteq> None" by (simp add: request_from_def)
  ultimately show ?thesis using s(1) az_example_denied by blast
qed

lemma allowed_verdict: "is_allowed (s3_verdict True ns)"
  by (simp add: s3_verdict_def is_allowed_def)



end
