(* ===== verification/XdsBoot.thy ===== *)
theory XdsBoot
  imports Boot WorkerSync
begin

text \<open>
  The control plane while it starts (\<open>main.go\<close>): the xDS server is started before
  \<open>drivers.Cli\<close> is set, and the callbacks of the proxies' requests use \<open>drivers.Cli\<close>.
\<close>

section \<open>Requests while the program starts\<close>

text \<open>
  \<open>drivers.Cli.Database("envoy")\<close> on the pointer as it is; the callback reads the node first.
\<close>

definition request_on ::
    "('c option \<Rightarrow> 'd go) \<Rightarrow> 'c option \<Rightarrow> ('status option \<Rightarrow> string) \<Rightarrow> 'status DiscoveryRequest \<Rightarrow> bool \<Rightarrow> string
       \<Rightarrow> workers \<Rightarrow> workers go" where
  "request_on Database Cli error_text req written now ws =
     bind_go (deref (dr_Node req)) (\<lambda>node_id.
     bind_go (Database Cli) (\<lambda>envoy.
     OnStreamRequest error_text req written now ws))"

text \<open>
  The control plane with its proxies: the state of the start and the collection of workers.  A
  request is answered once the xDS port is served; a panic of its callback ends the process.
\<close>

datatype 'status cp_action =
    Progress
  | ProxyRequest "'status DiscoveryRequest" bool string

inductive cp_step ::
    "('c, 'm) boot_env \<Rightarrow> ('c option \<Rightarrow> 'd go) \<Rightarrow> ('status option \<Rightarrow> string) \<Rightarrow> string \<Rightarrow>
       ('c, 'm) boot \<times> workers \<Rightarrow> 'status cp_action \<Rightarrow> (('c, 'm) boot \<times> workers) process \<Rightarrow> bool"
  for env :: "('c, 'm) boot_env" and Database :: "'c option \<Rightarrow> 'd go" and error_text :: "'status option \<Rightarrow> string"
    and xds_addr :: string where
  progress: "boot_step env s (Running s') \<Longrightarrow>
    cp_step env Database error_text xds_addr (s, ws) Progress (Running (s', ws))"
| ends: "boot_step env s (Exited msg) \<Longrightarrow>
    cp_step env Database error_text xds_addr (s, ws) Progress (Exited msg)"
| panics: "boot_step env s (Crashed p) \<Longrightarrow>
    cp_step env Database error_text xds_addr (s, ws) Progress (Crashed p)"
| request: "xds_addr \<in> set (bt_serving s) \<Longrightarrow>
    request_on Database (bt_client s) error_text req written now ws = Inr ws' \<Longrightarrow>
    cp_step env Database error_text xds_addr (s, ws) (ProxyRequest req written now) (Running (s, ws'))"
| request_panics: "xds_addr \<in> set (bt_serving s) \<Longrightarrow>
    request_on Database (bt_client s) error_text req written now ws = Inl p \<Longrightarrow>
    cp_step env Database error_text xds_addr (s, ws) (ProxyRequest req written now) (Crashed p)"

inductive cp_reach ::
    "('c, 'm) boot_env \<Rightarrow> ('c option \<Rightarrow> 'd go) \<Rightarrow> ('status option \<Rightarrow> string) \<Rightarrow> flag_set \<Rightarrow>
       (('c, 'm) boot \<times> workers) process \<Rightarrow> bool"
  for env :: "('c, 'm) boot_env" and Database :: "'c option \<Rightarrow> 'd go" and error_text :: "'status option \<Rightarrow> string"
    and fs :: flag_set where
  start: "cp_reach env Database error_text fs (Running (boot_initial (cp_program fs), Map.empty))"
| step: "cp_reach env Database error_text fs (Running c) \<Longrightarrow>
    cp_step env Database error_text (port_addr (uint_var fs ''port'')) c a p \<Longrightarrow>
    cp_reach env Database error_text fs p"

inductive_simps cp_step_request: "cp_step env Database error_text xds_addr c (ProxyRequest req written now) p"

lemma cp_reach_boot:
  "cp_reach env Database error_text fs p \<Longrightarrow> p = Running (s, ws) \<Longrightarrow> boot_reach env (cp_program fs) (Running s)"
proof (induction arbitrary: s ws rule: cp_reach.induct)
  case start
  then show ?case by (auto intro: boot_reach.start)
next
  case (step c a p)
  from step.hyps(2) step.prems show ?case
  proof cases
    case (progress s0 s' ws0)
    with step.IH [of s0 ws0] step.prems show ?thesis by (auto intro: boot_reach.step)
  next
    case (request s0 req written now ws0 ws')
    with step.IH [of s0 ws0] step.prems show ?thesis by auto
  qed simp_all
qed

text \<open>The first two steps: the server's goroutine is started, and it listens.\<close>

lemma xds_served_without_client:
  assumes "net_Listen env [] (port_addr (uint_var fs ''port'')) = None"
  shows "\<exists>s. cp_reach env Database error_text fs (Running (s, Map.empty)) \<and>
    port_addr (uint_var fs ''port'') \<in> set (bt_serving s) \<and> bt_client s = None"
proof -
  let ?addr = "port_addr (uint_var fs ''port'')" and ?rest = "tl (cp_program fs)"
  let ?s0 = "boot_initial (cp_program fs) :: ('a, 'b) boot"
  let ?s1 = "go_start (GrpcServer ?addr) (?s0\<lparr>bt_todo := ?rest\<rparr>)"
  let ?s2 = "listening ?addr (?s1\<lparr>bt_started := []\<rparr>)"
  have "bt_todo ?s0 = StartServer ?addr # ?rest" by (simp add: boot_initial_def cp_program_def)
  from boot_step.next_stage [OF this, of env] have 1: "boot_step env ?s0 (Running ?s1)" by simp
  have started: "bt_started ?s1 = [] @ GrpcServer ?addr # []" by (simp add: go_start_def boot_initial_def)
  have "bt_serving ?s1 = []" by (simp add: go_start_def boot_initial_def)
  with boot_step.goroutine [OF started, of env] assms have 2: "boot_step env ?s1 (Running ?s2)"
    by (simp add: or_fatal_def go_start_def)
  from cp_reach.step [OF cp_reach.step [OF cp_reach.start cp_step.progress [OF 1]] cp_step.progress [OF 2]]
  have "cp_reach env Database error_text fs (Running (?s2, Map.empty))" .
  moreover have "?addr \<in> set (bt_serving ?s2) \<and> bt_client ?s2 = None"
    by (simp add: listening_def go_start_def boot_initial_def)
  ultimately show ?thesis by blast
qed

text \<open>C33: a proxy that connects early kills the control plane: on a library whose methods reject a nil
  client, the xDS port can be served before the client is made, any request that names its node
  then ends the process, and these are the only states in which such a request does; once the
  client is set the request is stored.\<close>

theorem early_request_kills:
  assumes "Database None = Inl NilDereference" and "\<forall>c. \<exists>d. Database (Some c) = Inr d"
    and "net_Listen env [] (port_addr (uint_var fs ''port'')) = None"
    and "dr_Node req = Some node"
  shows "(\<exists>s. cp_reach env Database error_text fs (Running (s, Map.empty)) \<and>
      cp_step env Database error_text (port_addr (uint_var fs ''port'')) (s, Map.empty)
        (ProxyRequest req written now) (Crashed NilDereference)) \<and>
    (\<forall>s ws p. cp_reach env Database error_text fs (Running (s, ws)) \<and>
      cp_step env Database error_text (port_addr (uint_var fs ''port'')) (s, ws) (ProxyRequest req written now) p \<longrightarrow>
        (if bt_client s = None then p = Crashed NilDereference
         else \<exists>ws'. p = Running (s, ws') \<and> OnStreamRequest error_text req written now ws = Inr ws'))"
proof (intro conjI allI impI)
  from xds_served_without_client [OF assms(3)] obtain s where
    s: "cp_reach env Database error_text fs (Running (s, Map.empty))"
    "port_addr (uint_var fs ''port'') \<in> set (bt_serving s)" "bt_client s = None" by blast
  have "request_on Database (bt_client s) error_text req written now Map.empty = Inl NilDereference"
    by (simp add: request_on_def s(3) assms(1,4))
  from cp_step.request_panics [OF s(2) this] s(1)
  show "\<exists>s. cp_reach env Database error_text fs (Running (s, Map.empty)) \<and>
      cp_step env Database error_text (port_addr (uint_var fs ''port'')) (s, Map.empty)
        (ProxyRequest req written now) (Crashed NilDereference)" by blast
next
  fix s ws p
  assume "cp_reach env Database error_text fs (Running (s, ws)) \<and>
    cp_step env Database error_text (port_addr (uint_var fs ''port'')) (s, ws) (ProxyRequest req written now) p"
  then have step: "cp_step env Database error_text (port_addr (uint_var fs ''port'')) (s, ws)
      (ProxyRequest req written now) p" ..
  show "if bt_client s = None then p = Crashed NilDereference
        else \<exists>ws'. p = Running (s, ws') \<and> OnStreamRequest error_text req written now ws = Inr ws'"
  proof (cases "bt_client s")
    case None
    with step assms(1,4) show ?thesis by (auto simp: cp_step_request request_on_def)
  next
    case (Some c)
    with assms(2) obtain d where "Database (bt_client s) = Inr d" by auto
    moreover have "\<exists>ws'. OnStreamRequest error_text req written now ws = Inr ws'"
      by (simp add: callback_defs assms(4))
    ultimately show ?thesis using step Some assms(4) by (auto simp: cp_step_request request_on_def)
  qed
qed

theorem early_request_kills_witness:
  "\<exists>s. cp_reach (good_boot (\<lambda>c t. Running (0::nat))) (deref :: unit option \<Rightarrow> unit go) (\<lambda>e :: unit option. ''<nil>'') cp_flags (Running (s, Map.empty)) \<and>
     cp_step (good_boot (\<lambda>c t. Running (0::nat))) deref (\<lambda>e :: unit option. ''<nil>'') (port_addr (uint_var cp_flags ''port''))
       (s, Map.empty) (ProxyRequest \<lparr>dr_Node = Some ''edge'', dr_VersionInfo = [], dr_ErrorDetail = None\<rparr> True ''10:00'')
       (Crashed NilDereference)"
proof -
  let ?env = "good_boot (\<lambda>c t. Running (0::nat))"
    and ?req = "\<lparr>dr_Node = Some ''edge'', dr_VersionInfo = [], dr_ErrorDetail = None :: unit option\<rparr>"
  have "(deref :: unit option \<Rightarrow> unit go) None = Inl NilDereference" by simp
  moreover have "\<forall>c. \<exists>d. (deref :: unit option \<Rightarrow> unit go) (Some c) = Inr d" by simp
  moreover have "net_Listen ?env [] (port_addr (uint_var cp_flags ''port'')) = None"
    by (simp add: good_boot_def once_listen_def)
  moreover have "dr_Node ?req = Some ''edge''" by simp
  ultimately show ?thesis by (rule conjunct1 [OF early_request_kills])
qed

end
