(* ===== verification/AccessLogStreams.thy ===== *)
theory AccessLogStreams
  imports AccessLogProps Flags
begin

text \<open>
  The access-log server as a process: \<open>main\<close> of \<open>als.go\<close>, and the handlers of all its clients'
  streams running at once.  The handlers share the log writer; a turn of a handler is a call of
  \<open>Recv\<close> or one entry of the message it has, and a schedule is the list of the streams in the
  order of their turns.  What one stream stores does not depend on the others.
\<close>

section \<open>The program\<close>

record ('es, 'bi, 'ch) als_process =
  al_writer :: "('es, 'bi, 'ch) LogWriter"
  al_address :: string
  al_max_streams :: u32

text \<open>\<open>uint32(grpcMaxConcurrentStreams)\<close> keeps the low half of the flag's value.\<close>

definition RunAccessLogServer ::
    "(string \<Rightarrow> string option) \<Rightarrow> u64 \<Rightarrow> ('es, 'bi, 'ch) LogWriter \<Rightarrow> u64
       \<Rightarrow> ('es, 'bi, 'ch) als_process process" where
  "RunAccessLogServer listen maxStreams als port =
     (case listen ('':'' @ format_uint (unat port)) of
        Some err \<Rightarrow> Exited ''failed to listen''
      | None \<Rightarrow> Running \<lparr>al_writer = als, al_address = '':'' @ format_uint (unat port),
                         al_max_streams = ucast maxStreams\<rparr>)"

text \<open>
  \<open>main\<close> initialises the writer, starts the server in a goroutine and waits for a context that is
  never done.
\<close>

definition als_main ::
    "('es, 'bi, 'ch, 'b) client_env \<Rightarrow> (string \<Rightarrow> string option) \<Rightarrow> flag_set
       \<Rightarrow> ('es, 'bi, 'ch) als_process process" where
  "als_main env listen fs =
     (case lw_Init env (string_var fs ''elastic'') (string_var fs ''clickhouse'') (string_var fs ''username'')
             (string_var fs ''password'') (int_var fs ''workers'') (string_var fs ''backend'') new_writer of
        Running als \<Rightarrow> RunAccessLogServer listen (uint_var fs ''grpcmaxstreams'') als (uint_var fs ''als'')
      | Exited msg \<Rightarrow> Exited msg
      | Crashed p \<Rightarrow> Crashed p)"

section \<open>Many streams\<close>

text \<open>
  The shared state, the entries each handler still has of its message (\<open>None\<close>: it is at \<open>Recv\<close>)
  and the calls of \<open>Recv\<close> it has made.  \<open>sv_owner\<close> is a ghost: the stream of each write.
\<close>

record als_server =
  sv_state :: als_state
  sv_pending :: "nat \<Rightarrow> log_entries option"
  sv_received :: "nat \<Rightarrow> nat"
  sv_owner :: "nat list"

definition als_idle :: als_server where
  "als_idle = \<lparr>sv_state = \<lparr>st_readings = 0, st_writes = []\<rparr>, sv_pending = (\<lambda>i. None),
     sv_received = (\<lambda>i. 0), sv_owner = []\<rparr>"

definition received_entries :: "string + als_message \<Rightarrow> log_entries option" where
  "received_entries r = (case r of Inl err \<Rightarrow> None | Inr msg \<Rightarrow> LogEntries msg)"

text \<open>One entry of a message; a message without entries left sends the handler back to \<open>Recv\<close>.\<close>

fun next_entry ::
    "als_env \<Rightarrow> ('es, 'bi, 'ch) LogWriter \<Rightarrow> log_entries \<Rightarrow> als_state \<Rightarrow> (log_entries option \<times> als_state) go" where
  "next_entry env lw (HttpLogs []) st = Inr (None, st)"
| "next_entry env lw (HttpLogs (None # es)) st = Inr (Some (HttpLogs es), st)"
| "next_entry env lw (HttpLogs (Some e # es)) st =
     bind_go (store_http env lw e st) (\<lambda>st'. Inr (Some (HttpLogs es), st'))"
| "next_entry env lw (TcpLogs []) st = Inr (None, st)"
| "next_entry env lw (TcpLogs (None # es)) st = Inr (Some (TcpLogs es), st)"
| "next_entry env lw (TcpLogs (Some e # es)) st =
     bind_go (store_tcp env lw e st) (\<lambda>st'. Inr (Some (TcpLogs es), st'))"

text \<open>A turn of the handler of stream \<open>i\<close>; gRPC handlers do not recover, so a panic ends the server.\<close>

definition stream_turn ::
    "als_env \<Rightarrow> ('es, 'bi, 'ch) LogWriter \<Rightarrow> (nat \<Rightarrow> nat \<Rightarrow> string + als_message) \<Rightarrow> nat \<Rightarrow> als_server
       \<Rightarrow> als_server process" where
  "stream_turn env lw recv i s =
     (case sv_pending s i of
        None \<Rightarrow>
          Running (s\<lparr>sv_pending := (sv_pending s)(i := received_entries (recv i (sv_received s i))),
                     sv_received := (sv_received s)(i := Suc (sv_received s i))\<rparr>)
      | Some logs \<Rightarrow>
          (case next_entry env lw logs (sv_state s) of
             Inl p \<Rightarrow> Crashed p
           | Inr (logs', st') \<Rightarrow>
               Running (s\<lparr>sv_state := st', sv_pending := (sv_pending s)(i := logs'),
                 sv_owner := sv_owner s @
                   replicate (length (st_writes st') - length (st_writes (sv_state s))) i\<rparr>)))"

text \<open>The writes of one stream, and those of the entries a handler still has.\<close>

definition stream_writes :: "nat \<Rightarrow> als_server \<Rightarrow> log_write list" where
  "stream_writes i s = map snd (filter (\<lambda>(owner, w). owner = i) (zip (sv_owner s) (st_writes (sv_state s))))"

definition pending_writes :: "als_env \<Rightarrow> log_entries option \<Rightarrow> log_write list" where
  "pending_writes env logs = message_writes env (Inr \<lparr>LogEntries = logs\<rparr>)"

definition expected_writes :: "als_env \<Rightarrow> (nat \<Rightarrow> string + als_message) \<Rightarrow> nat \<Rightarrow> log_write list" where
  "expected_writes env recv n = concat (map (\<lambda>k. message_writes env (recv k)) [0..<n])"

lemma expected_writes_Suc [simp]:
  "expected_writes env recv (Suc n) = expected_writes env recv n @ message_writes env (recv n)"
  by (simp add: expected_writes_def)

lemma pending_writes_received [simp]: "pending_writes env (received_entries r) = message_writes env r"
  by (cases r) (simp_all add: pending_writes_def received_entries_def)

definition entries_ok :: "log_entries option \<Rightarrow> bool" where
  "entries_ok logs \<longleftrightarrow> received_ok (Inr \<lparr>LogEntries = logs\<rparr>)"

lemma entries_ok_received [simp]: "received_ok r \<Longrightarrow> entries_ok (received_entries r)"
  by (cases r) (simp_all add: entries_ok_def received_entries_def)

text \<open>One entry moves its statement from what is pending to what is stored.\<close>

lemma next_entry_writes:
  assumes "on_clickhouse lw" and "entries_ok (Some logs)"
  shows "\<exists>logs' st' ws. next_entry env lw logs st = Inr (logs', st') \<and> entries_ok logs' \<and>
    st_writes st' = st_writes st @ ws \<and> pending_writes env (Some logs) = ws @ pending_writes env logs'"
  using assms
proof (induction env lw logs st rule: next_entry.induct)
  case (3 env lw e es st)
  then have "http_ok e" by (simp add: entries_ok_def)
  from store_http_writes [OF "3.prems"(1) this, of env st] "3.prems"(2) show ?case
    by (auto simp: entries_ok_def pending_writes_def entry_writes_def)
next
  case (6 env lw e es st)
  then have "tcp_ok e" by (simp add: entries_ok_def)
  from store_tcp_writes [OF "6.prems"(1) this, of env st] "6.prems"(2) show ?case
    by (auto simp: entries_ok_def pending_writes_def entry_writes_def)
qed (auto simp: entries_ok_def pending_writes_def entry_writes_def)

section \<open>Streams do not disturb each other\<close>

definition streams_inv :: "als_env \<Rightarrow> (nat \<Rightarrow> nat \<Rightarrow> string + als_message) \<Rightarrow> als_server \<Rightarrow> bool" where
  "streams_inv env recv s \<longleftrightarrow>
     length (sv_owner s) = length (st_writes (sv_state s)) \<and>
     (\<forall>i. entries_ok (sv_pending s i)) \<and>
     (\<forall>i. stream_writes i s @ pending_writes env (sv_pending s i) = expected_writes env (recv i) (sv_received s i))"

lemma streams_inv_turn:
  assumes ch: "on_clickhouse lw" and ok: "\<And>i n. received_ok (recv i n)" and inv: "streams_inv env recv s"
  shows "\<exists>s'. stream_turn env lw recv i s = Running s' \<and> streams_inv env recv s'"
proof (cases "sv_pending s i")
  case None
  let ?s' = "s\<lparr>sv_pending := (sv_pending s)(i := received_entries (recv i (sv_received s i))),
    sv_received := (sv_received s)(i := Suc (sv_received s i))\<rparr>"
  have writes: "stream_writes j ?s' = stream_writes j s" for j by (simp add: stream_writes_def)
  have "pending_writes env None = []" by (simp add: pending_writes_def)
  moreover have old: "stream_writes j s @ pending_writes env (sv_pending s j) = expected_writes env (recv j) (sv_received s j)" for j
    using inv by (simp add: streams_inv_def)
  ultimately have "stream_writes j ?s' @ pending_writes env (sv_pending ?s' j) =
      expected_writes env (recv j) (sv_received ?s' j)" for j
    unfolding writes using None old [of i] by (cases "j = i") auto
  then have "streams_inv env recv ?s'"
    using inv ok by (simp add: streams_inv_def)
  with None show ?thesis by (simp add: stream_turn_def)
next
  case (Some logs)
  from inv have pending: "entries_ok (Some logs)" unfolding streams_inv_def Some [symmetric] by blast
  from next_entry_writes [OF ch pending, of env "sv_state s"] obtain logs' st' ws where
    step: "next_entry env lw logs (sv_state s) = Inr (logs', st')" and "entries_ok logs'"
    and st': "st_writes st' = st_writes (sv_state s) @ ws"
    and moved: "pending_writes env (Some logs) = ws @ pending_writes env logs'" by blast
  let ?s' = "s\<lparr>sv_state := st', sv_pending := (sv_pending s)(i := logs'),
    sv_owner := sv_owner s @ replicate (length ws) i\<rparr>"
  have "map snd (filter (\<lambda>(owner, w). owner = j) (zip (replicate (length ws) i) ws)) = (if j = i then ws else [])" for j
    by (induction ws) auto
  then have writes: "stream_writes j ?s' = stream_writes j s @ (if j = i then ws else [])" for j
    using inv by (simp add: stream_writes_def st' streams_inv_def)
  have "streams_inv env recv ?s'"
    unfolding streams_inv_def
  proof (intro conjI allI)
    fix j
    from inv have old: "stream_writes j s @ pending_writes env (sv_pending s j) = expected_writes env (recv j) (sv_received s j)"
      by (simp add: streams_inv_def)
    show "stream_writes j ?s' @ pending_writes env (sv_pending ?s' j) = expected_writes env (recv j) (sv_received ?s' j)"
      unfolding writes using old moved Some by (cases "j = i") auto
    show "entries_ok (sv_pending ?s' j)"
      using inv \<open>entries_ok logs'\<close> by (cases "j = i") (auto simp: streams_inv_def)
  qed (use inv st' in \<open>simp add: streams_inv_def\<close>)
  with Some step st' show ?thesis by (simp add: stream_turn_def)
qed

lemma streams_inv_idle: "streams_inv env recv als_idle"
  by (simp add: streams_inv_def als_idle_def stream_writes_def pending_writes_def entries_ok_def expected_writes_def)

lemma streams_inv_run:
  assumes "on_clickhouse lw" and "\<And>i n. received_ok (recv i n)" and "streams_inv env recv s"
  shows "\<exists>s'. run_loop (stream_turn env lw recv) schedule s = Running s' \<and> streams_inv env recv s'"
  using assms(3)
proof (induction schedule arbitrary: s)
  case (Cons i schedule)
  from streams_inv_turn [OF assms(1,2) Cons.prems, of i] obtain s1 where
    "stream_turn env lw recv i s = Running s1" "streams_inv env recv s1" by blast
  with Cons.IH [of s1] show ?case by simp
qed auto

lemma als_main_clickhouse:
  "als_main cenv listen fs = Running a \<Longrightarrow> string_var fs ''backend'' = ''clickhouse'' \<Longrightarrow> on_clickhouse (al_writer a)"
  by (auto simp: als_main_def RunAccessLogServer_def lw_Init_def init_ch_def new_writer_def on_clickhouse_def
      Let_def split: process.splits option.splits sum.splits)


text \<open>Two clients, each sending one message of two entries and then nothing.\<close>

definition two_clients :: "nat \<Rightarrow> nat \<Rightarrow> string + als_message" where
  "two_clients i n = (if n = 0 then Inr \<lparr>LogEntries = Some (TcpLogs [Some plain_tcp, Some plain_tcp])\<rparr> else Inl ''EOF'')"

definition ch_flags :: flag_set where
  "ch_flags = als_flags(''backend'' \<mapsto> StringFlag ''clickhouse'')"


section \<open>One stream alone\<close>

text \<open>The turns a handler takes for one outcome of \<open>Recv\<close>, and for the first \<open>n\<close>.\<close>

definition turns_of :: "string + als_message \<Rightarrow> nat" where
  "turns_of r = (case received_entries r of
     None \<Rightarrow> 1
   | Some (HttpLogs es) \<Rightarrow> length es + 2
   | Some (TcpLogs es) \<Rightarrow> length es + 2)"

definition turns_upto :: "(nat \<Rightarrow> string + als_message) \<Rightarrow> nat \<Rightarrow> nat" where
  "turns_upto recv n = sum_list (map (\<lambda>k. turns_of (recv k)) [0..<n])"

text \<open>The server after turns of one stream only: what matters of it is its writer's state.\<close>

definition alone :: "nat \<Rightarrow> (als_state \<times> log_entries option \<times> nat) \<Rightarrow> als_server \<Rightarrow> bool" where
  "alone i c s \<longleftrightarrow> sv_state s = fst c \<and> sv_pending s i = fst (snd c) \<and> sv_received s i = snd (snd c)"

lemma turn_entry:
  "alone i (st, Some logs, n) s \<Longrightarrow>
     (case next_entry env lw logs st of
        Inl p \<Rightarrow> stream_turn env lw recv i s = Crashed p
      | Inr (logs', st') \<Rightarrow> \<exists>s'. stream_turn env lw recv i s = Running s' \<and> alone i (st', logs', n) s')"
  by (auto simp: alone_def stream_turn_def split: sum.splits)

definition outcome :: "nat \<Rightarrow> nat \<Rightarrow> als_state \<times> panic option \<Rightarrow> als_server process \<Rightarrow> bool" where
  "outcome i n r p \<longleftrightarrow>
     (case snd r of
        None \<Rightarrow> (\<exists>s'. p = Running s' \<and> alone i (fst r, None, n) s')
      | Some e \<Rightarrow> p = Crashed e)"

text \<open>The entries of a message, for each of its two kinds.\<close>

lemma entries_turns:
  fixes mk :: "'e option list \<Rightarrow> log_entries"
  assumes last: "\<And>st. next_entry env lw (mk []) st = Inr (None, st)"
    and skip: "\<And>es st. next_entry env lw (mk (None # es)) st = Inr (Some (mk es), st)"
    and store: "\<And>e es st. next_entry env lw (mk (Some e # es)) st = bind_go (f e st) (\<lambda>st'. Inr (Some (mk es), st'))"
  shows "alone i (st, Some (mk es), n) s \<Longrightarrow>
     outcome i n (each_entry f es st) (run_loop (stream_turn env lw recv) (replicate (Suc (length es)) i) s)"
proof (induction es arbitrary: st s)
  case Nil
  from turn_entry [OF this, of env lw recv] show ?case by (auto simp: last outcome_def)
next
  case (Cons e es)
  show ?case
  proof (cases "next_entry env lw (mk (e # es)) st")
    case (Inl p)
    then obtain x where "e = Some x" "f x st = Inl p"
      by (cases e) (auto simp: skip store go_simps)
    with turn_entry [OF Cons.prems, of env lw recv] show ?thesis by (simp add: store outcome_def)
  next
    case (Inr r)
    then obtain st' where r: "r = (Some (mk es), st')"
      and same: "each_entry f (e # es) st = each_entry f es st'"
      by (cases e) (auto simp: skip store go_simps)
    from turn_entry [OF Cons.prems, of env lw recv] Inr r obtain s1 where
      "stream_turn env lw recv i s = Running s1" "alone i (st', Some (mk es), n) s1" by auto
    with Cons.IH [of st' s1] show ?thesis unfolding same by simp
  qed
qed

lemmas http_turns = entries_turns [of _ _ HttpLogs, OF next_entry.simps(1-3)]
lemmas tcp_turns = entries_turns [of _ _ TcpLogs, OF next_entry.simps(4-6)]

lemma message_turns:
  assumes "alone i (st, None, n) s"
  shows "(case als_round env lw (recv i n) st of
      Looping st' \<Rightarrow> \<exists>s'. run_loop (stream_turn env lw recv) (replicate (turns_of (recv i n)) i) s = Running s' \<and>
        alone i (st', None, Suc n) s'
    | Returned st' \<Rightarrow> False
    | Died st' p \<Rightarrow> run_loop (stream_turn env lw recv) (replicate (turns_of (recv i n)) i) s = Crashed p)"
proof -
  from assms obtain s1 where s1: "stream_turn env lw recv i s = Running s1"
    "alone i (st, received_entries (recv i n), Suc n) s1"
    by (auto simp: alone_def stream_turn_def)
  show ?thesis
  proof (cases "received_entries (recv i n)")
    case None
    then have "als_round env lw (recv i n) st = Looping st"
      by (auto simp: received_entries_def als_round_def handle_message_def split: sum.splits)
    with None s1 show ?thesis by (simp add: turns_of_def)
  next
    case (Some logs)
    then obtain msg where msg: "recv i n = Inr msg" "LogEntries msg = Some logs"
      by (auto simp: received_entries_def split: sum.splits)
    have "outcome i (Suc n) (handle_message env lw msg st)
        (run_loop (stream_turn env lw recv) (replicate (turns_of (recv i n)) i) s)"
    proof (cases logs)
      case (HttpLogs es)
      have "outcome i (Suc n) (each_entry (store_http env lw) es st)
          (run_loop (stream_turn env lw recv) (replicate (Suc (length es)) i) s1)"
        by (rule http_turns) (use s1 Some HttpLogs in simp)
      with HttpLogs s1 Some msg show ?thesis by (simp add: turns_of_def handle_message_def)
    next
      case (TcpLogs es)
      have "outcome i (Suc n) (each_entry (store_tcp env lw) es st)
          (run_loop (stream_turn env lw recv) (replicate (Suc (length es)) i) s1)"
        by (rule tcp_turns) (use s1 Some TcpLogs in simp)
      with TcpLogs s1 Some msg show ?thesis by (simp add: turns_of_def handle_message_def)
    qed
    then show ?thesis
      by (auto simp: msg als_round_def outcome_def split: prod.splits option.splits)
  qed
qed


section \<open>One stream ends all the others\<close>

lemma bad_entry_panics:
  "sv_pending s i = Some (TcpLogs (Some \<lparr>te_CommonProperties = None\<rparr> # rest)) \<Longrightarrow>
     stream_turn env lw recv i s = Crashed NilDereference"
  by (simp add: stream_turn_def store_tcp_def tcp_log_entry_def)

lemma other_turn_keeps:
  "stream_turn env lw recv j s = Running s' \<Longrightarrow> i \<noteq> j \<Longrightarrow> sv_pending s' i = sv_pending s i"
  by (auto simp: stream_turn_def split: option.splits sum.splits prod.splits)

text \<open>C34: a client that sends a TCP entry without common properties ends the server for all clients:
  once its handler is at that entry, no interleaving in which it takes one more turn leaves the
  server up, whatever the other clients send and whichever back end is used.\<close>

theorem als_one_stream_kills_all:
  assumes "sv_pending s i = Some (TcpLogs (Some \<lparr>te_CommonProperties = None\<rparr> # rest))"
    and "i \<in> set schedule"
  shows "run_loop (stream_turn env lw recv) schedule s \<noteq> Running s' \<and>
    (\<forall>others. i \<notin> set others \<longrightarrow> schedule = others @ [i] \<longrightarrow>
       (\<exists>s1. run_loop (stream_turn env lw recv) others s = Running s1) \<longrightarrow>
       run_loop (stream_turn env lw recv) schedule s = Crashed NilDereference)"
proof (intro conjI allI impI)
  show "run_loop (stream_turn env lw recv) schedule s \<noteq> Running s'"
    using assms
  proof (induction schedule arbitrary: s)
    case (Cons j schedule)
    show ?case
    proof (cases "stream_turn env lw recv j s")
      case (Running s1)
      with bad_entry_panics [OF Cons.prems(1), of env lw recv] have "i \<noteq> j" by auto
      with Cons Running other_turn_keeps [OF Running, of i] show ?thesis by simp
    qed simp_all
  qed simp
next
  fix others assume "i \<notin> set others" and schedule: "schedule = others @ [i]"
    and "\<exists>s1. run_loop (stream_turn env lw recv) others s = Running s1"
  then obtain s1 where s1: "run_loop (stream_turn env lw recv) others s = Running s1" by blast
  have "sv_pending s1 i = sv_pending s i"
    using s1 \<open>i \<notin> set others\<close>
    by (induction others arbitrary: s) (auto dest: other_turn_keeps split: process.splits)
  with assms(1) s1 bad_entry_panics [of s1 i rest env lw recv] show "run_loop (stream_turn env lw recv) schedule s = Crashed NilDereference"
    by (simp add: schedule run_loop_append)
qed

text \<open>A server with a healthy client 0 and a client 1 that has sent such an entry.\<close>

theorem als_one_stream_kills_all_witness:
  "let s = als_idle\<lparr>sv_pending := (sv_pending als_idle)(1 := Some (TcpLogs [Some \<lparr>te_CommonProperties = None\<rparr>]))\<rparr>
   in run_loop (stream_turn sample_als ch_writer two_clients) ([0, 0] @ [1]) s = Crashed NilDereference"
proof -
  let ?s = "als_idle\<lparr>sv_pending := (sv_pending als_idle)(1 := Some (TcpLogs [Some \<lparr>te_CommonProperties = None\<rparr>]))\<rparr>"
  have "\<exists>s1. run_loop (stream_turn sample_als ch_writer two_clients) [0] ?s = Running s1 \<and>
      sv_pending s1 0 = Some (TcpLogs [Some plain_tcp, Some plain_tcp])"
    by (simp add: stream_turn_def als_idle_def two_clients_def received_entries_def)
  then obtain s1 where s1: "stream_turn sample_als ch_writer two_clients 0 ?s = Running s1"
    "sv_pending s1 0 = Some (TcpLogs [Some plain_tcp, Some plain_tcp])"
    by (auto split: process.splits)
  have "\<exists>s2. stream_turn sample_als ch_writer two_clients 0 s1 = Running s2"
    using store_tcp_writes [OF on_ch_writer plain_tcp_ok, of sample_als "sv_state s1"]
    by (auto simp: stream_turn_def s1(2))
  with s1(1) have "\<exists>s2. run_loop (stream_turn sample_als ch_writer two_clients) [0, 0] ?s = Running s2" by auto
  with als_one_stream_kills_all [of ?s 1 "[]" "[0, 0] @ [1]" sample_als ch_writer two_clients undefined]
  show ?thesis by simp
qed

end
