(* ===== verification/WatchSystem.thy ===== *)
theory WatchSystem
  imports Reload
begin

text \<open>
  A server, its collection and whoever writes to it, at once.  The server loads, opens the change
  stream, and then handles one notification after the other: a query of the collection, which
  sees the documents of that moment, then the installation of what it found.  Writes happen at
  any time.  The question is whether the server ends up with the configuration stored.
\<close>

section \<open>The system\<close>

text \<open>
  \<open>wy_stream\<close> holds the operation types of the notifications not yet handled (\<open>None\<close>: the stream
  is not open), \<open>wy_handling\<close> the event whose query was made and whose result is not yet
  installed.  \<open>wy_missed\<close> is a ghost: some write after the last query is not, or not usefully,
  in the stream, or that query failed.
\<close>

record ('doc, 's) watch_system =
  wy_db :: "'doc list"
  wy_stream :: "string list option"
  wy_handling :: "'doc change_event option"
  wy_main :: 's
  wy_missed :: bool

definition notified :: "string \<Rightarrow> string + 'doc list \<Rightarrow> 'doc change_event" where
  "notified n found = \<lparr>ev_decoded = True, ev_operation = Some n, ev_found = found\<rparr>"

text \<open>
  A step of the system, for the step function of a server's loop and the operation types it
  reacts to.  MongoDB's change stream delivers the notifications of the writes made after it was
  opened, in their order (its documented behaviour).
\<close>

inductive watch_step ::
    "('doc change_event \<Rightarrow> 's \<Rightarrow> 's process) \<Rightarrow> (string \<Rightarrow> bool) \<Rightarrow>
       ('doc, 's) watch_system \<Rightarrow> ('doc, 's) watch_system \<Rightarrow> bool"
  for step :: "'doc change_event \<Rightarrow> 's \<Rightarrow> 's process" and noticed :: "string \<Rightarrow> bool" where
  written: "watch_step step noticed s
      (s\<lparr>wy_db := docs, wy_stream := map_option (\<lambda>ns. ns @ [n]) (wy_stream s),
         wy_missed := wy_missed s \<or> wy_stream s = None \<or> \<not> noticed n\<rparr>)"
| opened: "wy_stream s = None \<Longrightarrow> watch_step step noticed s (s\<lparr>wy_stream := Some []\<rparr>)"
| query: "wy_stream s = Some (n # ns) \<Longrightarrow> wy_handling s = None \<Longrightarrow>
    watch_step step noticed s
      (s\<lparr>wy_stream := Some ns, wy_handling := Some (notified n (Inr (wy_db s))),
         wy_missed := wy_missed s \<and> \<not> noticed n\<rparr>)"
| query_failed: "wy_stream s = Some (n # ns) \<Longrightarrow> wy_handling s = None \<Longrightarrow>
    watch_step step noticed s
      (s\<lparr>wy_stream := Some ns, wy_handling := Some (notified n (Inl err)),
         wy_missed := wy_missed s \<or> noticed n\<rparr>)"
| install: "wy_handling s = Some e \<Longrightarrow> step e (wy_main s) = Running m \<Longrightarrow>
    watch_step step noticed s (s\<lparr>wy_handling := None, wy_main := m\<rparr>)"

inductive watch_reach ::
    "(string + 'doc list \<Rightarrow> 's process) \<Rightarrow> ('doc change_event \<Rightarrow> 's \<Rightarrow> 's process) \<Rightarrow> (string \<Rightarrow> bool) \<Rightarrow>
       ('doc, 's) watch_system \<Rightarrow> bool"
  for start :: "string + 'doc list \<Rightarrow> 's process" and step :: "'doc change_event \<Rightarrow> 's \<Rightarrow> 's process"
    and noticed :: "string \<Rightarrow> bool" where
  first_load: "start (Inr docs) = Running m \<Longrightarrow>
    watch_reach start step noticed
      \<lparr>wy_db = docs, wy_stream = None, wy_handling = None, wy_main = m, wy_missed = False\<rparr>"
| further: "watch_reach start step noticed s \<Longrightarrow> watch_step step noticed s s' \<Longrightarrow>
    watch_reach start step noticed s'"

definition quiescent :: "('doc, 's) watch_system \<Rightarrow> bool" where
  "quiescent s \<longleftrightarrow> wy_stream s = Some [] \<and> wy_handling s = None"

section \<open>A reloading server and its collection\<close>

text \<open>
  The contract of the three loops, extended by what they have to do with the collection:
  \<open>current\<close> is the configuration a list of documents stands for, \<open>noticed\<close> the operation types
  the loop reacts to.
\<close>

locale watched = reloader step readable relevant loads served
  for step :: "'doc change_event \<Rightarrow> 's \<Rightarrow> 's process"
    and readable :: "'doc change_event \<Rightarrow> bool" and relevant :: "'doc change_event \<Rightarrow> bool"
    and loads :: "'doc change_event \<Rightarrow> 'c option" and served :: "'s \<Rightarrow> 'c option" +
  fixes start :: "string + 'doc list \<Rightarrow> 's process" and noticed :: "string \<Rightarrow> bool"
    and current :: "'doc list \<Rightarrow> 'c option"
  assumes notified_readable: "readable (notified n found)"
    and notified_relevant: "relevant (notified n found) \<longleftrightarrow> noticed n"
    and notified_loads: "loads (notified n (Inr docs)) = current docs"
    and start_current: "start (Inr docs) = Running m \<Longrightarrow> served m = current docs"
begin

text \<open>What the server serves once the query it has made is installed.\<close>

definition serving_next :: "('doc, 's) watch_system \<Rightarrow> 'c option" where
  "serving_next s =
     (case wy_handling s of
        None \<Rightarrow> served (wy_main s)
      | Some e \<Rightarrow> if relevant e then loads e else served (wy_main s))"

definition pending_notice :: "('doc, 's) watch_system \<Rightarrow> bool" where
  "pending_notice s \<longleftrightarrow> (\<exists>ns. wy_stream s = Some ns \<and> (\<exists>n \<in> set ns. noticed n))"

definition settles :: "('doc, 's) watch_system \<Rightarrow> bool" where
  "settles s \<longleftrightarrow>
     (\<forall>e. wy_handling s = Some e \<longrightarrow> readable e) \<and>
     (\<not> wy_missed s \<longrightarrow> pending_notice s \<or> serving_next s = current (wy_db s))"

lemma serving_next_install:
  assumes "readable e" and "wy_handling s = Some e" and "step e (wy_main s) = Running m"
  shows "serving_next (s\<lparr>wy_handling := None, wy_main := m\<rparr>) = serving_next s"
proof -
  obtain s' where "step e (wy_main s) = Running s'"
    and "served s' = (if relevant e then loads e else served (wy_main s))"
    by (rule step_running [OF assms(1)])
  with assms(2,3) show ?thesis by (simp add: serving_next_def)
qed

lemma settles_step:
  assumes "watch_step step noticed s s'" and "settles s"
  shows "settles s'"
  using assms(1)
proof cases
  case (written n docs)
  have "serving_next s' = serving_next s" by (simp add: written serving_next_def split: option.split)
  with assms(2) show ?thesis
    by (auto simp: written settles_def pending_notice_def)
next
  case opened
  have "serving_next s' = serving_next s" by (simp add: opened(1) serving_next_def split: option.split)
  with assms(2) opened(2) show ?thesis by (auto simp: opened(1) settles_def pending_notice_def)
next
  case (query n ns)
  have "serving_next s' = (if noticed n then current (wy_db s) else serving_next s)"
    using query(3) by (simp add: query(1) serving_next_def notified_relevant notified_loads)
  with assms(2) query(2) show ?thesis
    by (auto simp: query(1) settles_def pending_notice_def notified_readable)
next
  case (query_failed n ns err)
  have "\<not> noticed n \<Longrightarrow> serving_next s' = serving_next s"
    using query_failed(3) by (simp add: query_failed(1) serving_next_def notified_relevant)
  moreover have "wy_db s' = wy_db s" "wy_stream s' = Some ns" "wy_handling s' = Some (notified n (Inl err))"
    "wy_missed s' \<longleftrightarrow> wy_missed s \<or> noticed n"
    by (simp_all add: query_failed(1))
  ultimately show ?thesis
    using assms(2) query_failed(2) by (auto simp: settles_def pending_notice_def notified_readable)
next
  case (install e m)
  from assms(2) install(2) have "readable e" by (simp add: settles_def)
  from serving_next_install [OF this install(2,3)] assms(2) show ?thesis
    by (simp add: install(1) settles_def pending_notice_def)
qed

lemma reach_settles: "watch_reach start step noticed s \<Longrightarrow> settles s"
proof (induction rule: watch_reach.induct)
  case (first_load docs m)
  then show ?case by (simp add: settles_def serving_next_def start_current)
next
  case (further s s')
  then show ?case using settles_step by blast
qed

lemma quiescent_current:
  assumes "watch_reach start step noticed s" and "quiescent s" and "\<not> wy_missed s"
  shows "served (wy_main s) = current (wy_db s)"
  using reach_settles [OF assms(1)] assms(2,3) by (simp add: settles_def quiescent_def pending_notice_def serving_next_def)

text \<open>Once writing stops, handling what is in the stream, with queries that succeed, comes to rest.\<close>

lemma finish_handling:
  assumes "watch_reach start step noticed s"
  shows "\<exists>s'. (watch_step step noticed)\<^sup>*\<^sup>* s s' \<and> watch_reach start step noticed s' \<and> wy_db s' = wy_db s \<and>
    wy_stream s' = wy_stream s \<and> wy_handling s' = None \<and> wy_missed s' = wy_missed s"
proof (cases "wy_handling s")
  case (Some e)
  with reach_settles [OF assms] have "readable e" by (simp add: settles_def)
  then obtain m where "step e (wy_main s) = Running m" using step_running by blast
  with Some have "watch_step step noticed s (s\<lparr>wy_handling := None, wy_main := m\<rparr>)"
    by (rule watch_step.install)
  with assms show ?thesis
    by (intro exI [of _ "s\<lparr>wy_handling := None, wy_main := m\<rparr>"]) (auto intro: watch_reach.further)
qed (use assms in blast)

lemma drains:
  assumes "watch_reach start step noticed s" and "wy_stream s = Some ns"
    and "\<not> wy_missed s \<or> (\<exists>n \<in> set ns. noticed n)"
  shows "\<exists>s'. (watch_step step noticed)\<^sup>*\<^sup>* s s' \<and> watch_reach start step noticed s' \<and> wy_db s' = wy_db s \<and>
    quiescent s' \<and> \<not> wy_missed s'"
  using assms
proof (induction ns arbitrary: s)
  case Nil
  from finish_handling [OF Nil.prems(1)] Nil.prems show ?case by (auto simp: quiescent_def)
next
  case (Cons n ns)
  from finish_handling [OF Cons.prems(1)] Cons.prems(2,3) obtain s1 where
    s1: "(watch_step step noticed)\<^sup>*\<^sup>* s s1" "watch_reach start step noticed s1" "wy_db s1 = wy_db s"
    "wy_stream s1 = Some (n # ns)" "wy_handling s1 = None" "wy_missed s1 = wy_missed s" by auto
  let ?s2 = "s1\<lparr>wy_stream := Some ns, wy_handling := Some (notified n (Inr (wy_db s1))),
    wy_missed := wy_missed s1 \<and> \<not> noticed n\<rparr>"
  have step: "watch_step step noticed s1 ?s2" by (rule watch_step.query [OF s1(4,5)])
  have "\<not> wy_missed ?s2 \<or> (\<exists>n \<in> set ns. noticed n)" using Cons.prems(3) s1(6) by auto
  from Cons.IH [OF watch_reach.further [OF s1(2) step] _ this] obtain s' where
    "(watch_step step noticed)\<^sup>*\<^sup>* ?s2 s'" "watch_reach start step noticed s'" "wy_db s' = wy_db s1"
    "quiescent s'" "\<not> wy_missed s'" by auto
  with s1(1,3) step show ?case by (auto intro: rtranclp_trans converse_rtranclp_into_rtranclp)
qed

text \<open>Whatever happened before, a write the loop reacts to is served once writing stops.\<close>

lemma noticed_write_served:
  assumes "watch_reach start step noticed s" and "wy_stream s \<noteq> None" and "noticed n"
  shows "\<exists>s'. (watch_step step noticed)\<^sup>*\<^sup>* s s' \<and> quiescent s' \<and> wy_db s' = docs \<and>
    served (wy_main s') = current docs"
proof -
  from assms(2) obtain ns where ns: "wy_stream s = Some ns" by blast
  let ?s1 = "s\<lparr>wy_db := docs, wy_stream := map_option (\<lambda>ns. ns @ [n]) (wy_stream s),
    wy_missed := wy_missed s \<or> wy_stream s = None \<or> \<not> noticed n\<rparr>"
  have step: "watch_step step noticed s ?s1" by (rule watch_step.written)
  have "wy_stream ?s1 = Some (ns @ [n])" "\<exists>n \<in> set (ns @ [n]). noticed n" using ns assms(3) by auto
  from drains [OF watch_reach.further [OF assms(1) step] this(1)] this(2) obtain s' where
    s': "(watch_step step noticed)\<^sup>*\<^sup>* ?s1 s'" "watch_reach start step noticed s'" "wy_db s' = docs" "quiescent s'"
    "\<not> wy_missed s'" by auto
  with quiescent_current [OF s'(2,4,5)] step show ?thesis
    by (auto intro: converse_rtranclp_into_rtranclp)
qed

text \<open>A write between the first load and the opening of the stream is never heard of.\<close>

lemma unwatched_write_lost:
  assumes "start (Inr docs) = Running m"
  shows "\<exists>s. watch_reach start step noticed s \<and> quiescent s \<and> wy_db s = docs' \<and> served (wy_main s) = current docs"
proof -
  let ?s0 = "\<lparr>wy_db = docs, wy_stream = None, wy_handling = None, wy_main = m, wy_missed = False\<rparr>"
  let ?s1 = "?s0\<lparr>wy_db := docs', wy_stream := map_option (\<lambda>ns. ns @ [''insert'']) (wy_stream ?s0),
    wy_missed := wy_missed ?s0 \<or> wy_stream ?s0 = None \<or> \<not> noticed ''insert''\<rparr>"
  let ?s2 = "?s1\<lparr>wy_stream := Some []\<rparr>"
  have "watch_reach start step noticed ?s0" using assms by (rule watch_reach.first_load)
  then have "watch_reach start step noticed ?s1" by (rule watch_reach.further) (rule watch_step.written)
  then have "watch_reach start step noticed ?s2" by (rule watch_reach.further) (rule watch_step.opened, simp)
  moreover have "quiescent ?s2 \<and> wy_db ?s2 = docs' \<and> served (wy_main ?s2) = current docs"
    using start_current [OF assms] by (simp add: quiescent_def)
  ultimately show ?thesis by blast
qed

end

section \<open>The three servers\<close>

definition rl_noticed :: "string \<Rightarrow> bool" where
  "rl_noticed n \<longleftrightarrow> n = ''insert'' \<or> n = ''update'' \<or> n = ''delete''"

interpretation rly: watched "rl_watch uv decode" rl_readable rl_relevant
    "\<lambda>e. installed (rl_loadConfig uv decode (ev_found e))" "\<lambda>m. rl_config (rlm_server m)"
    "rl_start uv decode" rl_noticed "\<lambda>docs. installed (rl_loadConfig uv decode (Inr docs))"
  for uv :: "string \<rightharpoonup> RateLimitUnit" and decode :: "'doc \<Rightarrow> RLEntry option"
  by unfold_locales
    (auto simp: notified_def rl_readable_def rl_relevant_def rl_noticed_def rl_start_def rl_SetConfig_def
      installed_def split: sum.splits)

interpretation azy: watched "az_watch decode" ev_decoded "\<lambda>_. True"
    "\<lambda>e. installed (az_loadConfig decode (ev_found e))" "\<lambda>m. az_config (azm_server m)"
    "az_start decode" "\<lambda>_. True" "\<lambda>docs. installed (az_loadConfig decode (Inr docs))"
  for decode :: "'doc \<Rightarrow> AuthzConfigType \<Rightarrow> string + AuthzConfigType"
  by unfold_locales
    (auto simp: notified_def az_start_def az_SetConfig_def installed_def split: sum.splits)

interpretation s3y: watched "s3_watch decode" ev_decoded "\<lambda>_. True"
    "\<lambda>e. installed (s3_loadConfig decode (ev_found e))" "\<lambda>m. s3_config (s3_server m)"
    "\<lambda>found. Running (s3_start decode found)" "\<lambda>_. True" "\<lambda>docs. installed (s3_loadConfig decode (Inr docs))"
  for decode :: "'doc \<Rightarrow> string + Authzs3ConfigType"
  by unfold_locales (auto simp: notified_def s3_start_def s3_SetConfig_def Let_def)

text \<open>C19: the limits stored are the limits enforced, under every interleaving of writers, change stream
  and server: at rest, and unless a write was missed, the rate-limit server serves exactly what
  the collection's documents specify; and from every state with an open stream an insert, an
  update or a delete leads there once writing stops.\<close>

theorem stored_limits_served:
  assumes "watch_reach (rl_start uv decode) (rl_watch uv decode) rl_noticed s"
  shows "(quiescent s \<and> \<not> wy_missed s \<longrightarrow>
      rl_config (rlm_server (wy_main s)) = Some \<lparr>cc_Domains = spec_domain uv (decode_all decode (wy_db s))\<rparr>) \<and>
    (wy_stream s \<noteq> None \<and> n \<in> {''insert'', ''update'', ''delete''} \<longrightarrow>
      (\<exists>s'. (watch_step (rl_watch uv decode) rl_noticed)\<^sup>*\<^sup>* s s' \<and> quiescent s' \<and> wy_db s' = docs \<and>
         rl_config (rlm_server (wy_main s')) = Some \<lparr>cc_Domains = spec_domain uv (decode_all decode docs)\<rparr>))"
proof -
  have current: "installed (rl_loadConfig uv decode (Inr ds)) = Some \<lparr>cc_Domains = spec_domain uv (decode_all decode ds)\<rparr>"
    for ds by (simp add: installed_def rl_loadConfig_correct)
  have "n \<in> {''insert'', ''update'', ''delete''} \<Longrightarrow> rl_noticed n" by (auto simp: rl_noticed_def)
  with rly.noticed_write_served [OF assms, of n docs] rly.quiescent_current [OF assms] show ?thesis
    unfolding current by blast
qed

text \<open>A limit added while the server is up.\<close>

definition limits_system :: "(RLEntry, rl_main) watch_system" where
  "limits_system = \<lparr>wy_db = [], wy_stream = None, wy_handling = None,
     wy_main = \<lparr>rlm_cache = Some \<lparr>cc_Domains = Map.empty\<rparr>,
       rlm_server = \<lparr>rl_config = Some \<lparr>cc_Domains = Map.empty\<rparr>\<rparr>\<rparr>, wy_missed = False\<rparr>"

lemma limits_system_reach: "watch_reach (rl_start minute_table Some) (rl_watch minute_table Some) rl_noticed limits_system"
  unfolding limits_system_def
  by (rule watch_reach.first_load) (simp add: rl_start_def rl_loadConfig_def rl_SetConfig_def)

theorem stored_limits_served_witness:
  "\<exists>s s'. watch_reach (rl_start minute_table Some) (rl_watch minute_table Some) rl_noticed s \<and>
     (watch_step (rl_watch minute_table Some) rl_noticed)\<^sup>*\<^sup>* s s' \<and> wy_db s' = [limit_doc 5] \<and>
     rl_config (rlm_server (wy_main s')) = Some \<lparr>cc_Domains = spec_domain minute_table (decode_all Some [limit_doc 5])\<rparr>"
proof -
  let ?s = "limits_system\<lparr>wy_stream := Some []\<rparr>"
  have "watch_step (rl_watch minute_table Some) rl_noticed limits_system ?s"
    by (rule watch_step.opened) (simp add: limits_system_def)
  with limits_system_reach have reach: "watch_reach (rl_start minute_table Some) (rl_watch minute_table Some) rl_noticed ?s"
    by (rule watch_reach.further)
  from stored_limits_served [OF this, of "''insert''" "[limit_doc 5]"] reach show ?thesis by auto
qed


end
