(* ===== verification/ApiRaces.thy ===== *)
theory ApiRaces
  imports ApiProps Drivers
begin

text \<open>
  What the API's handlers do when they are not alone or not in time: two requests for the
  endpoints of one cluster whose database calls interleave, and the time-out under which the
  endpoint handlers write the node's version.
\<close>

section \<open>The phases of a request for endpoints\<close>

text \<open>
  \<open>PutConfigEndpoints\<close> up to its query: the state it leaves, and, unless it has replied, the
  cluster and the endpoints it is about to store.  The rest is \<open>store_endpoints\<close>.
\<close>

definition put_endpoints_read ::
    "'w rapi_env \<Rightarrow> string \<Rightarrow> string + EndpointsConfigType \<Rightarrow> 'w api \<Rightarrow>
       'w api \<times> (string \<times> EndpointsConfigType) option" where
  "put_endpoints_read env node body st =
     (let st = name_guard node ''invalid name'' st in
      case body of
        Inl err \<Rightarrow> (reply (JSON 400 err) st, None)
      | Inr e \<Rightarrow>
          (case first_endpoint e of
             None \<Rightarrow> (reply (JSON 400 ''No endpoints found'') st, None)
           | Some (loc, lb) \<Rightarrow>
               if \<not> parse_ip env (lb_address lb) then (reply (JSON 400 ''Error parsing ip'') st, None)
               else (let e = e\<lparr>es_NodeID := node\<rparr>;
                         (found, w) = find_endpoints env
                           [(''nodeId'', node), (''clusterName'', es_ClusterName e)] (api_world st);
                         endpoints = (case found of Some stored \<Rightarrow> merge_endpoints stored loc lb | None \<Rightarrow> e)
                     in (st\<lparr>api_world := w\<rparr>, Some (es_ClusterName e, endpoints)))))"

definition put_endpoints_write ::
    "'w rapi_env \<Rightarrow> string \<Rightarrow> 'w api \<times> (string \<times> EndpointsConfigType) option \<Rightarrow> 'w api" where
  "put_endpoints_write env node r =
     (case snd r of None \<Rightarrow> fst r | Some (cluster, endpoints) \<Rightarrow> store_endpoints env node cluster endpoints (fst r))"

lemma PutConfigEndpoints_phases:
  "PutConfigEndpoints env node body st = put_endpoints_write env node (put_endpoints_read env node body st)"
  by (simp add: PutConfigEndpoints_def put_endpoints_read_def put_endpoints_write_def Let_def
      split: sum.split option.split prod.split)

text \<open>Each request has its own reply and trace; the database is shared.\<close>

definition request :: "'w \<Rightarrow> 'w api" where
  "request w = \<lparr>api_world = w, api_ops = [], api_replies = []\<rparr>"

definition at_world :: "'w \<Rightarrow> 'w api \<times> 'x \<Rightarrow> 'w api \<times> 'x" where
  "at_world w r = ((fst r)\<lparr>api_world := w\<rparr>, snd r)"

text \<open>The second request queries after the first and before the first has written.\<close>

definition interleaved_puts ::
    "'w rapi_env \<Rightarrow> string \<Rightarrow> string + EndpointsConfigType \<Rightarrow> string + EndpointsConfigType \<Rightarrow> 'w
       \<Rightarrow> 'w api \<times> 'w api" where
  "interleaved_puts env node body1 body2 w =
     (let first = put_endpoints_read env node body1 (request w);
          second = put_endpoints_read env node body2 (request (api_world (fst first)));
          first' = put_endpoints_write env node (at_world (api_world (fst second)) first);
          second' = put_endpoints_write env node (at_world (api_world first') second)
      in (first', second'))"

section \<open>A collection of endpoints\<close>

text \<open>
  The documented behaviour of the database on the collection of endpoints, for calls that succeed:
  \<open>FindOne\<close> returns the document of a filter, \<open>ReplaceOne\<close> with upsert makes its document
  the one of its filter and changes no other; the other calls of the handler leave it alone.
\<close>

definition endpoint_store :: "'w rapi_env \<Rightarrow> ('w \<Rightarrow> bson_filter \<Rightarrow> EndpointsConfigType option) \<Rightarrow> bool" where
  "endpoint_store env doc \<longleftrightarrow>
     (\<forall>q w. find_endpoints env q w = (doc w q, w)) \<and>
     (\<forall>q d w. fst (exec env (ReplaceOne ''endpoints'' q (EndpointsDoc d)) w) \<and>
        doc (snd (exec env (ReplaceOne ''endpoints'' q (EndpointsDoc d)) w)) = (doc w)(q \<mapsto> d)) \<and>
     (\<forall>f v w. fst (exec env (UpdateOne ''nodes'' f v) w) \<and> doc (snd (exec env (UpdateOne ''nodes'' f v) w)) = doc w) \<and>
     (\<forall>w. doc (snd (new_uuid env w)) = doc w) \<and>
     (\<forall>d. marshals env (EndpointsDoc d))"

definition endpoint_filter :: "string \<Rightarrow> string \<Rightarrow> bson_filter" where
  "endpoint_filter node cluster = [(''nodeId'', node), (''clusterName'', cluster)]"

text \<open>A body the handler accepts, with its first locality and endpoint.\<close>

definition puts_endpoint ::
    "'w rapi_env \<Rightarrow> EndpointsConfigType \<Rightarrow> LbEndpointConfigType \<Rightarrow> EndpointConfigType \<Rightarrow> bool" where
  "puts_endpoint env e loc lb \<longleftrightarrow> first_endpoint e = Some (loc, lb) \<and> parse_ip env (lb_address lb)"

lemma store_endpoints_stored:
  assumes "endpoint_store env doc"
  shows "api_replies (store_endpoints env node cluster d st) = api_replies st @ [Status 204]"
    and "doc (api_world (store_endpoints env node cluster d st)) =
      (doc (api_world st))(endpoint_filter node cluster \<mapsto> d)"
  using assms
  by (simp_all add: store_endpoints_def run_op_def bump_version_def reply_def endpoint_store_def
      endpoint_filter_def split_def Let_def)

lemma put_endpoints_read_result:
  assumes "endpoint_store env doc" and "puts_endpoint env e loc lb" and "2 \<le> length node"
    and "doc w (endpoint_filter node (es_ClusterName e)) = Some stored"
  shows "put_endpoints_read env node (Inr e) (request w) =
    (request w, Some (es_ClusterName e, merge_endpoints stored loc lb))"
  using assms
  by (simp add: put_endpoints_read_def name_guard_def request_def endpoint_store_def puts_endpoint_def
      endpoint_filter_def Let_def)

text \<open>The endpoints of a document, all priorities together.\<close>

definition all_endpoints :: "EndpointsConfigType \<Rightarrow> EndpointConfigType set" where
  "all_endpoints d = (\<Union>p \<in> set (es_Endpoints d). set (lbe_LbEndpoints p))"

lemma merge_endpoints_bounds:
  "all_endpoints stored \<subseteq> all_endpoints (merge_endpoints stored loc lb)"
  "all_endpoints (merge_endpoints stored loc lb) \<subseteq> all_endpoints stored \<union> {lb} \<union> set (lbe_LbEndpoints loc)"
  by (auto simp: all_endpoints_def merge_endpoints_def Let_def split: if_splits)

lemma merge_endpoints_adds:
  assumes "lb \<in> set (lbe_LbEndpoints loc)"
  shows "lb \<in> all_endpoints (merge_endpoints stored loc lb)"
proof (cases "list_ex (\<lambda>p. lbe_Priority p = lbe_Priority loc) (es_Endpoints stored)")
  case True
  then show ?thesis by (auto simp: all_endpoints_def merge_endpoints_def Let_def list_ex_iff)
qed (use assms in \<open>simp add: all_endpoints_def merge_endpoints_def Let_def\<close>)

text \<open>C29: two puts of endpoints to one cluster.  One after the other, both endpoints are stored;
  interleaved so that both query before either writes, both are answered 204 and only the
  second one is stored: the handler reads, merges and replaces without a check that the
  document is still the one it read.\<close>

theorem interleaved_put_loses_endpoint:
  assumes "endpoint_store env doc" and "2 \<le> length node"
    and "puts_endpoint env e1 loc1 lb1" and "puts_endpoint env e2 loc2 lb2"
    and "es_ClusterName e2 = es_ClusterName e1"
    and "doc w (endpoint_filter node (es_ClusterName e1)) = Some stored"
    and "lb1 \<notin> all_endpoints stored" and "lb1 \<notin> set (lbe_LbEndpoints loc2)"
  shows "(let final = PutConfigEndpoints env node (Inr e2)
              (request (api_world (PutConfigEndpoints env node (Inr e1) (request w))))
      in \<exists>d. doc (api_world final) (endpoint_filter node (es_ClusterName e1)) = Some d \<and>
           lb1 \<in> all_endpoints d \<and> lb2 \<in> all_endpoints d) \<and>
    (let (first, second) = interleaved_puts env node (Inr e1) (Inr e2) w
      in api_replies first = [Status 204] \<and> api_replies second = [Status 204] \<and>
        (\<exists>d. doc (api_world second) (endpoint_filter node (es_ClusterName e1)) = Some d \<and>
           lb1 \<notin> all_endpoints d \<and> lb2 \<in> all_endpoints d))"
proof -
  let ?q = "endpoint_filter node (es_ClusterName e1)"
  let ?d1 = "merge_endpoints stored loc1 lb1" and ?d2 = "merge_endpoints stored loc2 lb2"
    and ?d12 = "merge_endpoints (merge_endpoints stored loc1 lb1) loc2 lb2"
  have in_loc: "lb \<in> set (lbe_LbEndpoints loc)" if "puts_endpoint env e loc lb" for e loc lb
    using that by (auto simp: puts_endpoint_def first_endpoint_def split: list.splits)
  note stored = store_endpoints_stored [OF assms(1)]
  note read1 = put_endpoints_read_result [OF assms(1,3,2) assms(6)]
  have q2: "endpoint_filter node (es_ClusterName e2) = ?q" by (simp add: assms(5))
  let ?w1 = "api_world (PutConfigEndpoints env node (Inr e1) (request w))"
  have w1: "doc ?w1 = (doc w)(?q \<mapsto> ?d1)"
    by (simp add: PutConfigEndpoints_phases put_endpoints_write_def read1 stored) (simp add: request_def)
  then have "doc ?w1 (endpoint_filter node (es_ClusterName e2)) = Some ?d1" by (simp add: q2)
  from put_endpoints_read_result [OF assms(1,4,2) this]
  have "doc (api_world (PutConfigEndpoints env node (Inr e2) (request ?w1))) ?q = Some ?d12"
    by (simp add: PutConfigEndpoints_phases [of env node "Inr e2"] put_endpoints_write_def stored assms(5))
  moreover have "lb1 \<in> all_endpoints ?d12" "lb2 \<in> all_endpoints ?d12"
    using merge_endpoints_adds [OF in_loc [OF assms(3)], of stored] merge_endpoints_bounds(1) [of ?d1 loc2 lb2]
      merge_endpoints_adds [OF in_loc [OF assms(4)], of ?d1] by auto
  moreover have read2: "put_endpoints_read env node (Inr e2) (request w) = (request w, Some (es_ClusterName e1, ?d2))"
    using put_endpoints_read_result [OF assms(1,4,2), of w stored] assms(5,6) q2 by simp
  obtain first second where both: "interleaved_puts env node (Inr e1) (Inr e2) w = (first, second)" by fastforce
  then have "api_replies first = [Status 204]" "api_replies second = [Status 204]"
    "doc (api_world second) ?q = Some ?d2"
    using stored read1 read2
    by (auto simp: interleaved_puts_def put_endpoints_write_def at_world_def request_def Let_def)
  moreover have "lb1 \<notin> all_endpoints ?d2"
    using merge_endpoints_bounds(2) [of stored loc2 lb2] assms(7,8) in_loc [OF assms(4)] by auto
  moreover have "lb2 \<in> all_endpoints ?d2" by (rule merge_endpoints_adds [OF in_loc [OF assms(4)]])
  ultimately show ?thesis unfolding both Let_def by auto
qed

text \<open>A database of endpoints only, and a body with one endpoint.\<close>

definition endpoints_env :: "(bson_filter \<rightharpoonup> EndpointsConfigType) rapi_env" where
  "endpoints_env = \<lparr>exec = \<lambda>op w. (case op of ReplaceOne c q (EndpointsDoc d) \<Rightarrow> (True, w(q \<mapsto> d)) | _ \<Rightarrow> (True, w)),
     find_endpoints = \<lambda>q w. (w q, w), find_ratelimits = \<lambda>q w. (Inr [], w),
     find_authz = \<lambda>w. ((\<lparr>az_Config = \<lparr>az_Domains = None\<rparr>\<rparr>, True), w),
     find_authzs3 = \<lambda>w. ((\<lparr>s3_Config = \<lparr>s3_Namespaces = None\<rparr>\<rparr>, True), w),
     new_uuid = \<lambda>w. (''u'', w), marshals = \<lambda>d. True, parse_ip = \<lambda>a. True\<rparr>"

definition port_endpoint :: "go_int \<Rightarrow> EndpointConfigType" where
  "port_endpoint port = \<lparr>ep_Endpoint = \<lparr>ev2_Address = \<lparr>ea_SocketAddress =
     \<lparr>sa_Address = ''10.0.0.1'', sa_PortValue = port\<rparr>\<rparr>\<rparr>, ep_LoadBalancingWeight = None\<rparr>"

definition endpoints_body :: "EndpointConfigType list \<Rightarrow> EndpointsConfigType" where
  "endpoints_body lbs = \<lparr>es_NodeID = ''n1'', es_ClusterName = ''web'',
     es_Endpoints = [\<lparr>lbe_Priority = 0, lbe_LbEndpoints = lbs\<rparr>], es_Policy = None\<rparr>"

lemma endpoints_cluster [simp]: "es_ClusterName (endpoints_body lbs) = ''web''"
  by (simp add: endpoints_body_def)

lemma endpoints_body_all: "all_endpoints (endpoints_body lbs) = set lbs"
  by (simp add: endpoints_body_def all_endpoints_def)

lemma port_endpoint_inject [simp]: "port_endpoint p = port_endpoint q \<longleftrightarrow> p = q"
  by (simp add: port_endpoint_def)

lemma endpoints_env_store: "endpoint_store endpoints_env (\<lambda>w. w)"
  by (simp add: endpoint_store_def endpoints_env_def)

lemma endpoints_body_puts:
  "puts_endpoint endpoints_env (endpoints_body [lb]) \<lparr>lbe_Priority = 0, lbe_LbEndpoints = [lb]\<rparr> lb"
  by (simp add: puts_endpoint_def first_endpoint_def endpoints_body_def endpoints_env_def)

theorem interleaved_put_loses_endpoint_witness:
  "let (first, second) = interleaved_puts endpoints_env ''n1'' (Inr (endpoints_body [port_endpoint 81]))
         (Inr (endpoints_body [port_endpoint 82])) [endpoint_filter ''n1'' ''web'' \<mapsto> endpoints_body [port_endpoint 80]]
   in api_replies first = [Status 204] \<and> api_replies second = [Status 204] \<and>
     (\<exists>d. api_world second (endpoint_filter ''n1'' ''web'') = Some d \<and> port_endpoint 81 \<notin> all_endpoints d)"
proof -
  let ?w = "[endpoint_filter ''n1'' ''web'' \<mapsto> endpoints_body [port_endpoint 80]]"
  have node: "2 \<le> length ''n1''" by simp
  have same: "es_ClusterName (endpoints_body [port_endpoint 82]) = es_ClusterName (endpoints_body [port_endpoint 81])"
    and doc: "?w (endpoint_filter ''n1'' (es_ClusterName (endpoints_body [port_endpoint 81]))) =
      Some (endpoints_body [port_endpoint 80])" by simp_all
  have new: "port_endpoint 81 \<notin> all_endpoints (endpoints_body [port_endpoint 80])"
    "port_endpoint 81 \<notin> set (lbe_LbEndpoints \<lparr>lbe_Priority = 0, lbe_LbEndpoints = [port_endpoint 82]\<rparr>)"
    by (simp_all add: endpoints_body_all)
  obtain first second where both: "interleaved_puts endpoints_env ''n1'' (Inr (endpoints_body [port_endpoint 81]))
      (Inr (endpoints_body [port_endpoint 82])) ?w = (first, second)" by fastforce
  from conjunct2 [OF interleaved_put_loses_endpoint [where w = ?w, OF endpoints_env_store node endpoints_body_puts
      endpoints_body_puts same doc new]]
  show ?thesis unfolding both endpoints_cluster Let_def case_prod_conv by blast
qed

section \<open>The time-out of the version\<close>

text \<open>
  The endpoint handlers make a new context for the version's update, whose time-out is
  \<open>time.Duration(drivers.ConnectTimeout)*time.Second\<close>: the variable holds nanoseconds already, and
  the product is taken in 64 bits.
\<close>

definition version_timeout :: "64 word \<Rightarrow> 64 word" where
  "version_timeout connectTimeout = connectTimeout * 1000000000"

text \<open>The time-out under which the handlers make a call, for a value of the flag \<open>-timeout\<close>.\<close>

definition endpoint_call_timeout :: "64 word \<Rightarrow> db_op \<Rightarrow> 64 word" where
  "endpoint_call_timeout driverTimeout op =
     (case op of
        UpdateOne c f v \<Rightarrow> version_timeout (connect_timeout driverTimeout)
      | _ \<Rightarrow> connect_timeout driverTimeout)"

text \<open>
  A database that carries out, by \<open>run\<close>, every call made in time, behind a driver that answers a
  call under an expired context with an error and does not make it (its documented behaviour).
\<close>

definition in_time :: "(db_op \<Rightarrow> 'w \<Rightarrow> 'w) \<Rightarrow> 64 word \<Rightarrow> db_op \<Rightarrow> 'w \<Rightarrow> bool \<times> 'w" where
  "in_time run t op w = (if 0 < sint t then (True, run op w) else (False, w))"

definition timed_env :: "(db_op \<Rightarrow> 'w \<Rightarrow> 'w) \<Rightarrow> 64 word \<Rightarrow> 'w rapi_env \<Rightarrow> 'w rapi_env" where
  "timed_env run driverTimeout env =
     env\<lparr>exec := \<lambda>op w. in_time run (endpoint_call_timeout driverTimeout op) op w\<rparr>"

text \<open>From 1 to 9 seconds both time-outs are positive; from 10 to 18 the version's wraps.\<close>

lemma version_timeout_positive:
  "1 \<le> k \<Longrightarrow> k \<le> 9 \<Longrightarrow>
     sint (connect_timeout (word_of_nat k)) = int k * 10 ^ 9 \<and>
     sint (version_timeout (connect_timeout (word_of_nat k))) = int k * 10 ^ 18"
proof -
  assume "1 \<le> k" "k \<le> 9"
  then have "k \<in> {1, 2, 3, 4, 5, 6, 7, 8, 9}" by auto
  then show ?thesis
    by (elim insertE emptyE) (simp_all add: connect_timeout_def version_timeout_def)
qed

lemma version_timeout_wraps:
  "10 \<le> k \<Longrightarrow> k \<le> 18 \<Longrightarrow>
     0 < sint (connect_timeout (word_of_nat k)) \<and> sint (version_timeout (connect_timeout (word_of_nat k))) < 0"
proof -
  assume "10 \<le> k" "k \<le> 18"
  then have "k \<in> {10, 11, 12, 13, 14, 15, 16, 17, 18}" by auto
  then show ?thesis
    by (elim insertE emptyE) (simp_all add: connect_timeout_def version_timeout_def)
qed

lemma store_endpoints_timed:
  assumes "marshals env (EndpointsDoc d)" and "0 < sint (connect_timeout t)"
  shows "let st' = store_endpoints (timed_env run t env) node cluster d st;
             replace = ReplaceOne ''endpoints'' (endpoint_filter node cluster) (EndpointsDoc d);
             (v, w) = new_uuid env (run replace (api_world st));
             update = UpdateOne ''nodes'' [(''name'', node)] [(''version'', v)];
             late = sint (version_timeout (connect_timeout t)) \<le> 0
    in api_ops st' = api_ops st @ [replace, update] \<and>
      api_world st' = (if late then w else run update w) \<and>
      api_replies st' = api_replies st @
        [if late then JSON 400 ''failed to update node version'' else Status 204]"
  using assms
  by (simp add: store_endpoints_def run_op_def bump_version_def reply_def timed_env_def in_time_def
      endpoint_call_timeout_def endpoint_filter_def split_def Let_def)

lemma handlers_store:
  assumes "puts_endpoint env e loc lb" and "2 \<le> length node"
    and "handler \<in> {PutConfigEndpoints, PutConfigEndpointsNamed}"
  shows "\<exists>d w'. handler env node (Inr e) (request w) = store_endpoints env node (es_ClusterName e) d (request w')"
  using assms
  by (auto simp: PutConfigEndpoints_def PutConfigEndpointsNamed_def puts_endpoint_def name_guard_def request_def
      split_def Let_def) (rule exI, rule exI, rule refl)+

text \<open>C31: a longer time-out breaks the endpoint handlers: with a database that answers every call made in
  time, a put of endpoints is stored and given a new version with \<open>-timeout\<close> from 1 to 9; from
  10 to 18 the version's time-out wraps to a negative one, so that the endpoints are stored, the
  version is not, and the request is answered 400: the change is not rolled out.\<close>

theorem endpoint_timeout_wraps:
  assumes "puts_endpoint env e loc lb" and "2 \<le> length node" and "\<forall>d. marshals env (EndpointsDoc d)"
    and "1 \<le> k" and "k \<le> 18" and "handler \<in> {PutConfigEndpoints, PutConfigEndpointsNamed}"
  shows "let st = handler (timed_env run (word_of_nat k) env) node (Inr e) (request w)
    in \<exists>d v w1 w2. api_ops st =
          [ReplaceOne ''endpoints'' (endpoint_filter node (es_ClusterName e)) (EndpointsDoc d),
           UpdateOne ''nodes'' [(''name'', node)] [(''version'', v)]] \<and>
        (v, w2) = new_uuid env (run (hd (api_ops st)) w1) \<and>
        (if k < 10 then api_world st = run (last (api_ops st)) w2 \<and> api_replies st = [Status 204]
         else api_world st = w2 \<and> api_replies st = [JSON 400 ''failed to update node version''])"
proof -
  let ?t = "word_of_nat k :: 64 word"
  have "puts_endpoint (timed_env run ?t env) e loc lb"
    using assms(1) by (simp add: puts_endpoint_def timed_env_def)
  from handlers_store [OF this assms(2,6)] obtain d w1 where
    st: "handler (timed_env run ?t env) node (Inr e) (request w) =
      store_endpoints (timed_env run ?t env) node (es_ClusterName e) d (request w1)" by blast
  have pos: "0 < sint (connect_timeout ?t)" and late: "sint (version_timeout (connect_timeout ?t)) \<le> 0 \<longleftrightarrow> \<not> k < 10"
    using assms(4,5) version_timeout_positive [of k] version_timeout_wraps [of k] by (cases "k < 10"; auto)+
  obtain v w2 where "(v, w2) = new_uuid env (run (ReplaceOne ''endpoints'' (endpoint_filter node (es_ClusterName e))
      (EndpointsDoc d)) w1)" by (metis surj_pair)
  with store_endpoints_timed [OF assms(3) [rule_format] pos, of run node "es_ClusterName e" d "request w1"]
  have "let st = store_endpoints (timed_env run ?t env) node (es_ClusterName e) d (request w1)
    in api_ops st = [ReplaceOne ''endpoints'' (endpoint_filter node (es_ClusterName e)) (EndpointsDoc d),
           UpdateOne ''nodes'' [(''name'', node)] [(''version'', v)]] \<and>
        (v, w2) = new_uuid env (run (hd (api_ops st)) w1) \<and>
        (if k < 10 then api_world st = run (last (api_ops st)) w2 \<and> api_replies st = [Status 204]
         else api_world st = w2 \<and> api_replies st = [JSON 400 ''failed to update node version''])"
    unfolding late by (auto simp: request_def Let_def split: prod.splits)
  then show ?thesis unfolding st Let_def by blast
qed

text \<open>A database that is the list of the calls carried out, with a time-out of 12 seconds.\<close>

definition log_env :: "db_op list rapi_env" where
  "log_env = \<lparr>exec = \<lambda>op w. (True, w @ [op]), find_endpoints = \<lambda>q w. (None, w), find_ratelimits = \<lambda>q w. (Inr [], w),
     find_authz = \<lambda>w. ((\<lparr>az_Config = \<lparr>az_Domains = None\<rparr>\<rparr>, True), w),
     find_authzs3 = \<lambda>w. ((\<lparr>s3_Config = \<lparr>s3_Namespaces = None\<rparr>\<rparr>, True), w),
     new_uuid = \<lambda>w. (''u'', w), marshals = \<lambda>d. True, parse_ip = \<lambda>a. True\<rparr>"

theorem endpoint_timeout_wraps_witness:
  "api_replies (PutConfigEndpoints (timed_env (\<lambda>op ops. ops @ [op]) (word_of_nat 12) log_env) ''n1''
      (Inr (endpoints_body [port_endpoint 81])) (request [])) = [JSON 400 ''failed to update node version''] \<and>
   api_replies (PutConfigEndpoints (timed_env (\<lambda>op ops. ops @ [op]) (word_of_nat 5) log_env) ''n1''
      (Inr (endpoints_body [port_endpoint 81])) (request [])) = [Status 204]"
proof -
  have puts: "puts_endpoint log_env (endpoints_body [lb]) \<lparr>lbe_Priority = 0, lbe_LbEndpoints = [lb]\<rparr> lb" for lb
    by (simp add: puts_endpoint_def first_endpoint_def endpoints_body_def log_env_def)
  have node: "2 \<le> length ''n1''" and docs: "\<forall>d. marshals log_env (EndpointsDoc d)"
    and handler: "PutConfigEndpoints \<in> {PutConfigEndpoints, PutConfigEndpointsNamed}"
    by (simp_all add: log_env_def)
  note wraps = endpoint_timeout_wraps [OF puts [of "port_endpoint 81"] node docs _ _ handler,
      where run = "\<lambda>op ops. ops @ [op]" and w = "[]"]
  from wraps [of 12] wraps [of 5] show ?thesis by (auto simp: Let_def)
qed

end
