(* ===== verification/RateLimitConcurrent.thy ===== *)
theory RateLimitConcurrent
  imports RateLimitExact
begin

text \<open>
  The rate-limit service under concurrent requests.  Each request runs in a goroutine of its
  own; what they share is the local cache and Redis.  The check of one limit is three turns, the
  look-up in the local cache, the \<open>INCRBY\<close> (one command, atomic in Redis), and the note in the
  local cache that the limit is exceeded.  A schedule is the list of the checks in the order
  of their turns; checks of one request are made in sequence by the code, so that its
  interleavings are among those of independent checks.
\<close>

section \<open>The turns of a check\<close>

text \<open>\<open>Refused\<close> and \<open>RefusedCached\<close> are the same verdict, reached through Redis and the cache.\<close>

datatype check_phase = Waiting | Missed | Over | Allowed | Refused | RefusedCached

record 'w checks =
  rc_world :: 'w
  rc_phase :: "nat \<Rightarrow> check_phase"

definition cache_turn :: "'w rl_env \<Rightarrow> limitType \<Rightarrow> 'w \<Rightarrow> check_phase \<times> 'w" where
  "cache_turn env entry w =
     (let (hit, w1) = cache_get env (lt_Key entry) w in (if hit then RefusedCached else Missed, w1))"

definition count_turn :: "'w rl_env \<Rightarrow> limitType \<Rightarrow> 'w \<Rightarrow> check_phase \<times> 'w" where
  "count_turn env entry w =
     (let ((reply, err), w1) = redis_pipeline env (lt_Key entry)
            (format_uint (unat (lt_Hits entry))) (format_uint (unat (lt_Expire entry))) w;
          result = (case reply of Some n \<Rightarrow> n | None \<Rightarrow> lt_Result entry)
      in (if result > lt_Limit entry then Over else Allowed, w1))"

definition note_turn :: "'w rl_env \<Rightarrow> limitType \<Rightarrow> 'w \<Rightarrow> check_phase \<times> 'w" where
  "note_turn env entry w = (Refused, cache_set env (lt_Key entry) (lt_Expire entry) w)"

fun phase_turn :: "'w rl_env \<Rightarrow> limitType \<Rightarrow> check_phase \<Rightarrow> 'w \<Rightarrow> check_phase \<times> 'w" where
  "phase_turn env entry Waiting w = cache_turn env entry w"
| "phase_turn env entry Missed w = count_turn env entry w"
| "phase_turn env entry Over w = note_turn env entry w"
| "phase_turn env entry phase w = (phase, w)"

definition check_turn :: "'w rl_env \<Rightarrow> limitType list \<Rightarrow> nat \<Rightarrow> 'w checks \<Rightarrow> 'w checks" where
  "check_turn env entries i st =
     (if i < length entries
      then (let (phase, w) = phase_turn env (entries ! i) (rc_phase st i) (rc_world st)
            in st\<lparr>rc_world := w, rc_phase := (rc_phase st)(i := phase)\<rparr>)
      else st)"

definition waiting_checks :: "'w \<Rightarrow> 'w checks" where
  "waiting_checks w = \<lparr>rc_world = w, rc_phase = (\<lambda>i. Waiting)\<rparr>"

fun verdict :: "check_phase \<Rightarrow> RLCode option" where
  "verdict Allowed = Some CODE_OK"
| "verdict Refused = Some CODE_OVER_LIMIT"
| "verdict RefusedCached = Some CODE_OVER_LIMIT"
| "verdict _ = None"

text \<open>A check that is not interrupted is the body of the service's loop.\<close>

lemma check_limit_turns:
  "\<exists>phase w'. (let (p1, w1) = phase_turn env entry Waiting w; (p2, w2) = phase_turn env entry p1 w1
      in phase_turn env entry p2 w2) = (phase, w') \<and>
    (\<exists>v. verdict phase = Some v \<and>
      check_limit env entry (res, w) =
        (res\<lparr>rs_OverallCode := (if v = CODE_OK then rs_OverallCode res else CODE_OVER_LIMIT),
           rs_Statuses := rs_Statuses res @ [v]\<rparr>, w'))"
  by (auto simp: cache_turn_def count_turn_def note_turn_def check_limit_def Let_def split: prod.splits)

section \<open>Counting under interleaving\<close>

text \<open>The hits of the checks on a key whose phase is among some.\<close>

definition phase_hits :: "limitType list \<Rightarrow> check_phase set \<Rightarrow> string \<Rightarrow> (nat \<Rightarrow> check_phase) \<Rightarrow> nat" where
  "phase_hits entries ps k phase =
     (\<Sum>i < length entries. if lt_Key (entries ! i) = k \<and> phase i \<in> ps then unat (lt_Hits (entries ! i)) else 0)"

lemma phase_hits_update:
  assumes "i < length entries"
  shows "phase_hits entries ps k (phase(i := p)) +
      (if lt_Key (entries ! i) = k \<and> phase i \<in> ps then unat (lt_Hits (entries ! i)) else 0) =
    phase_hits entries ps k phase +
      (if lt_Key (entries ! i) = k \<and> p \<in> ps then unat (lt_Hits (entries ! i)) else 0)"
proof -
  let ?h = "\<lambda>f j. if lt_Key (entries ! j) = k \<and> f j \<in> ps then unat (lt_Hits (entries ! j)) else 0"
  have split: "(\<Sum>j < length entries. ?h f j) = ?h f i + (\<Sum>j \<in> {..<length entries} - {i}. ?h f j)" for f
    using assms by (intro sum.remove) auto
  have "(\<Sum>j \<in> {..<length entries} - {i}. ?h (phase(i := p)) j) = (\<Sum>j \<in> {..<length entries} - {i}. ?h phase j)"
    by (intro sum.cong) auto
  then show ?thesis
    unfolding phase_hits_def split [of phase] split [of "phase(i := p)"] by simp
qed

lemma phase_hits_bound: "phase_hits entries ps k phase \<le> hits_on k entries"
proof -
  have "phase_hits entries ps k phase \<le> (\<Sum>i < length entries. if lt_Key (entries ! i) = k then unat (lt_Hits (entries ! i)) else 0)"
    unfolding phase_hits_def by (intro sum_mono) auto
  also have "\<dots> = hits_on k entries"
    unfolding hits_on_def
    by (induction entries) (auto simp: sum.lessThan_Suc_shift simp del: sum.lessThan_Suc cong: if_cong)
  finally show ?thesis .
qed

lemma phase_hits_mono: "ps \<subseteq> qs \<Longrightarrow> phase_hits entries ps k phase \<le> phase_hits entries qs k phase"
  unfolding phase_hits_def by (intro sum_mono) auto

abbreviation counted :: "check_phase set" where
  "counted \<equiv> {Over, Allowed, Refused}"

abbreviation refused :: "check_phase set" where
  "refused \<equiv> {Over, Refused, RefusedCached}"

definition counting ::
    "('w \<Rightarrow> string \<Rightarrow> nat) \<Rightarrow> ('w \<Rightarrow> string set) \<Rightarrow> (string \<Rightarrow> nat) \<Rightarrow> (string \<Rightarrow> nat) \<Rightarrow> limitType list
       \<Rightarrow> 'w checks \<Rightarrow> bool" where
  "counting count cached limit_of base entries st \<longleftrightarrow>
     (\<forall>k. count (rc_world st) k = base k + phase_hits entries counted k (rc_phase st)) \<and>
     (\<forall>k. base k + phase_hits entries {Allowed} k (rc_phase st) \<le> max (limit_of k) (base k)) \<and>
     (\<forall>k \<in> cached (rc_world st). limit_of k < count (rc_world st) k) \<and>
     (\<forall>i < length entries. rc_phase st i \<in> refused \<longrightarrow>
        limit_of (lt_Key (entries ! i)) < count (rc_world st) (lt_Key (entries ! i)))"

lemma countingD:
  assumes "counting count cached limit_of base entries st"
  shows "count (rc_world st) k = base k + phase_hits entries counted k (rc_phase st)"
    and "base k + phase_hits entries {Allowed} k (rc_phase st) \<le> max (limit_of k) (base k)"
    and "k \<in> cached (rc_world st) \<Longrightarrow> limit_of k < count (rc_world st) k"
    and "i < length entries \<Longrightarrow> rc_phase st i \<in> refused \<Longrightarrow>
      limit_of (lt_Key (entries ! i)) < count (rc_world st) (lt_Key (entries ! i))"
  using assms unfolding counting_def by blast+

lemma phase_hits_same:
  assumes "phase i \<in> ps \<longleftrightarrow> p \<in> ps"
  shows "phase_hits entries ps k (phase(i := p)) = phase_hits entries ps k phase"
  unfolding phase_hits_def using assms by (intro sum.cong) auto

lemma phase_hits_joins:
  assumes "i < length entries" and "phase i \<notin> ps" and "p \<in> ps"
  shows "phase_hits entries ps k (phase(i := p)) = phase_hits entries ps k phase +
    (if lt_Key (entries ! i) = k then unat (lt_Hits (entries ! i)) else 0)"
  using phase_hits_update [OF assms(1), of ps k phase p] assms(2,3) by simp

lemma counting_cache_turn:
  assumes store: "exact_store env count cached" and inv: "counting count cached limit_of base entries st"
    and phase: "rc_phase st i = Waiting" and i: "i < length entries"
  shows "counting count cached limit_of base entries (check_turn env entries i st)"
proof -
  let ?key = "lt_Key (entries ! i)" and ?p = "if lt_Key (entries ! i) \<in> cached (rc_world st) then RefusedCached else Missed"
  have st': "check_turn env entries i st = st\<lparr>rc_phase := (rc_phase st)(i := ?p)\<rparr>"
    using store i by (simp add: check_turn_def phase cache_turn_def exact_store_def)
  have "phase_hits entries ps k ((rc_phase st)(i := ?p)) = phase_hits entries ps k (rc_phase st)"
    if "ps \<subseteq> counted" for ps k using that phase by (intro phase_hits_same) auto
  with inv show ?thesis unfolding st' counting_def by auto
qed

lemma counting_note_turn:
  assumes store: "exact_store env count cached" and inv: "counting count cached limit_of base entries st"
    and phase: "rc_phase st i = Over" and i: "i < length entries"
  shows "counting count cached limit_of base entries (check_turn env entries i st)"
proof -
  let ?w = "cache_set env (lt_Key (entries ! i)) (lt_Expire (entries ! i)) (rc_world st)"
  have st': "check_turn env entries i st = st\<lparr>rc_world := ?w, rc_phase := (rc_phase st)(i := Refused)\<rparr>"
    using i by (simp add: check_turn_def phase note_turn_def)
  have w: "count ?w = count (rc_world st)" "cached ?w = insert (lt_Key (entries ! i)) (cached (rc_world st))"
    using store by (simp_all add: exact_store_def)
  have "phase_hits entries ps k ((rc_phase st)(i := Refused)) = phase_hits entries ps k (rc_phase st)"
    if "ps \<in> {counted, {Allowed}}" for ps k using that phase by (intro phase_hits_same) auto
  then have same: "phase_hits entries counted k ((rc_phase st)(i := Refused)) = phase_hits entries counted k (rc_phase st)"
    "phase_hits entries {Allowed} k ((rc_phase st)(i := Refused)) = phase_hits entries {Allowed} k (rc_phase st)" for k
    by auto
  from countingD(4) [OF inv i] phase have "limit_of (lt_Key (entries ! i)) < count (rc_world st) (lt_Key (entries ! i))"
    by simp
  with inv phase show ?thesis unfolding st' counting_def by (auto simp: w same)
qed

lemma counting_count_turn:
  assumes store: "exact_store env count cached" and inv: "counting count cached limit_of base entries st"
    and phase: "rc_phase st i = Missed" and i: "i < length entries"
    and lim: "unat (lt_Limit (entries ! i)) = limit_of (lt_Key (entries ! i))"
    and bound: "\<And>k. base k + hits_on k entries < 2 ^ 32"
  shows "counting count cached limit_of base entries (check_turn env entries i st)"
proof -
  let ?e = "entries ! i" and ?key = "lt_Key (entries ! i)" and ?h = "unat (lt_Hits (entries ! i))"
  let ?n = "count (rc_world st) ?key + ?h"
  obtain w where pipe: "redis_pipeline env ?key (format_uint ?h) (format_uint (unat (lt_Expire ?e))) (rc_world st) =
      ((Some (word_of_nat ?n), None), w)"
    and w: "count w = (count (rc_world st))(?key := ?n)" "cached w = cached (rc_world st)"
    by (rule exact_store_pipeline [OF store])
  have total: "count (rc_world st) k = base k + phase_hits entries counted k (rc_phase st)" for k
    using inv by (simp add: counting_def)
  have joins: "phase_hits entries counted k ((rc_phase st)(i := p)) = phase_hits entries counted k (rc_phase st) +
      (if ?key = k then ?h else 0)" if "p \<in> counted" for p k
    using phase_hits_joins [OF i, of "rc_phase st" counted p k] phase that by simp
  have "?n = base ?key + phase_hits entries counted ?key ((rc_phase st)(i := Over))"
    using total [of ?key] joins [of Over ?key] by simp
  also have "\<dots> < 2 ^ 32" using phase_hits_bound [of entries counted ?key] bound [of ?key]
    by (meson add_left_mono le_less_trans)
  finally have n: "unat (word_of_nat ?n :: u32) = ?n" by (simp only: unat_of_nat) simp
  then have over: "lt_Limit ?e < word_of_nat ?n \<longleftrightarrow> limit_of ?key < ?n"
    by (simp add: word_less_nat_alt lim)
  let ?p = "if limit_of ?key < ?n then Over else Allowed"
  have st': "check_turn env entries i st = st\<lparr>rc_world := w, rc_phase := (rc_phase st)(i := ?p)\<rparr>"
    using i over by (simp add: check_turn_def phase count_turn_def pipe)
  have grows: "count (rc_world st) k \<le> count w k" for k by (simp add: w)
  show ?thesis unfolding counting_def st'
  proof (intro conjI allI ballI impI)
    fix k
    show "count (rc_world (st\<lparr>rc_world := w, rc_phase := (rc_phase st)(i := ?p)\<rparr>)) k =
        base k + phase_hits entries counted k (rc_phase (st\<lparr>rc_world := w, rc_phase := (rc_phase st)(i := ?p)\<rparr>))"
      using joins [of ?p k] total [of k] total [of ?key] by (simp add: w)
    show "base k + phase_hits entries {Allowed} k (rc_phase (st\<lparr>rc_world := w, rc_phase := (rc_phase st)(i := ?p)\<rparr>))
        \<le> max (limit_of k) (base k)"
    proof (cases "limit_of ?key < ?n")
      case True
      then have "phase_hits entries {Allowed} k ((rc_phase st)(i := ?p)) = phase_hits entries {Allowed} k (rc_phase st)"
        using phase by (intro phase_hits_same) simp
      with inv show ?thesis by (simp add: counting_def)
    next
      case False
      then have "phase_hits entries {Allowed} k ((rc_phase st)(i := ?p)) =
          phase_hits entries {Allowed} k (rc_phase st) + (if ?key = k then ?h else 0)"
        using phase_hits_joins [OF i, of "rc_phase st" "{Allowed}" ?p k] phase by simp
      moreover have "phase_hits entries {Allowed} k (rc_phase st) \<le> phase_hits entries counted k (rc_phase st)"
        by (rule phase_hits_mono) simp
      moreover from False total have "base ?key + phase_hits entries counted ?key (rc_phase st) + ?h \<le> limit_of ?key"
        by simp
      ultimately show ?thesis using inv by (cases "?key = k") (auto simp: counting_def)
    qed
  next
    fix k assume "k \<in> cached (rc_world (st\<lparr>rc_world := w, rc_phase := (rc_phase st)(i := ?p)\<rparr>))"
    then have "k \<in> cached (rc_world st)" by (simp add: w)
    with countingD(3) [OF inv] have "limit_of k < count (rc_world st) k" by blast
    with grows [of k] show "limit_of k < count (rc_world (st\<lparr>rc_world := w, rc_phase := (rc_phase st)(i := ?p)\<rparr>)) k"
      by simp
  next
    fix j assume j: "j < length entries"
      "rc_phase (st\<lparr>rc_world := w, rc_phase := (rc_phase st)(i := ?p)\<rparr>) j \<in> refused"
    show "limit_of (lt_Key (entries ! j)) <
        count (rc_world (st\<lparr>rc_world := w, rc_phase := (rc_phase st)(i := ?p)\<rparr>)) (lt_Key (entries ! j))"
    proof (cases "j = i")
      case True
      with j(2) show ?thesis by (simp add: w split: if_splits)
    next
      case False
      with j countingD(4) [OF inv j(1)] have "limit_of (lt_Key (entries ! j)) < count (rc_world st) (lt_Key (entries ! j))"
        by simp
      with grows [of "lt_Key (entries ! j)"] show ?thesis by simp
    qed
  qed
qed

lemma counting_turn:
  assumes "exact_store env count cached" and inv: "counting count cached limit_of base entries st"
    and lim: "\<forall>l \<in> set entries. unat (lt_Limit l) = limit_of (lt_Key l)"
    and "\<And>k. base k + hits_on k entries < 2 ^ 32"
  shows "counting count cached limit_of base entries (check_turn env entries i st)"
proof (cases "i < length entries")
  case i: True
  then have "unat (lt_Limit (entries ! i)) = limit_of (lt_Key (entries ! i))" using lim by simp
  note turns = counting_cache_turn [OF assms(1) inv _ i] counting_count_turn [OF assms(1) inv _ i this assms(4)]
    counting_note_turn [OF assms(1) inv _ i]
  show ?thesis
  proof (cases "rc_phase st i \<in> {Waiting, Missed, Over}")
    case True
    with turns show ?thesis by blast
  next
    case False
    then have "phase_turn env (entries ! i) (rc_phase st i) (rc_world st) = (rc_phase st i, rc_world st)"
      by (cases "rc_phase st i") auto
    then have "check_turn env entries i st = st" using i by (simp add: check_turn_def)
    with inv show ?thesis by simp
  qed
qed (use inv in \<open>simp add: check_turn_def\<close>)

lemma counting_run:
  assumes "exact_store env count cached" and "\<forall>l \<in> set entries. unat (lt_Limit l) = limit_of (lt_Key l)"
    and "\<And>k. base k + hits_on k entries < 2 ^ 32" and "counting count cached limit_of base entries st"
  shows "counting count cached limit_of base entries (fold (check_turn env entries) schedule st)"
  using assms(4)
proof (induction schedule arbitrary: st)
  case (Cons i schedule)
  from Cons.IH [OF counting_turn [OF assms(1) Cons.prems assms(2,3)]] show ?case by simp
qed simp

lemma phase_hits_waiting: "Waiting \<notin> ps \<Longrightarrow> phase_hits entries ps k (\<lambda>i. Waiting) = 0"
  by (simp add: phase_hits_def)

lemma counting_start:
  "cached w = {} \<Longrightarrow> counting count cached limit_of (count w) entries (waiting_checks w)"
  by (simp add: counting_def waiting_checks_def phase_hits_waiting)



end
