(* ===== verification/RateLimitExpiry.thy ===== *)
theory RateLimitExpiry
  imports RateLimitWindow
begin

text \<open>
  The rate limiter over any length of time, on a store that forgets: Redis drops a counter when
  its time to live is over, the local cache may drop an entry whenever it likes, and the clock
  goes on between requests.  A limit is enforced in every window nevertheless, as if each window had
  a counter of its own that never expires.
\<close>

section \<open>A store that forgets\<close>

text \<open>
  The documented behaviour of the clock, Redis and the cache, over the counters \<open>count\<close>, the times
  at which they expire (in seconds, not before the last \<open>EXPIRE\<close> says), the cached keys and the
  time of the last reading.  Readings do not go backwards, counters expire when the clock is read,
  and the cache may lose entries in every call.
\<close>

definition expiring_store ::
    "'w rl_env \<Rightarrow> ('w \<Rightarrow> nat) \<Rightarrow> ('w \<Rightarrow> string \<Rightarrow> nat) \<Rightarrow> ('w \<Rightarrow> string \<Rightarrow> nat) \<Rightarrow> ('w \<Rightarrow> string set) \<Rightarrow> bool" where
  "expiring_store env clock count expires cached \<longleftrightarrow>
     (\<forall>w t w1. now_unix env w = (t, w1) \<longrightarrow>
        clock w \<le> unat t \<and> clock w1 = unat t \<and> expires w1 = expires w \<and> cached w1 \<subseteq> cached w \<and>
        (\<forall>k. count w1 k = (if unat t < expires w k then count w k else 0))) \<and>
     (\<forall>k w. \<exists>w1. cache_get env k w = (k \<in> cached w, w1) \<and> clock w1 = clock w \<and> count w1 = count w \<and>
        expires w1 = expires w \<and> cached w1 \<subseteq> cached w) \<and>
     (\<forall>k e w. clock (cache_set env k e w) = clock w \<and> count (cache_set env k e w) = count w \<and>
        expires (cache_set env k e w) = expires w \<and> cached (cache_set env k e w) \<subseteq> insert k (cached w)) \<and>
     (\<forall>k h e w. \<exists>w1 t. redis_pipeline env k h e w = ((Some (word_of_nat (count w k + digits_value h)), None), w1) \<and>
        clock w1 = clock w \<and> count w1 = (count w)(k := count w k + digits_value h) \<and>
        clock w + digits_value e \<le> t \<and> expires w1 = (expires w)(k := t) \<and> cached w1 \<subseteq> cached w)"

lemma expiring_now:
  assumes "expiring_store env clock count expires cached" and "now_unix env w = (t, w1)"
  shows "clock w \<le> unat t" and "clock w1 = unat t" and "expires w1 = expires w" and "cached w1 \<subseteq> cached w"
    and "count w1 key = (if unat t < expires w key then count w key else 0)"
  using assms unfolding expiring_store_def by blast+

lemma expiring_cache_get:
  assumes "expiring_store env clock count expires cached"
  obtains w1 where "cache_get env k w = (k \<in> cached w, w1)" and "clock w1 = clock w" and "count w1 = count w"
    and "expires w1 = expires w" and "cached w1 \<subseteq> cached w"
  using assms unfolding expiring_store_def by blast

lemma expiring_cache_set:
  assumes "expiring_store env clock count expires cached"
  shows "clock (cache_set env k e w) = clock w" and "count (cache_set env k e w) = count w"
    and "expires (cache_set env k e w) = expires w" and "cached (cache_set env k e w) \<subseteq> insert k (cached w)"
  using assms unfolding expiring_store_def by blast+

lemma expiring_pipeline:
  assumes "expiring_store env clock count expires cached"
  obtains w1 t where "redis_pipeline env k (format_uint h) (format_uint e) w =
      ((Some (word_of_nat (count w k + h)), None), w1)"
    and "clock w1 = clock w" and "count w1 = (count w)(k := count w k + h)"
    and "clock w + e \<le> t" and "expires w1 = (expires w)(k := t)" and "cached w1 \<subseteq> cached w"
proof -
  from assms have "\<exists>w1 t. redis_pipeline env k (format_uint h) (format_uint e) w =
      ((Some (word_of_nat (count w k + digits_value (format_uint h))), None), w1) \<and>
      clock w1 = clock w \<and> count w1 = (count w)(k := count w k + digits_value (format_uint h)) \<and>
      clock w + digits_value (format_uint e) \<le> t \<and> expires w1 = (expires w)(k := t) \<and> cached w1 \<subseteq> cached w"
    unfolding expiring_store_def by blast
  then show ?thesis unfolding digits_value_format_uint by (auto intro: that)
qed

section \<open>Windows\<close>

text \<open>The key, the start and the end of the window of a time.\<close>

definition time_key :: "string \<Rightarrow> u64 \<Rightarrow> u64 \<Rightarrow> string" where
  "time_key k d t = window_key k d (t div d)"

definition window_end :: "u64 \<Rightarrow> u64 \<Rightarrow> nat" where
  "window_end d t = unat (t div d * d) + unat d"

lemma time_key_inject: "d \<noteq> 0 \<Longrightarrow> time_key k d t1 = time_key k d t2 \<longleftrightarrow> t1 div d = t2 div d"
  by (simp add: time_key_def window_key_def format_uint_inject div_times_inject)

lemma window_end_cong: "t1 div d = t2 div d \<Longrightarrow> window_end d t1 = window_end d t2"
  by (simp add: window_end_def)

lemma time_in_window:
  fixes t d :: u64
  assumes "d \<noteq> 0"
  shows "unat t < window_end d t"
proof -
  have "unat t mod unat d < unat d" using assms by (simp add: unat_gt_0)
  then show ?thesis
    unfolding window_end_def unat_window_start using div_mult_mod_eq [of "unat t" "unat d"] by linarith
qed

lemma window_end_later: "window_end d t \<le> unat t + unat d"
  by (simp add: window_end_def unat_window_start div_times_less_eq_dividend)

text \<open>
  The store follows a counter per window, for the windows that are not over: it has the counter's
  value or, once hits are refused by the cache, a value above the limit; what the window has
  counted does not expire before it is over.
\<close>

definition follows ::
    "('w \<Rightarrow> nat) \<Rightarrow> ('w \<Rightarrow> string \<Rightarrow> nat) \<Rightarrow> ('w \<Rightarrow> string \<Rightarrow> nat) \<Rightarrow> ('w \<Rightarrow> string set) \<Rightarrow>
       string \<Rightarrow> u64 \<Rightarrow> nat \<Rightarrow> 'w \<Rightarrow> (u64 \<Rightarrow> nat) \<Rightarrow> bool" where
  "follows clock count expires cached k d limit w c \<longleftrightarrow>
     (\<forall>t. clock w < window_end d t \<longrightarrow>
        (time_key k d t \<in> cached w \<longrightarrow> limit < c (t div d)) \<and>
        (count w (time_key k d t) = c (t div d) \<or>
           limit < count w (time_key k d t) \<and> count w (time_key k d t) \<le> c (t div d)) \<and>
        (0 < c (t div d) \<longrightarrow> window_end d t \<le> expires w (time_key k d t)))"

lemma followsD:
  assumes "follows clock count expires cached k d limit w c" and "clock w < window_end d t"
  shows "time_key k d t \<in> cached w \<Longrightarrow> limit < c (t div d)"
    and "count w (time_key k d t) = c (t div d) \<or>
      limit < count w (time_key k d t) \<and> count w (time_key k d t) \<le> c (t div d)"
    and "0 < c (t div d) \<Longrightarrow> window_end d t \<le> expires w (time_key k d t)"
  using assms unfolding follows_def by blast+

text \<open>Time passes: what expires belongs to windows that are over.\<close>

lemma follows_now:
  assumes store: "expiring_store env clock count expires cached" and now: "now_unix env w = (t, w1)"
    and inv: "follows clock count expires cached k d limit w c"
  shows "follows clock count expires cached k d limit w1 c"
  unfolding follows_def
proof (intro allI impI)
  fix s assume "clock w1 < window_end d s"
  then have t: "unat t < window_end d s" "clock w < window_end d s"
    using expiring_now(1,2) [OF store now] by simp_all
  note old = followsD [OF inv t(2)]
  have "count w1 (time_key k d s) = count w (time_key k d s)"
  proof (cases "0 < c (s div d)")
    case True
    with old(3) t(1) have "unat t < expires w (time_key k d s)" by linarith
    then show ?thesis by (simp add: expiring_now(5) [OF store now])
  next
    case False
    with old(2) show ?thesis by (auto simp: expiring_now(5) [OF store now])
  qed
  with old expiring_now(3,4) [OF store now]
  show "(time_key k d s \<in> cached w1 \<longrightarrow> limit < c (s div d)) \<and>
      (count w1 (time_key k d s) = c (s div d) \<or>
        limit < count w1 (time_key k d s) \<and> count w1 (time_key k d s) \<le> c (s div d)) \<and>
      (0 < c (s div d) \<longrightarrow> window_end d s \<le> expires w1 (time_key k d s))"
    by (metis (no_types, lifting) subsetD)
qed

text \<open>Hits in the window of \<open>t\<close> concern its key only.\<close>

lemma follows_update:
  assumes d: "d \<noteq> 0" and inv: "follows clock count expires cached k d limit w c" and "clock w' = clock w"
    and own: "time_key k d t \<in> cached w' \<Longrightarrow> limit < n"
      "count w' (time_key k d t) = n \<or> limit < count w' (time_key k d t) \<and> count w' (time_key k d t) \<le> n"
      "window_end d t \<le> expires w' (time_key k d t)"
    and others: "\<And>j. j \<noteq> time_key k d t \<Longrightarrow>
      (j \<in> cached w' \<longrightarrow> j \<in> cached w) \<and> count w' j = count w j \<and> expires w' j = expires w j"
  shows "follows clock count expires cached k d limit w' (c(t div d := n))"
  unfolding follows_def
proof (intro allI impI)
  fix s assume "clock w' < window_end d s"
  then have "clock w < window_end d s" using assms(3) by simp
  note old = followsD [OF inv this]
  show "(time_key k d s \<in> cached w' \<longrightarrow> limit < (c(t div d := n)) (s div d)) \<and>
      (count w' (time_key k d s) = (c(t div d := n)) (s div d) \<or>
        limit < count w' (time_key k d s) \<and> count w' (time_key k d s) \<le> (c(t div d := n)) (s div d)) \<and>
      (0 < (c(t div d := n)) (s div d) \<longrightarrow> window_end d s \<le> expires w' (time_key k d s))"
  proof (cases "s div d = t div d")
    case True
    then have "time_key k d s = time_key k d t" "window_end d s = window_end d t"
      by (simp_all add: time_key_def window_end_def)
    with own True show ?thesis by simp
  next
    case False
    then have "time_key k d s \<noteq> time_key k d t" by (simp add: time_key_inject [OF d])
    from others [OF this] old False show ?thesis by simp
  qed
qed

section \<open>Requests\<close>

text \<open>The check of a limit in the window of the last reading \<open>t\<close>.\<close>

lemma check_limit_follows:
  assumes store: "expiring_store env clock count expires cached" and d: "d \<noteq> 0"
    and inv: "follows clock count expires cached k d (unat (lt_Limit l)) w c" and t: "clock w = unat t"
    and l: "lt_Key l = time_key k d t" "lt_Expire l = d" and bound: "c (t div d) + unat (lt_Hits l) < 2 ^ 32"
  shows "\<exists>w'. check_limit env l (res, w) =
      (add_verdict (verdict_at (unat (lt_Limit l)) (c (t div d) + unat (lt_Hits l))) res, w') \<and>
    follows clock count expires cached k d (unat (lt_Limit l)) w' (c(t div d := c (t div d) + unat (lt_Hits l))) \<and>
    clock w' = clock w"
proof -
  let ?limit = "unat (lt_Limit l)" and ?n = "c (t div d) + unat (lt_Hits l)" and ?key = "time_key k d t"
  have here: "clock w < window_end d t" using time_in_window [OF d, of t] t by simp
  note own = followsD [OF inv here]
  obtain w1 where get: "cache_get env ?key w = (?key \<in> cached w, w1)"
    and w1: "clock w1 = clock w" "count w1 = count w" "expires w1 = expires w" "cached w1 \<subseteq> cached w"
    by (rule expiring_cache_get [OF store])
  show ?thesis
  proof (cases "?key \<in> cached w")
    case True
    with own(1) have over: "?limit < c (t div d)" by simp
    have "follows clock count expires cached k d ?limit w1 (c(t div d := ?n))"
    proof (rule follows_update [OF d inv w1(1)])
      show "count w1 ?key = ?n \<or> ?limit < count w1 ?key \<and> count w1 ?key \<le> ?n"
        using own(2) over w1(2) by auto
      show "window_end d t \<le> expires w1 ?key" using own(3) over w1(3) by simp
    qed (use over w1 in auto)
    with True get over l(1) w1(1) show ?thesis
      by (auto simp: check_limit_def add_verdict_def verdict_at_def)
  next
    case False
    let ?m = "count w ?key + unat (lt_Hits l)"
    obtain w2 e where raw: "redis_pipeline env ?key (format_uint (unat (lt_Hits l))) (format_uint (unat d)) w1 =
        ((Some (word_of_nat (count w1 ?key + unat (lt_Hits l))), None), w2)"
      "clock w2 = clock w1" "count w2 = (count w1)(?key := count w1 ?key + unat (lt_Hits l))"
      "clock w1 + unat d \<le> e" "expires w2 = (expires w1)(?key := e)" "cached w2 \<subseteq> cached w1"
      by (rule expiring_pipeline [OF store])
    note pipe = raw(1) [unfolded w1(2)]
    have w2: "clock w2 = clock w" "count w2 = (count w)(?key := ?m)" "unat t + unat d \<le> e"
        "expires w2 = (expires w)(?key := e)" "cached w2 \<subseteq> cached w"
      using raw(2-5) subset_trans [OF raw(6) w1(4)] unfolding w1(1-3) t by (simp_all only:)
    have n: "?m = ?n \<or> ?limit < ?m \<and> ?m \<le> ?n" using own(2) by linarith
    with bound have m: "unat (word_of_nat ?m :: u32) = ?m" by (simp only: unat_of_nat) auto
    then have gt: "word_of_nat ?m > lt_Limit l \<longleftrightarrow> ?limit < ?n"
      using n by (simp only: word_less_nat_alt) linarith
    have later: "window_end d t \<le> e" using window_end_later [of d t] w2(3) by linarith
    let ?w' = "if ?limit < ?n then cache_set env ?key d w2 else w2"
    have w': "clock ?w' = clock w" "count ?w' = count w2" "expires ?w' = expires w2"
      "cached ?w' \<subseteq> (if ?limit < ?n then insert ?key (cached w) else cached w)"
      using w2(1,5) expiring_cache_set [OF store, of ?key d w2] by auto
    have "follows clock count expires cached k d ?limit ?w' (c(t div d := ?n))"
    proof (rule follows_update [OF d inv w'(1)])
      show "count ?w' ?key = ?n \<or> ?limit < count ?w' ?key \<and> count ?w' ?key \<le> ?n"
        using n unfolding w'(2) w2(2) by simp
      show "window_end d t \<le> expires ?w' ?key" using later unfolding w'(3) w2(4) by simp
      show "?limit < ?n" if "?key \<in> cached ?w'" using that w'(4) False by (cases "?limit < ?n") auto
      show "(j \<in> cached ?w' \<longrightarrow> j \<in> cached w) \<and> count ?w' j = count w j \<and> expires ?w' j = expires w j"
        if "j \<noteq> ?key" for j
        using that w'(4) unfolding w'(2,3) w2(2,4) by (cases "?limit < ?n") auto
    qed
    with False get pipe gt l w'(1) show ?thesis
      by (auto simp: check_limit_def add_verdict_def verdict_at_def)
  qed
qed

lemma ShouldRateLimit_follows:
  assumes store: "expiring_store env clock count expires cached" and d: "d \<noteq> 0"
    and cfg: "rl_config s = Some cc" and unit: "unitToDivider (ce_Unit ce) = Inr d"
    and r: "on_counter cc k ce r" and now: "now_unix env w = (t, w1)"
    and inv: "follows clock count expires cached k d (unat (ce_Limit ce)) w c"
    and bound: "c (t div d) + hits_of r < 2 ^ 32"
  shows "\<exists>w'. rl_ShouldRateLimit env s r w =
      (let v = verdict_at (unat (ce_Limit ce)) (c (t div d) + hits_of r)
       in Inr (\<lparr>rs_OverallCode = v, rs_Statuses = [v]\<rparr>, None, w')) \<and>
    follows clock count expires cached k d (unat (ce_Limit ce)) w' (c(t div d := c (t div d) + hits_of r))"
proof -
  obtain dm e where dm: "cc_Domains cc (rq_Domain r) = Some dm" "rq_Descriptors r = [[e]]"
    and k: "combined_key dm e = k" "cd_Entries dm k = Some ce"
    using r by (rule on_counterE)
  let ?l = "\<lparr>lt_Key = time_key k d t, lt_Limit = ce_Limit ce,
    lt_Hits = max_u32 1 (rq_HitsAddend r), lt_Result = 0, lt_Expire = d\<rparr>"
  have limits: "collect_limits env dm (max_u32 1 (rq_HitsAddend r)) (rq_Descriptors r) w = Inr ([[?l]], w1)"
    using dm k unit now by (simp add: findDescriptor_def time_key_def window_key_def Let_def)
  have l: "unat (lt_Limit ?l) = unat (ce_Limit ce)" "unat (lt_Hits ?l) = hits_of r"
    by (simp_all add: hits_of_def)
  have "follows clock count expires cached k d (unat (lt_Limit ?l)) w1 c"
    using follows_now [OF store now inv] l by simp
  from check_limit_follows [OF store d this expiring_now(2) [OF store now],
      where res = "\<lparr>rs_OverallCode = CODE_OK, rs_Statuses = []\<rparr>"] bound l
  obtain w' where "check_limit env ?l (\<lparr>rs_OverallCode = CODE_OK, rs_Statuses = []\<rparr>, w1) =
      (add_verdict (verdict_at (unat (ce_Limit ce)) (c (t div d) + hits_of r))
         \<lparr>rs_OverallCode = CODE_OK, rs_Statuses = []\<rparr>, w')"
    and "follows clock count expires cached k d (unat (ce_Limit ce)) w' (c(t div d := c (t div d) + hits_of r))"
    by auto
  with limits dm cfg show ?thesis
    by (auto simp: rl_ShouldRateLimit_def Let_def check_limits_def verdict_at_def add_verdict_def
        simp del: fun_upd_apply)
qed

text \<open>The times read for a sequence of requests.\<close>

fun rl_readings :: "'w rl_env \<Rightarrow> rl_Service \<Rightarrow> RateLimitRequest list \<Rightarrow> 'w \<Rightarrow> u64 list" where
  "rl_readings env s [] w = []"
| "rl_readings env s (r # rs) w =
     fst (now_unix env w) #
       (case rl_ShouldRateLimit env s r w of Inl p \<Rightarrow> [] | Inr (res, err, w1) \<Rightarrow> rl_readings env s rs w1)"

text \<open>The reference: a counter for each window, started at nothing.\<close>

fun window_verdicts :: "nat \<Rightarrow> u64 \<Rightarrow> (u64 \<Rightarrow> nat) \<Rightarrow> (u64 \<times> nat) list \<Rightarrow> RLCode list" where
  "window_verdicts limit d c [] = []"
| "window_verdicts limit d c ((t, h) # xs) =
     (let n = c (t div d) + h in verdict_at limit n # window_verdicts limit d (c(t div d := n)) xs)"

lemma rl_run_follows:
  assumes store: "expiring_store env clock count expires cached" and d: "d \<noteq> 0"
    and cfg: "rl_config s = Some cc" and unit: "unitToDivider (ce_Unit ce) = Inr d"
    and "\<forall>r \<in> set reqs. on_counter cc k ce r"
    and "follows clock count expires cached k d (unat (ce_Limit ce)) w c"
    and "\<forall>win. c win + sum_list (map hits_of reqs) < 2 ^ 32"
  shows "\<exists>ress w'. rl_run env s reqs w = Inr (ress, w') \<and> length (rl_readings env s reqs w) = length reqs \<and>
    map rs_OverallCode ress =
      window_verdicts (unat (ce_Limit ce)) d c (zip (rl_readings env s reqs w) (map hits_of reqs))"
  using assms(5-)
proof (induction reqs arbitrary: w c)
  case (Cons r rs)
  obtain t w0 where now: "now_unix env w = (t, w0)" by fastforce
  let ?n = "c (t div d) + hits_of r"
  let ?v = "verdict_at (unat (ce_Limit ce)) ?n"
  have "?n + sum_list (map hits_of rs) < 2 ^ 32"
    using Cons.prems(3) [rule_format, of "t div d"] by (simp add: add.assoc)
  then have bound: "?n < 2 ^ 32" and "(c(t div d := ?n)) win + sum_list (map hits_of rs) < 2 ^ 32" for win
    using Cons.prems(3) [rule_format, of win] by (simp_all add: add_lessD1)
  moreover obtain w1 where step: "rl_ShouldRateLimit env s r w = Inr (\<lparr>rs_OverallCode = ?v, rs_Statuses = [?v]\<rparr>, None, w1)"
    and inv: "follows clock count expires cached k d (unat (ce_Limit ce)) w1 (c(t div d := ?n))"
    using ShouldRateLimit_follows [OF store d cfg unit _ now Cons.prems(2) bound] Cons.prems(1)
    by (auto simp: Let_def)
  ultimately obtain ress w' where "rl_run env s rs w1 = Inr (ress, w')"
    "length (rl_readings env s rs w1) = length rs"
    "map rs_OverallCode ress = window_verdicts (unat (ce_Limit ce)) d (c(t div d := ?n))
       (zip (rl_readings env s rs w1) (map hits_of rs))"
    using Cons.IH [OF _ inv] Cons.prems(1) by (auto simp del: fun_upd_apply)
  with step now show ?case by (simp add: Let_def)
qed simp

lemma window_verdicts_nth:
  "i < length xs \<Longrightarrow> window_verdicts limit d c xs ! i =
     verdict_at limit (c (fst (xs ! i) div d) +
       sum_list (map snd [x \<leftarrow> take (Suc i) xs. fst x div d = fst (xs ! i) div d]))"
proof (induction xs arbitrary: c i)
  case (Cons x xs)
  obtain t h where x: "x = (t, h)" by fastforce
  show ?case
  proof (cases i)
    case (Suc j)
    with Cons.prems have "j < length xs" by simp
    from Cons.IH [OF this, of "c(t div d := c (t div d) + h)"] show ?thesis
      by (simp add: x Suc Let_def fun_upd_def add.assoc)
  qed (simp add: x Let_def)
qed simp

text \<open>C1: limits are enforced exactly in every window: started on an empty store, whatever expires and
  whatever the cache loses, a request is over the limit exactly if the hits read in its window
  up to and including its own exceed the limit; hits of other windows do not count.\<close>

theorem rl_every_window_enforced:
  assumes "expiring_store env clock count expires cached" and "\<forall>key. count w key = 0" and "cached w = {}"
    and "rl_config s = Some cc" and "unitToDivider (ce_Unit ce) = Inr d"
    and "\<forall>r \<in> set reqs. on_counter cc k ce r" and "sum_list (map hits_of reqs) < 2 ^ 32"
  shows "\<exists>ress w'. rl_run env s reqs w = Inr (ress, w') \<and> length ress = length reqs \<and>
    (let calls = zip (rl_readings env s reqs w) (map hits_of reqs)
     in length calls = length reqs \<and>
       (\<forall>i < length reqs. rs_OverallCode (ress ! i) =
          (if unat (ce_Limit ce) <
              sum_list (map snd [x \<leftarrow> take (Suc i) calls. fst x div d = fst (calls ! i) div d])
           then CODE_OVER_LIMIT else CODE_OK)))"
proof -
  have d: "d \<noteq> 0" using assms(5) by (cases "ce_Unit ce") auto
  have "follows clock count expires cached k d (unat (ce_Limit ce)) w (\<lambda>_. 0)"
    using assms(2,3) by (simp add: follows_def)
  from rl_run_follows [OF assms(1) d assms(4-6) this] assms(7)
  obtain ress w' where run: "rl_run env s reqs w = Inr (ress, w')"
    and len: "length (rl_readings env s reqs w) = length reqs"
    and v: "map rs_OverallCode ress =
      window_verdicts (unat (ce_Limit ce)) d (\<lambda>_. 0) (zip (rl_readings env s reqs w) (map hits_of reqs))" by auto
  let ?calls = "zip (rl_readings env s reqs w) (map hits_of reqs)"
  have calls: "length ?calls = length reqs" using len by simp
  have "length (window_verdicts l d c xs) = length xs" for l c xs
    by (induction l d c xs rule: window_verdicts.induct) (simp_all add: Let_def fun_upd_def)
  with arg_cong [OF v, of length] calls have ress: "length ress = length reqs" by simp
  have "rs_OverallCode (ress ! i) = verdict_at (unat (ce_Limit ce))
      (sum_list (map snd [x \<leftarrow> take (Suc i) ?calls. fst x div d = fst (?calls ! i) div d]))" if "i < length reqs" for i
    using arg_cong [OF v, of "\<lambda>vs. vs ! i"] that ress calls by (simp only: nth_map window_verdicts_nth add_0)
  with run ress calls show ?thesis unfolding verdict_at_def Let_def by blast
qed

text \<open>A store in memory whose clock runs through a list of times.\<close>

record tick_store =
  tk_clock :: u64
  tk_times :: "u64 list"
  tk_counts :: "string \<Rightarrow> nat"
  tk_expires :: "string \<Rightarrow> nat"
  tk_cached :: "string set"

definition tick :: "tick_store \<Rightarrow> u64" where
  "tick w = (case tk_times w of [] \<Rightarrow> tk_clock w | t # ts \<Rightarrow> if tk_clock w \<le> t then t else tk_clock w)"

definition tick_env :: "tick_store rl_env" where
  "tick_env = \<lparr>
     now_unix = (\<lambda>w. (tick w, w\<lparr>tk_clock := tick w, tk_times := tl (tk_times w),
       tk_counts := (\<lambda>k. if unat (tick w) < tk_expires w k then tk_counts w k else 0), tk_cached := {}\<rparr>)),
     cache_get = (\<lambda>k w. (k \<in> tk_cached w, w)),
     cache_set = (\<lambda>k e w. w\<lparr>tk_cached := insert k (tk_cached w)\<rparr>),
     redis_pipeline = (\<lambda>k h e w.
       ((Some (word_of_nat (tk_counts w k + digits_value h)), None),
        w\<lparr>tk_counts := (tk_counts w)(k := tk_counts w k + digits_value h),
          tk_expires := (tk_expires w)(k := unat (tk_clock w) + digits_value e)\<rparr>))\<rparr>"

definition tick_start :: "u64 list \<Rightarrow> tick_store" where
  "tick_start ts = \<lparr>tk_clock = 0, tk_times = ts, tk_counts = (\<lambda>_. 0), tk_expires = (\<lambda>_. 0), tk_cached = {}\<rparr>"

lemma tick_env_store: "expiring_store tick_env (\<lambda>w. unat (tk_clock w)) tk_counts tk_expires tk_cached"
proof -
  have "unat (tk_clock w) \<le> unat (tick w)" for w
    by (auto simp: tick_def word_le_nat_alt split: list.split)
  then show ?thesis by (auto simp: expiring_store_def tick_env_def)
qed

lemma tick_check_limit:
  "tk_times (snd (check_limit tick_env l (res, w))) = tk_times w \<and>
   tk_clock (snd (check_limit tick_env l (res, w))) = tk_clock w"
  by (auto simp: check_limit_def tick_env_def Let_def split: prod.splits)

lemma tick_request:
  assumes "rl_config s = Some cc" and "unitToDivider (ce_Unit ce) = Inr d" and "on_counter cc k ce r"
  shows "\<exists>res err w1. rl_ShouldRateLimit tick_env s r w = Inr (res, err, w1) \<and>
    tk_times w1 = tl (tk_times w) \<and> tk_clock w1 = tick w"
proof -
  obtain dm e where dm: "cc_Domains cc (rq_Domain r) = Some dm" "rq_Descriptors r = [[e]]"
    and k: "combined_key dm e = k" "cd_Entries dm k = Some ce"
    using assms(3) by (rule on_counterE)
  obtain w0 where now: "now_unix tick_env w = (tick w, w0)" and w0: "tk_times w0 = tl (tk_times w)" "tk_clock w0 = tick w"
    by (simp add: tick_env_def)
  let ?l = "\<lparr>lt_Key = time_key k d (tick w), lt_Limit = ce_Limit ce,
    lt_Hits = max_u32 1 (rq_HitsAddend r), lt_Result = 0, lt_Expire = d\<rparr>"
  have limits: "collect_limits tick_env dm (max_u32 1 (rq_HitsAddend r)) (rq_Descriptors r) w = Inr ([[?l]], w0)"
    using dm k assms(2) now by (simp add: findDescriptor_def time_key_def window_key_def Let_def)
  obtain res w1 where check: "check_limit tick_env ?l (\<lparr>rs_OverallCode = CODE_OK, rs_Statuses = []\<rparr>, w0) = (res, w1)"
    by fastforce
  with tick_check_limit [of ?l "\<lparr>rs_OverallCode = CODE_OK, rs_Statuses = []\<rparr>" w0]
  have "tk_times w1 = tl (tk_times w) \<and> tk_clock w1 = tick w" using w0 by simp
  with check limits dm assms(1) show ?thesis
    by (auto simp: rl_ShouldRateLimit_def Let_def check_limits_def)
qed

lemma tick_readings:
  assumes "rl_config s = Some cc" and "unitToDivider (ce_Unit ce) = Inr d" and "\<forall>r \<in> set reqs. on_counter cc k ce r"
    and "sorted (tk_clock w # tk_times w)" and "length reqs \<le> length (tk_times w)"
  shows "rl_readings tick_env s reqs w = take (length reqs) (tk_times w)"
  using assms(3-)
proof (induction reqs arbitrary: w)
  case (Cons r rs)
  then obtain t ts where times: "tk_times w = t # ts" by (cases "tk_times w") auto
  with Cons.prems(2) have t: "tick w = t" by (simp add: tick_def)
  from tick_request [OF assms(1,2), of k r w] Cons.prems(1) obtain res err w1 where
    step: "rl_ShouldRateLimit tick_env s r w = Inr (res, err, w1)" "tk_times w1 = ts" "tk_clock w1 = t"
    using times t by auto
  have "fst (now_unix tick_env w) = t" using t by (simp add: tick_env_def)
  with Cons.IH [of w1] Cons.prems step times show ?case by simp
qed simp

text \<open>Of three requests of three hits on a limit of five a minute, two in the first minute and one in the
  second, the second is refused.\<close>

theorem rl_every_window_enforced_witness:
  "\<exists>ress w'. rl_run tick_env \<lparr>rl_config = Some two_domains\<rparr> (replicate 3 (path_request ''web''))
       (tick_start [61, 119, 120]) = Inr (ress, w') \<and>
     map rs_OverallCode ress = [CODE_OK, CODE_OVER_LIMIT, CODE_OK]"
proof -
  let ?s = "\<lparr>rl_config = Some two_domains\<rparr>" and ?ce = "\<lparr>ce_Limit = 5, ce_Unit = UNIT_MINUTE\<rparr>"
    and ?reqs = "replicate 3 (path_request ''web'')" and ?w = "tick_start [61, 119, 120]"
  have on: "\<forall>r \<in> set ?reqs. on_counter two_domains ''path/a'' ?ce r"
    using path_request_on_counter [of "''web''"] by simp
  have zero: "\<forall>key. tk_counts ?w key = 0" "tk_cached ?w = {}" by (simp_all add: tick_start_def)
  have unit: "unitToDivider (ce_Unit ?ce) = Inr 60" by simp
  have sum: "sum_list (map hits_of ?reqs) < 2 ^ 32" by (simp add: numeral_3_eq_3)
  have cfg: "rl_config ?s = Some two_domains" by simp
  have readings: "rl_readings tick_env ?s ?reqs ?w = [61, 119, 120]"
    using tick_readings [OF cfg unit on, of ?w] by (simp add: tick_start_def)
  have hits: "map hits_of ?reqs = [3, 3, 3]" by (simp add: numeral_3_eq_3)
  let ?calls = "zip (rl_readings tick_env ?s ?reqs ?w) (map hits_of ?reqs)"
  obtain ress w' where run: "rl_run tick_env ?s ?reqs ?w = Inr (ress, w')" and len: "length ress = length ?reqs"
    and v: "\<forall>i < length ?reqs. rs_OverallCode (ress ! i) =
          (if unat (ce_Limit ?ce) <
              sum_list (map snd [x \<leftarrow> take (Suc i) ?calls. fst x div 60 = fst (?calls ! i) div 60])
           then CODE_OVER_LIMIT else CODE_OK)"
    using rl_every_window_enforced [OF tick_env_store zero cfg unit on sum] unfolding Let_def by blast
  have "rs_OverallCode (ress ! 0) = CODE_OK" "rs_OverallCode (ress ! 1) = CODE_OVER_LIMIT"
    "rs_OverallCode (ress ! 2) = CODE_OK"
    using v [rule_format, of 0] v [rule_format, of 1] v [rule_format, of 2]
    unfolding readings hits by simp_all
  with len have "map rs_OverallCode ress = [CODE_OK, CODE_OVER_LIMIT, CODE_OK]"
    by (intro nth_equalityI) (auto simp: less_Suc_eq numeral_2_eq_2 numeral_3_eq_3)
  with run show ?thesis by (intro exI conjI)
qed

end
