(* ===== verification/FleetSystem.thy ===== *)
theory FleetSystem
  imports Rollout
begin

text \<open>
  The control plane, the database and any number of requests to the API at once.  A request is the
  list of the writes its handler makes; the writes of different requests interleave with each
  other and with the queries of the control plane's loop, which reads a node's document and then
  the four collections one after the other.  The question is whether the proxies end up with
  what is stored.
\<close>

section \<open>Requests\<close>

text \<open>The write by which a handler reports a change of a node, or removes the node.\<close>

definition node_write :: "string \<Rightarrow> db_op \<Rightarrow> bool" where
  "node_write n op \<longleftrightarrow>
     (\<exists>upd. op = UpdateOne ''nodes'' [(''name'', n)] upd) \<or> op = DeleteOne ''nodes'' [(''name'', n)]"

definition request_trace :: "string \<Rightarrow> db_op list \<Rightarrow> bool" where
  "request_trace n ops \<longleftrightarrow>
     (\<exists>pre final. ops = pre @ [final] \<and> (\<forall>op \<in> set pre. op_node op = Some n) \<and> node_write n final)"

lemma request_trace_Cons:
  "request_trace n (op # ops) \<longleftrightarrow>
     (if ops = [] then node_write n op else op_node op = Some n \<and> request_trace n ops)"
proof (cases "ops = []")
  case False
  then show ?thesis
    unfolding request_trace_def
    by (auto simp: Cons_eq_append_conv)
qed (auto simp: request_trace_def)

lemma request_trace_not_Nil [simp]: "\<not> request_trace n []"
  by (simp add: request_trace_def)

lemma node_write_op_node: "node_write n op \<Longrightarrow> op_node op = None"
  by (auto simp: node_write_def)

text \<open>The writes of a handler that ends in success are such a trace.\<close>

lemma rolled_out_trace:
  assumes "rolls_out node st st'" and "successful st st'"
  shows "request_trace node (new_ops st st')"
  using assms by (force simp: rolls_out_def new_ops_def request_trace_def node_write_def)

lemmas handler_traces = handlers_roll_out [THEN rolled_out_trace]

lemma run_op_ops [simp]: "api_ops (snd (run_op env op st)) = api_ops st @ [op]"
  by (simp add: run_op_def split_def Let_def)

lemma PutConfigNode_trace:
  assumes "successful st (PutConfigNode env node body st)"
  shows "request_trace node (new_ops st (PutConfigNode env node body st))"
  using assms
  by (auto simp: PutConfigNode_def not_successful_reply new_ops_def request_trace_Cons node_write_def Let_def
      dest!: run_op_simps split: sum.splits if_splits prod.splits)

lemma DeleteConfigNodes_trace:
  assumes "successful st (DeleteConfigNodes env node st)"
  shows "request_trace node (new_ops st (DeleteConfigNodes env node st))"
  using assms
  by (auto simp: DeleteConfigNodes_def not_successful_reply new_ops_def request_trace_Cons node_write_def Let_def
      split_def split: if_splits)

section \<open>The database\<close>

text \<open>
  The documented behaviour of the database the two programs rely on: a write changes only the
  documents its filter selects; a node's document is found under its name once an upsert of it has
  succeeded, and is gone once its deletion has.
\<close>

definition fleet_store ::
    "'w rapi_env \<Rightarrow> (string \<Rightarrow> 'w \<Rightarrow> node_docs) \<Rightarrow> (string \<Rightarrow> 'w \<Rightarrow> NodeStaticConfigType option) \<Rightarrow> bool" where
  "fleet_store env docs node \<longleftrightarrow>
     (\<forall>op n w. op_node op \<noteq> Some n \<longrightarrow> docs n (snd (exec env op w)) = docs n w) \<and>
     (\<forall>op n w. \<not> node_write n op \<longrightarrow> node n (snd (exec env op w)) = node n w) \<and>
     (\<forall>n upd w. fst (exec env (UpdateOne ''nodes'' [(''name'', n)] upd) w) \<longrightarrow>
        node n (snd (exec env (UpdateOne ''nodes'' [(''name'', n)] upd) w)) \<noteq> None) \<and>
     (\<forall>n w. fst (exec env (DeleteOne ''nodes'' [(''name'', n)]) w) \<longrightarrow>
        node n (snd (exec env (DeleteOne ''nodes'' [(''name'', n)]) w)) = None) \<and>
     (\<forall>n w d. node n w = Some d \<longrightarrow> nd_Name d = n)"

section \<open>The system\<close>

datatype doc_kind = Listeners | Clusters | Endpoints | Secrets

text \<open>The order of the queries in \<open>LoadNode\<close>.\<close>

definition load_order :: "doc_kind list" where
  "load_order = [Listeners, Clusters, Endpoints, Secrets]"

record fetch =
  fe_node :: NodeStaticConfigType
  fe_docs :: node_docs
  fe_todo :: "doc_kind list"

fun fetch_docs :: "doc_kind \<Rightarrow> node_docs \<Rightarrow> node_docs \<Rightarrow> node_docs" where
  "fetch_docs Listeners now d = d\<lparr>nd_listeners := nd_listeners now\<rparr>"
| "fetch_docs Clusters now d = d\<lparr>nd_clusters := nd_clusters now\<rparr>"
| "fetch_docs Endpoints now d = d\<lparr>nd_endpoints := nd_endpoints now\<rparr>"
| "fetch_docs Secrets now d = d\<lparr>nd_secrets := nd_secrets now\<rparr>"

definition no_docs :: node_docs where
  "no_docs = \<lparr>nd_listeners = Inr [], nd_clusters = Inr [], nd_endpoints = Inr [], nd_secrets = Inr []\<rparr>"

definition failed_docs :: "string \<Rightarrow> node_docs" where
  "failed_docs err = \<lparr>nd_listeners = Inl err, nd_clusters = Inl err, nd_endpoints = Inl err, nd_secrets = Inl err\<rparr>"

definition loaded_event :: "fetch \<Rightarrow> node_event" where
  "loaded_event f = \<lparr>ne_decoded = True, ne_operation = Some ''update'', ne_key_ok = True,
     ne_node = Inr (fe_node f), ne_docs = fe_docs f\<rparr>"

text \<open>
  \<open>ft_stream\<close> holds the nodes of the inserts and updates not yet handled (\<open>None\<close>: the stream is not
  open; the loop passes over deletions), \<open>ft_loading\<close> the load in progress.  \<open>ft_torn\<close> is a ghost: the
  nodes of which a request failed half-way, a notification was not delivered or a query failed,
  until the next notification of the node.
\<close>

record ('w, 'snap) fleet =
  ft_world :: 'w
  ft_requests :: "(string \<times> db_op list) list"
  ft_stream :: "string list option"
  ft_loading :: "fetch option"
  ft_calls :: "'snap calls"
  ft_torn :: "string set"

inductive fleet_step ::
    "'w rapi_env \<Rightarrow> (string \<Rightarrow> 'w \<Rightarrow> node_docs) \<Rightarrow> (string \<Rightarrow> 'w \<Rightarrow> NodeStaticConfigType option) \<Rightarrow>
       ('any, 'snap) cp_env \<Rightarrow> ('w, 'snap) fleet \<Rightarrow> ('w, 'snap) fleet \<Rightarrow> bool"
  for env :: "'w rapi_env" and docs :: "string \<Rightarrow> 'w \<Rightarrow> node_docs"
    and node :: "string \<Rightarrow> 'w \<Rightarrow> NodeStaticConfigType option" and cp :: "('any, 'snap) cp_env" where
  requested: "request_trace n ops \<Longrightarrow>
    fleet_step env docs node cp s (s\<lparr>ft_requests := (n, ops) # ft_requests s\<rparr>)"
| executed: "ft_requests s = rs @ (n, op # ops) # rs' \<Longrightarrow> ops \<noteq> [] \<Longrightarrow> exec env op (ft_world s) = (True, w) \<Longrightarrow>
    fleet_step env docs node cp s (s\<lparr>ft_world := w, ft_requests := rs @ (n, ops) # rs'\<rparr>)"
| reported: "ft_requests s = rs @ (n, [UpdateOne ''nodes'' [(''name'', n)] upd]) # rs' \<Longrightarrow>
    exec env (UpdateOne ''nodes'' [(''name'', n)] upd) (ft_world s) = (True, w) \<Longrightarrow>
    fleet_step env docs node cp s
      (s\<lparr>ft_world := w, ft_requests := rs @ rs', ft_stream := map_option (\<lambda>ns. ns @ [n]) (ft_stream s),
         ft_torn := (if ft_stream s = None then insert n (ft_torn s) else ft_torn s - {n})\<rparr>)"
| removed: "ft_requests s = rs @ (n, [DeleteOne ''nodes'' [(''name'', n)]]) # rs' \<Longrightarrow>
    exec env (DeleteOne ''nodes'' [(''name'', n)]) (ft_world s) = (True, w) \<Longrightarrow>
    fleet_step env docs node cp s (s\<lparr>ft_world := w, ft_requests := rs @ rs'\<rparr>)"
| failed: "ft_requests s = rs @ (n, op # ops) # rs' \<Longrightarrow> exec env op (ft_world s) = (False, w) \<Longrightarrow>
    fleet_step env docs node cp s
      (s\<lparr>ft_world := w, ft_requests := rs @ rs', ft_torn := insert n (ft_torn s)\<rparr>)"
| opened: "ft_stream s = None \<Longrightarrow> fleet_step env docs node cp s (s\<lparr>ft_stream := Some []\<rparr>)"
| found: "ft_stream s = Some (n # ns) \<Longrightarrow> ft_loading s = None \<Longrightarrow> node n (ft_world s) = Some d \<Longrightarrow>
    fleet_step env docs node cp s
      (s\<lparr>ft_stream := Some ns, ft_loading := Some \<lparr>fe_node = d, fe_docs = no_docs, fe_todo = load_order\<rparr>\<rparr>)"
| vanished: "ft_stream s = Some (n # ns) \<Longrightarrow> ft_loading s = None \<Longrightarrow> node n (ft_world s) = None \<Longrightarrow>
    fleet_step env docs node cp s (s\<lparr>ft_stream := Some ns\<rparr>)"
| not_found: "ft_stream s = Some (n # ns) \<Longrightarrow> ft_loading s = None \<Longrightarrow>
    fleet_step env docs node cp s (s\<lparr>ft_stream := Some ns, ft_torn := insert n (ft_torn s)\<rparr>)"
| queried: "ft_loading s = Some f \<Longrightarrow> fe_todo f = k # ks \<Longrightarrow>
    fleet_step env docs node cp s
      (s\<lparr>ft_loading := Some (f\<lparr>fe_docs := fetch_docs k (docs (nd_Name (fe_node f)) (ft_world s)) (fe_docs f),
                               fe_todo := ks\<rparr>)\<rparr>)"
| query_failed: "ft_loading s = Some f \<Longrightarrow> fe_todo f = k # ks \<Longrightarrow>
    fleet_step env docs node cp s
      (s\<lparr>ft_loading := Some (f\<lparr>fe_docs := fetch_docs k (failed_docs err) (fe_docs f), fe_todo := ks\<rparr>),
         ft_torn := insert (nd_Name (fe_node f)) (ft_torn s)\<rparr>)"
| installed: "ft_loading s = Some f \<Longrightarrow> fe_todo f = [] \<Longrightarrow>
    cp_watch cp (loaded_event f) (ft_calls s) = Running calls \<Longrightarrow>
    fleet_step env docs node cp s (s\<lparr>ft_loading := None, ft_calls := calls\<rparr>)"

text \<open>The load at start, on a database without requests; from then on everything happens at once.\<close>

inductive fleet_reach ::
    "'w rapi_env \<Rightarrow> (string \<Rightarrow> 'w \<Rightarrow> node_docs) \<Rightarrow> (string \<Rightarrow> 'w \<Rightarrow> NodeStaticConfigType option) \<Rightarrow>
       ('any, 'snap) cp_env \<Rightarrow> ('w, 'snap) fleet \<Rightarrow> bool"
  for env :: "'w rapi_env" and docs :: "string \<Rightarrow> 'w \<Rightarrow> node_docs"
    and node :: "string \<Rightarrow> 'w \<Rightarrow> NodeStaticConfigType option" and cp :: "('any, 'snap) cp_env" where
  start: "cp_start cp (\<lambda>n. docs n w) (Inr (map Some nodes)) = Inr calls \<Longrightarrow>
    distinct (map nd_Name nodes) \<Longrightarrow> (\<And>n d. node n w = Some d \<longleftrightarrow> d \<in> set nodes \<and> nd_Name d = n) \<Longrightarrow>
    fleet_reach env docs node cp
      \<lparr>ft_world = w, ft_requests = [], ft_stream = None, ft_loading = None, ft_calls = calls, ft_torn = {}\<rparr>"
| further: "fleet_reach env docs node cp s \<Longrightarrow> fleet_step env docs node cp s s' \<Longrightarrow>
    fleet_reach env docs node cp s'"

section \<open>The invariant\<close>

text \<open>Nothing is on its way that concerns the node.\<close>

definition calm :: "string \<Rightarrow> ('w, 'snap) fleet \<Rightarrow> bool" where
  "calm n s \<longleftrightarrow> n \<notin> ft_torn s \<and> n \<notin> fst ` set (ft_requests s) \<and>
     (\<forall>ns. ft_stream s = Some ns \<longrightarrow> n \<notin> set ns)"

text \<open>The last snapshot handed over for the node is the one its documents make, if they make one.\<close>

definition served_snapshot ::
    "('any, 'snap) cp_env \<Rightarrow> node_docs \<Rightarrow> NodeStaticConfigType \<Rightarrow> 'snap calls \<Rightarrow> bool" where
  "served_snapshot cp now d calls \<longleftrightarrow>
     (\<forall>snap. good_snapshot cp now (nd_Version d) = Some snap \<longrightarrow> map_of (rev calls) (nd_Name d) = Some snap)"

fun same_field :: "doc_kind \<Rightarrow> node_docs \<Rightarrow> node_docs \<Rightarrow> bool" where
  "same_field Listeners a b \<longleftrightarrow> nd_listeners a = nd_listeners b"
| "same_field Clusters a b \<longleftrightarrow> nd_clusters a = nd_clusters b"
| "same_field Endpoints a b \<longleftrightarrow> nd_endpoints a = nd_endpoints b"
| "same_field Secrets a b \<longleftrightarrow> nd_secrets a = nd_secrets b"

definition fetched_current :: "node_docs \<Rightarrow> NodeStaticConfigType \<Rightarrow> fetch \<Rightarrow> bool" where
  "fetched_current now d f \<longleftrightarrow> fe_node f = d \<and> (\<forall>k. k \<notin> set (fe_todo f) \<longrightarrow> same_field k (fe_docs f) now)"

definition up_to_date ::
    "('any, 'snap) cp_env \<Rightarrow> node_docs \<Rightarrow> NodeStaticConfigType \<Rightarrow> ('w, 'snap) fleet \<Rightarrow> bool" where
  "up_to_date cp now d s \<longleftrightarrow>
     (case ft_loading s of
        None \<Rightarrow> served_snapshot cp now d (ft_calls s)
      | Some f \<Rightarrow> if nd_Name (fe_node f) = nd_Name d then fetched_current now d f
                 else served_snapshot cp now d (ft_calls s))"

definition fleet_inv ::
    "(string \<Rightarrow> 'w \<Rightarrow> node_docs) \<Rightarrow> (string \<Rightarrow> 'w \<Rightarrow> NodeStaticConfigType option) \<Rightarrow>
       ('any, 'snap) cp_env \<Rightarrow> ('w, 'snap) fleet \<Rightarrow> bool" where
  "fleet_inv docs node cp s \<longleftrightarrow>
     (\<forall>(n, ops) \<in> set (ft_requests s). request_trace n ops) \<and>
     (\<forall>n d. calm n s \<and> node n (ft_world s) = Some d \<longrightarrow> up_to_date cp (docs n (ft_world s)) d s)"

lemma all_same_field: "(\<And>k. same_field k a b) \<Longrightarrow> a = b" for a b :: node_docs
  by (metis node_docs.equality old.unit.exhaust same_field.simps)

lemma same_field_fetch [simp]: "same_field j (fetch_docs k now d) now \<longleftrightarrow> j = k \<or> same_field j d now"
  by (cases k; cases j) simp_all

lemma fetched_current_all: "fetched_current now d f \<Longrightarrow> fe_todo f = [] \<Longrightarrow> fe_docs f = now"
  by (rule all_same_field) (simp add: fetched_current_def)

text \<open>The writes of a request concern its own node only.\<close>

lemma request_frame:
  assumes "fleet_store env docs node" and "request_trace m (op # ops)" and "n \<noteq> m" and "exec env op w = (ok, w')"
  shows "docs n w' = docs n w" and "node n w' = node n w"
proof -
  have "op_node op \<noteq> Some n" "\<not> node_write n op"
    using assms(2,3) node_write_op_node [of m op]
    by (auto simp: request_trace_Cons node_write_def split: if_splits)
  then have "docs n (snd (exec env op w)) = docs n w \<and> node n (snd (exec env op w)) = node n w"
    using assms(1) by (simp add: fleet_store_def)
  with assms(4) show "docs n w' = docs n w" "node n w' = node n w" by simp_all
qed

text \<open>A step that makes no node calm and leaves the load and the calls alone keeps the invariant.\<close>

lemma fleet_inv_keep:
  assumes "fleet_inv docs node cp s" and "\<forall>(n, ops) \<in> set (ft_requests s'). request_trace n ops"
    and "ft_loading s' = ft_loading s" and "ft_calls s' = ft_calls s"
    and "\<And>n d. calm n s' \<Longrightarrow> node n (ft_world s') = Some d \<Longrightarrow>
      calm n s \<and> node n (ft_world s) = Some d \<and> docs n (ft_world s) = docs n (ft_world s')"
  shows "fleet_inv docs node cp s'"
  unfolding fleet_inv_def
proof (intro conjI allI impI assms(2))
  fix n d assume "calm n s' \<and> node n (ft_world s') = Some d"
  with assms(5) have "calm n s \<and> node n (ft_world s) = Some d" and same: "docs n (ft_world s) = docs n (ft_world s')"
    by blast+
  with assms(1) have "up_to_date cp (docs n (ft_world s)) d s" unfolding fleet_inv_def by blast
  then show "up_to_date cp (docs n (ft_world s')) d s'"
    by (simp only: up_to_date_def same assms(3,4))
qed

text \<open>A step of the load: one more collection is read, or a query fails and the node is torn.\<close>

lemma fleet_inv_load:
  assumes "fleet_inv docs node cp s" and "ft_loading s = Some f" and "fe_todo f = k # ks"
    and "found = docs (nd_Name (fe_node f)) (ft_world s) \<and> torn = ft_torn s \<or>
      torn = insert (nd_Name (fe_node f)) (ft_torn s)"
    and "\<And>n w d. node n w = Some d \<Longrightarrow> nd_Name d = n"
  shows "fleet_inv docs node cp
    (s\<lparr>ft_loading := Some (f\<lparr>fe_docs := fetch_docs k found (fe_docs f), fe_todo := ks\<rparr>), ft_torn := torn\<rparr>)"
    (is "fleet_inv docs node cp ?s'")
  unfolding fleet_inv_def
proof (intro conjI allI impI)
  fix n d assume n: "calm n ?s' \<and> node n (ft_world ?s') = Some d"
  then have name: "nd_Name d = n" by (intro assms(5) [of n "ft_world s"]) simp
  from n assms(4) have "calm n s" by (auto simp: calm_def)
  with n assms(1,2) have up: "if nd_Name (fe_node f) = nd_Name d then fetched_current (docs n (ft_world s)) d f
      else served_snapshot cp (docs n (ft_world s)) d (ft_calls s)"
    by (auto simp: fleet_inv_def up_to_date_def)
  show "up_to_date cp (docs n (ft_world ?s')) d ?s'"
  proof (cases "nd_Name (fe_node f) = n")
    case True
    with n assms(4) have "found = docs n (ft_world s)" by (auto simp: calm_def)
    with up name True assms(3) show ?thesis
      by (auto simp: up_to_date_def fetched_current_def)
  qed (use up name in \<open>simp add: up_to_date_def\<close>)
qed (use assms(1) in \<open>simp add: fleet_inv_def\<close>)

text \<open>What the load hands over is the snapshot of what it has read.\<close>

lemma installed_calls:
  assumes "cp_watch cp (loaded_event f) calls = Running calls'"
  shows "calls' = calls @ (case good_snapshot cp (fe_docs f) (nd_Version (fe_node f)) of
    None \<Rightarrow> [] | Some snap \<Rightarrow> [(nd_Name (fe_node f), snap)])"
  using cp_watch_adds [OF assms] by (simp add: event_calls_def loaded_event_def)

lemma fleet_inv_installed:
  assumes inv: "fleet_inv docs node cp s" and f: "ft_loading s = Some f" "fe_todo f = []"
    and calls: "cp_watch cp (loaded_event f) (ft_calls s) = Running calls"
  shows "fleet_inv docs node cp (s\<lparr>ft_loading := None, ft_calls := calls\<rparr>)" (is "fleet_inv _ _ _ ?s'")
  unfolding fleet_inv_def
proof (intro conjI allI impI)
  fix n d assume "calm n ?s' \<and> node n (ft_world ?s') = Some d"
  then have "calm n s \<and> node n (ft_world s) = Some d" by (simp add: calm_def)
  with inv f(1) have up: "if nd_Name (fe_node f) = nd_Name d then fetched_current (docs n (ft_world s)) d f
      else served_snapshot cp (docs n (ft_world s)) d (ft_calls s)"
    by (auto simp: fleet_inv_def up_to_date_def)
  show "up_to_date cp (docs n (ft_world ?s')) d ?s'"
  proof (cases "nd_Name (fe_node f) = nd_Name d")
    case True
    with up have current: "fetched_current (docs n (ft_world s)) d f" by simp
    from fetched_current_all [OF this f(2)] current have "fe_docs f = docs n (ft_world s)" "fe_node f = d"
      by (simp_all add: fetched_current_def)
    with installed_calls [OF calls] show ?thesis by (simp add: up_to_date_def served_snapshot_def)
  next
    case False
    with up installed_calls [OF calls] show ?thesis
      by (auto simp: up_to_date_def served_snapshot_def split: option.splits)
  qed
qed (use inv in \<open>simp add: fleet_inv_def\<close>)

text \<open>The writes of the requests, whether they succeed or fail.\<close>

lemma fleet_inv_write:
  assumes store: "fleet_store env docs node" and inv: "fleet_inv docs node cp s"
    and req: "ft_requests s = rs @ (m, op # ops) # rs'" and run: "exec env op (ft_world s) = (ok, w)"
    and s': "ft_world s' = w" "ft_requests s' = rs @ rest @ rs'" "ft_loading s' = ft_loading s"
      "ft_calls s' = ft_calls s"
    and rest: "rest = [] \<or> rest = [(m, ops)] \<and> ops \<noteq> []"
    and others: "\<And>n. n \<noteq> m \<Longrightarrow> calm n s' \<Longrightarrow> n \<notin> ft_torn s \<and> (\<forall>ns. ft_stream s = Some ns \<longrightarrow> n \<notin> set ns)"
    and own: "calm m s' \<Longrightarrow> node m w = None"
  shows "fleet_inv docs node cp s'"
proof (rule fleet_inv_keep [OF inv _ s'(3,4)])
  from inv req have trace: "request_trace m (op # ops)"
    and rest': "\<forall>(n, ops) \<in> set (rs @ rs'). request_trace n ops" by (auto simp: fleet_inv_def)
  then show "\<forall>(n, ops) \<in> set (ft_requests s'). request_trace n ops"
    using rest by (auto simp: s'(2) request_trace_Cons)
  fix n d assume n: "calm n s'" "node n (ft_world s') = Some d"
  then have "n \<noteq> m" using own s'(1) by auto
  moreover from request_frame [OF store trace this run] have "docs n w = docs n (ft_world s)" "node n w = node n (ft_world s)" .
  moreover have "calm n s"
    using others [OF \<open>n \<noteq> m\<close> n(1)] n(1) \<open>n \<noteq> m\<close> by (auto simp: calm_def req s'(2))
  ultimately show "calm n s \<and> node n (ft_world s) = Some d \<and> docs n (ft_world s) = docs n (ft_world s')"
    using n(2) s'(1) by simp
qed

lemma fleet_store_names: "fleet_store env docs node \<Longrightarrow> node n w = Some d \<Longrightarrow> nd_Name d = n"
  unfolding fleet_store_def by blast

text \<open>The start of a load: of the node nothing has been read, the others are left alone.\<close>

lemma fleet_inv_found:
  assumes store: "fleet_store env docs node" and inv: "fleet_inv docs node cp s"
    and stream: "ft_stream s = Some (m # ns)" "ft_loading s = None" "node m (ft_world s) = Some d"
  shows "fleet_inv docs node cp
    (s\<lparr>ft_stream := Some ns, ft_loading := Some \<lparr>fe_node = d, fe_docs = no_docs, fe_todo = load_order\<rparr>\<rparr>)"
    (is "fleet_inv docs node cp ?s'")
  unfolding fleet_inv_def
proof (intro conjI allI impI)
  fix n e assume n: "calm n ?s' \<and> node n (ft_world ?s') = Some e"
  have names: "nd_Name e = n" "nd_Name d = m"
    using n stream(3) fleet_store_names [OF store] by auto
  have all: "k \<in> set load_order" for k by (cases k) (simp_all add: load_order_def)
  show "up_to_date cp (docs n (ft_world ?s')) e ?s'"
  proof (cases "n = m")
    case True
    with n stream(3) names all show ?thesis by (simp add: up_to_date_def fetched_current_def)
  next
    case False
    with n stream(1) have "calm n s" by (auto simp: calm_def)
    with n have "calm n s \<and> node n (ft_world s) = Some e" by simp
    with inv have "up_to_date cp (docs n (ft_world s)) e s" unfolding fleet_inv_def by blast
    with stream(2) names False show ?thesis by (simp add: up_to_date_def)
  qed
qed (use inv in \<open>simp add: fleet_inv_def\<close>)

lemma fleet_inv_step:
  assumes store: "fleet_store env docs node" and inv: "fleet_inv docs node cp s"
    and "fleet_step env docs node cp s s'"
  shows "fleet_inv docs node cp s'"
  using assms(3)
proof cases
  case (requested n ops)
  with inv show ?thesis by (intro fleet_inv_keep [OF inv]) (auto simp: fleet_inv_def calm_def)
next
  case (executed rs n op ops rs' w)
  then show ?thesis
    by (intro fleet_inv_write [OF store inv executed(2,4), where rest = "[(n, ops)]"]) (auto simp: calm_def)
next
  case (reported rs n upd rs' w)
  then show ?thesis
    by (intro fleet_inv_write [OF store inv reported(2,3), where rest = "[]"])
      (auto simp: calm_def split: if_splits)
next
  case (removed rs n rs' w)
  have "fst (exec env (DeleteOne ''nodes'' [(''name'', n)]) (ft_world s))" using removed(3) by simp
  with store have "node n (snd (exec env (DeleteOne ''nodes'' [(''name'', n)]) (ft_world s))) = None"
    unfolding fleet_store_def by blast
  with removed show ?thesis
    by (intro fleet_inv_write [OF store inv removed(2,3), where rest = "[]"]) (auto simp: calm_def)
next
  case (failed rs n op ops rs' w)
  then show ?thesis
    by (intro fleet_inv_write [OF store inv failed(2,3), where rest = "[]"]) (auto simp: calm_def)
next
  case opened
  with inv show ?thesis by (intro fleet_inv_keep [OF inv]) (auto simp: fleet_inv_def calm_def)
next
  case (found n ns d)
  from fleet_inv_found [OF store inv found(2-4)] found(1) show ?thesis by simp
next
  case (vanished n ns)
  with inv show ?thesis by (intro fleet_inv_keep [OF inv]) (auto simp: fleet_inv_def calm_def)
next
  case (not_found n ns)
  with inv show ?thesis by (intro fleet_inv_keep [OF inv]) (auto simp: fleet_inv_def calm_def)
next
  case (queried f k ks)
  from fleet_inv_load [OF inv queried(2,3), where found = "docs (nd_Name (fe_node f)) (ft_world s)" and torn = "ft_torn s"]
    fleet_store_names [OF store] queried(1)
  show ?thesis by simp
next
  case (query_failed f k ks err)
  from fleet_inv_load [OF inv query_failed(2,3), where found = "failed_docs err"
      and torn = "insert (nd_Name (fe_node f)) (ft_torn s)"] fleet_store_names [OF store] query_failed(1)
  show ?thesis by simp
next
  case (installed f calls)
  from fleet_inv_installed [OF inv installed(2-4)] installed(1) show ?thesis by simp
qed

section \<open>The start\<close>

lemma last_call_of:
  assumes "distinct (map nd_Name nodes)" and "d \<in> set nodes" and "g d = Some snap"
  shows "map_of (rev (concat (map (\<lambda>n. case g n of None \<Rightarrow> [] | Some s \<Rightarrow> [(nd_Name n, s)]) nodes))) (nd_Name d) =
    Some snap"
  using assms
proof (induction nodes)
  case (Cons n nodes)
  let ?calls = "rev (concat (map (\<lambda>n. case g n of None \<Rightarrow> [] | Some s \<Rightarrow> [(nd_Name n, s)]) nodes))"
  show ?case
  proof (cases "d = n")
    case True
    have "fst ` set ?calls \<subseteq> nd_Name ` set nodes" by (auto split: option.splits)
    with True Cons.prems have "map_of ?calls (nd_Name d) = None" by (auto simp: map_of_eq_None_iff)
    with True Cons.prems show ?thesis by (simp add: map_add_def)
  next
    case False
    with Cons show ?thesis by (auto simp: map_add_def)
  qed
qed simp

lemma fleet_inv_start:
  assumes "cp_start cp (\<lambda>n. docs n w) (Inr (map Some nodes)) = Inr calls"
    and "distinct (map nd_Name nodes)" and "\<And>n d. node n w = Some d \<longleftrightarrow> d \<in> set nodes \<and> nd_Name d = n"
  shows "fleet_inv docs node cp
    \<lparr>ft_world = w, ft_requests = [], ft_stream = None, ft_loading = None, ft_calls = calls, ft_torn = {}\<rparr>"
proof -
  have "decoded (Inr (map Some nodes) :: NodeStaticConfigType query) = nodes"
    by (induction nodes) (simp_all add: decoded_def)
  with cp_start_result [where env = cp and docs = "\<lambda>n. docs n w" and found = "Inr (map Some nodes)"] assms(1)
  have calls: "calls = concat (map (\<lambda>n. case good_snapshot cp (docs (nd_Name n) w) (nd_Version n) of
         None \<Rightarrow> [] | Some snap \<Rightarrow> [(nd_Name n, snap)]) nodes)" by simp
  show ?thesis
    using last_call_of [OF assms(2), where g = "\<lambda>n. good_snapshot cp (docs (nd_Name n) w) (nd_Version n)"] assms(3)
    by (auto simp: fleet_inv_def up_to_date_def served_snapshot_def calls)
qed

lemma fleet_reach_inv:
  "fleet_reach env docs node cp s \<Longrightarrow> fleet_store env docs node \<Longrightarrow> fleet_inv docs node cp s"
proof (induction rule: fleet_reach.induct)
  case (start w nodes calls)
  then show ?case by (intro fleet_inv_start)
next
  case (further s s')
  then show ?case by (blast intro: fleet_inv_step)
qed

lemma fleet_reach_run:
  "(fleet_step env docs node cp)\<^sup>*\<^sup>* s s' \<Longrightarrow> fleet_reach env docs node cp s \<Longrightarrow> fleet_reach env docs node cp s'"
  by (induction rule: rtranclp_induct) (auto intro: fleet_reach.further)

section \<open>The stream drains\<close>

lemma queries_run:
  "(fleet_step env docs node cp)\<^sup>*\<^sup>* (s\<lparr>ft_loading := Some \<lparr>fe_node = d, fe_docs = dc, fe_todo = ks\<rparr>\<rparr>)
     (s\<lparr>ft_loading := Some \<lparr>fe_node = d,
          fe_docs = fold (\<lambda>k. fetch_docs k (docs (nd_Name d) (ft_world s))) ks dc, fe_todo = []\<rparr>\<rparr>)"
proof (induction ks arbitrary: dc)
  case (Cons k ks)
  have "fleet_step env docs node cp (s\<lparr>ft_loading := Some \<lparr>fe_node = d, fe_docs = dc, fe_todo = k # ks\<rparr>\<rparr>)
    (s\<lparr>ft_loading := Some \<lparr>fe_node = d, fe_docs = fetch_docs k (docs (nd_Name d) (ft_world s)) dc, fe_todo = ks\<rparr>\<rparr>)"
    using fleet_step.queried [of "s\<lparr>ft_loading := Some \<lparr>fe_node = d, fe_docs = dc, fe_todo = k # ks\<rparr>\<rparr>"
        "\<lparr>fe_node = d, fe_docs = dc, fe_todo = k # ks\<rparr>" k ks env docs node cp]
    by simp
  with Cons.IH [of "fetch_docs k (docs (nd_Name d) (ft_world s)) dc"] show ?case
    by (auto intro: converse_rtranclp_into_rtranclp)
qed simp

lemma fetch_all: "fold (\<lambda>k. fetch_docs k now) load_order dc = now"
  by (simp add: load_order_def)

lemma load_run:
  assumes "ft_stream s = Some (n # ns)" and "ft_loading s = None" and "node n (ft_world s) = Some d"
    and ok: "docs_ok (docs (nd_Name d) (ft_world s))"
  shows "\<exists>c. (fleet_step env docs node cp)\<^sup>*\<^sup>* s (s\<lparr>ft_stream := Some ns, ft_calls := c\<rparr>)"
proof -
  let ?now = "docs (nd_Name d) (ft_world s)" and ?t = "s\<lparr>ft_stream := Some ns\<rparr>"
  let ?f = "\<lparr>fe_node = d, fe_docs = ?now, fe_todo = []\<rparr>"
  have "event_ok (loaded_event ?f)" using ok by (simp add: event_ok_def loaded_event_def)
  from cp_watch_ok [OF this] obtain c where c: "cp_watch cp (loaded_event ?f) (ft_calls s) = Running c" by blast
  have same: "s\<lparr>ft_stream := Some ns, ft_loading := None, ft_calls := c\<rparr> = s\<lparr>ft_stream := Some ns, ft_calls := c\<rparr>"
    using assms(2) by (cases s) simp
  have "fleet_step env docs node cp s (?t\<lparr>ft_loading := Some \<lparr>fe_node = d, fe_docs = no_docs, fe_todo = load_order\<rparr>\<rparr>)"
    using fleet_step.found [where env = env and docs = docs and node = node and cp = cp, OF assms(1-3)] by simp
  also have "(fleet_step env docs node cp)\<^sup>*\<^sup>* \<dots> (?t\<lparr>ft_loading := Some ?f\<rparr>)"
    using queries_run [where env = env and docs = docs and node = node and cp = cp and s = ?t and d = d and
        dc = no_docs and ks = load_order] by (simp add: fetch_all)
  also have "fleet_step env docs node cp \<dots> (s\<lparr>ft_stream := Some ns, ft_calls := c\<rparr>)"
    using fleet_step.installed [of "?t\<lparr>ft_loading := Some ?f\<rparr>" ?f cp c env docs node] c by (simp add: same)
  finally show ?thesis by blast
qed

lemma drain_run:
  assumes "ft_stream s = Some ns" and "ft_loading s = None" and "\<forall>m. docs_ok (docs m (ft_world s))"
  shows "\<exists>c. (fleet_step env docs node cp)\<^sup>*\<^sup>* s (s\<lparr>ft_stream := Some [], ft_calls := c\<rparr>)"
  using assms
proof (induction ns arbitrary: s)
  case Nil
  then have "s = s\<lparr>ft_stream := Some [], ft_calls := ft_calls s\<rparr>" by simp
  then show ?case by (metis rtranclp.rtrancl_refl)
next
  case (Cons n ns)
  have "\<exists>c. (fleet_step env docs node cp)\<^sup>*\<^sup>* s (s\<lparr>ft_stream := Some ns, ft_calls := c\<rparr>)"
  proof (cases "node n (ft_world s)")
    case None
    from fleet_step.vanished [where env = env and docs = docs and node = node and cp = cp, OF Cons.prems(1,2) None]
    have "(fleet_step env docs node cp)\<^sup>*\<^sup>* s (s\<lparr>ft_stream := Some ns, ft_calls := ft_calls s\<rparr>)" by simp
    then show ?thesis by blast
  qed (use load_run [OF Cons.prems(1,2)] Cons.prems(3) in blast)
  then obtain c where first: "(fleet_step env docs node cp)\<^sup>*\<^sup>* s (s\<lparr>ft_stream := Some ns, ft_calls := c\<rparr>)" ..
  from Cons.IH [of "s\<lparr>ft_stream := Some ns, ft_calls := c\<rparr>"] Cons.prems(2,3) first show ?case
    by (auto intro: rtranclp_trans)
qed

section \<open>Convergence\<close>


text \<open>A database of node documents and node versions, of which the API stores listeners.\<close>

type_synonym fleet_db = "(string \<Rightarrow> node_docs) \<times> (string \<rightharpoonup> string)"

fun fleet_exec :: "db_op \<Rightarrow> fleet_db \<Rightarrow> bool \<times> fleet_db" where
  "fleet_exec (ReplaceOne c f (ListenerDoc l)) (D, V) =
     (case map_of f ''nodeId'' of
        None \<Rightarrow> (True, (D, V))
      | Some n \<Rightarrow> (True, (D(n := (D n)\<lparr>nd_listeners := Inr [Some l]\<rparr>), V)))"
| "fleet_exec (UpdateOne c f upd) (D, V) =
     (if c = ''nodes'' \<and> length f = 1 \<and> fst (hd f) = ''name''
      then (True, (D, V(snd (hd f) := map_of (upd @ [(''version'', [])]) ''version''))) else (True, (D, V)))"
| "fleet_exec (DeleteOne c f) (D, V) =
     (if c = ''nodes'' \<and> length f = 1 \<and> fst (hd f) = ''name'' then (True, (D, V(snd (hd f) := None))) else (True, (D, V)))"
| "fleet_exec op (D, V) = (True, (D, V))"

definition fleet_env :: "fleet_db rapi_env" where
  "fleet_env = \<lparr>exec = fleet_exec, find_endpoints = \<lambda>q w. (None, w), find_ratelimits = \<lambda>q w. (Inr [], w),
     find_authz = \<lambda>w. ((\<lparr>az_Config = \<lparr>az_Domains = None\<rparr>\<rparr>, False), w),
     find_authzs3 = \<lambda>w. ((\<lparr>s3_Config = \<lparr>s3_Namespaces = None\<rparr>\<rparr>, False), w),
     new_uuid = \<lambda>w. (''v2'', w), marshals = \<lambda>d. True, parse_ip = \<lambda>a. True\<rparr>"

definition fleet_docs :: "string \<Rightarrow> fleet_db \<Rightarrow> node_docs" where
  "fleet_docs n w = fst w n"

definition fleet_node :: "string \<Rightarrow> fleet_db \<Rightarrow> NodeStaticConfigType option" where
  "fleet_node n w = map_option (\<lambda>v. \<lparr>nd_Name = n, nd_Address = [], nd_Version = v, nd_Addresses = []\<rparr>) (snd w n)"

lemma fleet_env_store: "fleet_store fleet_env fleet_docs fleet_node"
proof -
  have docs: "op_node op \<noteq> Some n \<Longrightarrow> fst (snd (fleet_exec op w)) n = fst w n" for op n w
    by (cases "(op, w)" rule: fleet_exec.cases) (auto split: option.splits)
  have nodes: "\<not> node_write n op \<Longrightarrow> snd (snd (fleet_exec op w)) n = snd w n" for op n w
    by (cases "(op, w)" rule: fleet_exec.cases)
      (auto simp: node_write_def length_Suc_conv split: option.splits)
  show ?thesis
    using docs nodes
    by (auto simp: fleet_store_def fleet_env_def fleet_docs_def fleet_node_def map_add_def split: option.splits)
qed

text \<open>One node without documents, loaded at start, and a listener on its way to another node or to it.\<close>

definition fleet_initial :: "(fleet_db, string \<times> string list) fleet" where
  "fleet_initial = \<lparr>ft_world = (\<lambda>n. no_docs, [''n1'' \<mapsto> ''v1'']), ft_requests = [], ft_stream = None, ft_loading = None,
     ft_calls = [(''n1'', (''v1'', []))], ft_torn = {}\<rparr>"

definition listener_writes :: "string \<Rightarrow> db_op list" where
  "listener_writes n =
     [ReplaceOne ''listeners'' [(''nodeId'', n), (''name'', ''tcp'')] (ListenerDoc sample_listener),
      UpdateOne ''nodes'' [(''name'', n)] [(''version'', ''v2'')]]"

lemma no_docs_ok [simp]: "docs_ok no_docs"
  by (simp add: docs_ok_def no_docs_def decoded_def)

lemma no_docs_snapshot: "good_snapshot sample_cp no_docs v = Some (v, [])"
  by (simp add: good_snapshot_def load_docs_def LoadNode_def sample_cp_def no_docs_def decoded_def)

lemma fleet_initial_reach: "fleet_reach fleet_env fleet_docs fleet_node sample_cp fleet_initial"
  unfolding fleet_initial_def
proof (rule fleet_reach.start)
  let ?n1 = "\<lparr>nd_Name = ''n1'', nd_Address = [], nd_Version = ''v1'', nd_Addresses = []\<rparr>"
  show "cp_start sample_cp (\<lambda>n. fleet_docs n (\<lambda>n. no_docs, [''n1'' \<mapsto> ''v1''])) (Inr (map Some [?n1])) =
      Inr [(''n1'', (''v1'', []))]"
    by (simp add: cp_start_def decoded_def fleet_docs_def loadNodeConfig_cases no_docs_snapshot)
  show "fleet_node n (\<lambda>n. no_docs, [''n1'' \<mapsto> ''v1'']) = Some d \<longleftrightarrow> d \<in> set [?n1] \<and> nd_Name d = n" for n d
    by (auto simp: fleet_node_def)
qed simp

lemma listener_requested:
  "fleet_step fleet_env fleet_docs fleet_node sample_cp s (s\<lparr>ft_requests := (n, listener_writes n) # ft_requests s\<rparr>)"
  by (rule fleet_step.requested) (simp add: listener_writes_def request_trace_Cons node_write_def)




end
