(* ===== verification/ApiDocs.thy ===== *)
theory ApiDocs
  imports GoStrings
begin

text \<open>
  The API documentation of \<open>docs/docs.go\<close>: the paths of the Swagger document, with the operations,
  parameters and responses each declares, the general information the program fills in, and
  \<open>ReadDoc\<close>, which serves the document.  The template library is a parameter of \<open>ReadDoc\<close>.
\<close>

section \<open>Types\<close>

record doc_param =
  dp_type :: string
  dp_description :: string
  dp_name :: string
  dp_in :: string
  dp_required :: bool

record operation_doc =
  od_produces :: "string list"
  od_summary :: string
  od_parameters :: "doc_param list"
  od_responses :: "(int \<times> string) list"

type_synonym path_doc = "string \<times> (string \<times> operation_doc) list"

section \<open>The documented paths\<close>

definition auth_docs :: "path_doc list" where
  "auth_docs =
     [(''/authz/'',
       [(''get'', \<lparr>od_produces = [], od_summary = ''get configured authz'',
          od_parameters = [],
          od_responses = [(200, [])]\<rparr>),
        (''put'', \<lparr>od_produces = [], od_summary = ''Create or update authz'',
          od_parameters = [],
          od_responses = [(204, [])]\<rparr>)]),
      (''/authzs3/'',
       [(''get'', \<lparr>od_produces = [], od_summary = ''get configured authzs3'',
          od_parameters = [],
          od_responses = [(200, [])]\<rparr>),
        (''put'', \<lparr>od_produces = [], od_summary = ''Create or update authz'',
          od_parameters = [],
          od_responses = [(204, [])]\<rparr>)])]"

definition node_docs_table :: "path_doc list" where
  "node_docs_table =
     [(''/config/'',
       [(''get'', \<lparr>od_produces = [''application/json''], od_summary = ''Get configured nodes'',
          od_parameters = [],
          od_responses = [(200, [])]\<rparr>)]),
      (''/config/{node}'',
       [(''put'', \<lparr>od_produces = [], od_summary = ''Create or update node'',
          od_parameters = [\<lparr>dp_type = ''string'', dp_description = ''node id'',
               dp_name = ''node'', dp_in = ''path'', dp_required = True\<rparr>],
          od_responses = [(204, [])]\<rparr>),
        (''delete'', \<lparr>od_produces = [], od_summary = ''Delete configured node'',
          od_parameters = [\<lparr>dp_type = ''string'', dp_description = ''node id'',
               dp_name = ''node'', dp_in = ''path'', dp_required = True\<rparr>],
          od_responses = [(204, [])]\<rparr>)])]"

definition cluster_docs :: "path_doc list" where
  "cluster_docs =
     [(''/config/{node}/clusters'',
       [(''put'', \<lparr>od_produces = [], od_summary = ''Create or update cluster'',
          od_parameters = [\<lparr>dp_type = ''string'', dp_description = ''node id'',
               dp_name = ''node'', dp_in = ''path'', dp_required = True\<rparr>],
          od_responses = [(204, [])]\<rparr>)]),
      (''/config/{node}/clusters/{name}'',
       [(''get'', \<lparr>od_produces = [''application/json''], od_summary = ''Retrieves clisters configuration'',
          od_parameters = [\<lparr>dp_type = ''string'', dp_description = ''node id'',
               dp_name = ''node'', dp_in = ''path'', dp_required = True\<rparr>,
            \<lparr>dp_type = ''string'', dp_description = ''cluster id'',
               dp_name = ''name'', dp_in = ''path'', dp_required = False\<rparr>],
          od_responses = [(200, [])]\<rparr>),
        (''delete'', \<lparr>od_produces = [], od_summary = ''Delete configured cluster'',
          od_parameters = [\<lparr>dp_type = ''string'', dp_description = ''node id'',
               dp_name = ''node'', dp_in = ''path'', dp_required = True\<rparr>,
            \<lparr>dp_type = ''string'', dp_description = ''cluster id'',
               dp_name = ''name'', dp_in = ''path'', dp_required = True\<rparr>],
          od_responses = [(204, [])]\<rparr>)]),
      (''/config/{node}/configstatus'',
       [(''get'', \<lparr>od_produces = [], od_summary = ''get node config status'',
          od_parameters = [\<lparr>dp_type = ''string'', dp_description = ''node'',
               dp_name = ''node'', dp_in = ''path'', dp_required = True\<rparr>],
          od_responses = [(200, [])]\<rparr>)])]"

definition endpoint_docs :: "path_doc list" where
  "endpoint_docs =
     [(''/config/{node}/endpoints'',
       [(''put'', \<lparr>od_produces = [], od_summary = ''Create or update endpoint'',
          od_parameters = [\<lparr>dp_type = ''string'', dp_description = ''node id'',
               dp_name = ''node'', dp_in = ''path'', dp_required = True\<rparr>],
          od_responses = [(204, [])]\<rparr>)]),
      (''/config/{node}/endpoints/{name}'',
       [(''get'', \<lparr>od_produces = [''application/json''], od_summary = ''Retrieves endpoints configuration'',
          od_parameters = [\<lparr>dp_type = ''string'', dp_description = ''node id'',
               dp_name = ''node'', dp_in = ''path'', dp_required = True\<rparr>,
            \<lparr>dp_type = ''string'', dp_description = ''cluster id'',
               dp_name = ''name'', dp_in = ''path'', dp_required = False\<rparr>],
          od_responses = [(200, [])]\<rparr>),
        (''put'', \<lparr>od_produces = [], od_summary = ''Update endpoint cluster'',
          od_parameters = [\<lparr>dp_type = ''string'', dp_description = ''node id'',
               dp_name = ''node'', dp_in = ''path'', dp_required = True\<rparr>],
          od_responses = [(204, [])]\<rparr>),
        (''delete'', \<lparr>od_produces = [], od_summary = ''Delete configured endpoint'',
          od_parameters = [\<lparr>dp_type = ''string'', dp_description = ''node id'',
               dp_name = ''node'', dp_in = ''path'', dp_required = True\<rparr>,
            \<lparr>dp_type = ''string'', dp_description = ''cluster id'',
               dp_name = ''name'', dp_in = ''path'', dp_required = True\<rparr>,
            \<lparr>dp_type = ''integer'', dp_description = ''priority'',
               dp_name = ''priority'', dp_in = ''path'', dp_required = True\<rparr>,
            \<lparr>dp_type = ''string'', dp_description = ''endpoint address'',
               dp_name = ''address'', dp_in = ''path'', dp_required = True\<rparr>],
          od_responses = [(204, [])]\<rparr>)])]"

definition interface_docs :: "path_doc list" where
  "interface_docs =
     [(''/config/{node}/interfaces'',
       [(''get'', \<lparr>od_produces = [''application/json''], od_summary = ''Get configured node interfaces'',
          od_parameters = [\<lparr>dp_type = ''string'', dp_description = ''node id'',
               dp_name = ''node'', dp_in = ''path'', dp_required = True\<rparr>],
          od_responses = [(200, [])]\<rparr>),
        (''put'', \<lparr>od_produces = [], od_summary = ''Create or update node interface address'',
          od_parameters = [\<lparr>dp_type = ''string'', dp_description = ''node id'',
               dp_name = ''node'', dp_in = ''path'', dp_required = True\<rparr>],
          od_responses = [(204, [])]\<rparr>),
        (''delete'', \<lparr>od_produces = [], od_summary = ''Delete node interface address'',
          od_parameters = [\<lparr>dp_type = ''string'', dp_description = ''node id'',
               dp_name = ''node'', dp_in = ''path'', dp_required = True\<rparr>],
          od_responses = [(204, [])]\<rparr>)])]"

definition listener_docs :: "path_doc list" where
  "listener_docs =
     [(''/config/{node}/listeners'',
       [(''put'', \<lparr>od_produces = [], od_summary = ''Create or update listener'',
          od_parameters = [\<lparr>dp_type = ''string'', dp_description = ''node id'',
               dp_name = ''node'', dp_in = ''path'', dp_required = True\<rparr>],
          od_responses = [(204, [])]\<rparr>)]),
      (''/config/{node}/listeners/{name}'',
       [(''get'', \<lparr>od_produces = [''application/json''], od_summary = ''Retrieves listeners configuration'',
          od_parameters = [\<lparr>dp_type = ''string'', dp_description = ''node id'',
               dp_name = ''node'', dp_in = ''path'', dp_required = True\<rparr>,
            \<lparr>dp_type = ''string'', dp_description = ''listener id'',
               dp_name = ''name'', dp_in = ''path'', dp_required = False\<rparr>],
          od_responses = [(200, [])]\<rparr>),
        (''delete'', \<lparr>od_produces = [], od_summary = ''Delete configured listener'',
          od_parameters = [\<lparr>dp_type = ''string'', dp_description = ''node id'',
               dp_name = ''node'', dp_in = ''path'', dp_required = True\<rparr>,
            \<lparr>dp_type = ''string'', dp_description = ''listener id'',
               dp_name = ''name'', dp_in = ''path'', dp_required = True\<rparr>],
          od_responses = [(204, [])]\<rparr>)])]"

definition route_docs :: "path_doc list" where
  "route_docs =
     [(''/config/{node}/routes'',
       [(''get'', \<lparr>od_produces = [''application/json''], od_summary = ''Get configured node routes'',
          od_parameters = [\<lparr>dp_type = ''string'', dp_description = ''node id'',
               dp_name = ''node'', dp_in = ''path'', dp_required = True\<rparr>],
          od_responses = [(200, [])]\<rparr>),
        (''put'', \<lparr>od_produces = [], od_summary = ''Create or update node route'',
          od_parameters = [\<lparr>dp_type = ''string'', dp_description = ''node id'',
               dp_name = ''node'', dp_in = ''path'', dp_required = True\<rparr>],
          od_responses = [(204, [])]\<rparr>),
        (''delete'', \<lparr>od_produces = [], od_summary = ''Delete configured routes'',
          od_parameters = [\<lparr>dp_type = ''string'', dp_description = ''node id'',
               dp_name = ''node'', dp_in = ''path'', dp_required = True\<rparr>],
          od_responses = [(204, [])]\<rparr>)])]"

definition secret_docs :: "path_doc list" where
  "secret_docs =
     [(''/config/{node}/secrets'',
       [(''put'', \<lparr>od_produces = [], od_summary = ''Create or update cluster'',
          od_parameters = [\<lparr>dp_type = ''string'', dp_description = ''node id'',
               dp_name = ''node'', dp_in = ''path'', dp_required = True\<rparr>],
          od_responses = [(204, [])]\<rparr>)]),
      (''/config/{node}/secrets/{name}'',
       [(''get'', \<lparr>od_produces = [''application/json''], od_summary = ''Retrieves listeners configuration'',
          od_parameters = [\<lparr>dp_type = ''string'', dp_description = ''node id'',
               dp_name = ''node'', dp_in = ''path'', dp_required = True\<rparr>,
            \<lparr>dp_type = ''string'', dp_description = ''secret id'',
               dp_name = ''name'', dp_in = ''path'', dp_required = False\<rparr>],
          od_responses = [(200, [])]\<rparr>),
        (''delete'', \<lparr>od_produces = [], od_summary = ''Delete configured listener'',
          od_parameters = [\<lparr>dp_type = ''string'', dp_description = ''node id'',
               dp_name = ''node'', dp_in = ''path'', dp_required = True\<rparr>,
            \<lparr>dp_type = ''string'', dp_description = ''secret id'',
               dp_name = ''name'', dp_in = ''path'', dp_required = True\<rparr>],
          od_responses = [(204, [])]\<rparr>)])]"

definition live_docs :: "path_doc list" where
  "live_docs =
     [(''/live/nodes'',
       [(''get'', \<lparr>od_produces = [''application/json''], od_summary = ''Retrieves list of worker nodes'',
          od_parameters = [],
          od_responses = [(200, [])]\<rparr>)]),
      (''/live/nodes/{node}/clusters'',
       [(''get'', \<lparr>od_produces = [''application/json''], od_summary = ''Retrieves list of clusters on node'',
          od_parameters = [\<lparr>dp_type = ''string'', dp_description = ''node id'',
               dp_name = ''node'', dp_in = ''path'', dp_required = True\<rparr>],
          od_responses = [(200, [])]\<rparr>)]),
      (''/live/nodes/{node}/config_dump'',
       [(''get'', \<lparr>od_produces = [''application/json''], od_summary = ''Retrieves node config'',
          od_parameters = [\<lparr>dp_type = ''string'', dp_description = ''node id'',
               dp_name = ''node'', dp_in = ''path'', dp_required = True\<rparr>],
          od_responses = [(200, [])]\<rparr>)]),
      (''/live/nodes/{node}/listeners'',
       [(''get'', \<lparr>od_produces = [''application/json''], od_summary = ''Retrieves list of listeners on node'',
          od_parameters = [\<lparr>dp_type = ''string'', dp_description = ''node id'',
               dp_name = ''node'', dp_in = ''path'', dp_required = True\<rparr>],
          od_responses = [(200, [])]\<rparr>)]),
      (''/live/nodes/{node}/logging'',
       [(''get'', \<lparr>od_produces = [''application/json''], od_summary = ''Retrieves logging level'',
          od_parameters = [],
          od_responses = [(200, [])]\<rparr>),
        (''put'', \<lparr>od_produces = [''application/json''], od_summary = ''Change loglevel'',
          od_parameters = [\<lparr>dp_type = ''string'', dp_description = ''node id'',
               dp_name = ''node'', dp_in = ''path'', dp_required = True\<rparr>],
          od_responses = [(200, [])]\<rparr>)]),
      (''/live/nodes/{node}/sync'',
       [(''get'', \<lparr>od_produces = [''application/json''], od_summary = ''Retrieves worker sync status'',
          od_parameters = [],
          od_responses = [(200, [])]\<rparr>)])]"

definition ratelimit_docs :: "path_doc list" where
  "ratelimit_docs =
     [(''/ratelimit/{domain}'',
       [(''get'', \<lparr>od_produces = [], od_summary = ''get configured ratelimits'',
          od_parameters = [\<lparr>dp_type = ''string'', dp_description = ''domain'',
               dp_name = ''domain'', dp_in = ''path'', dp_required = False\<rparr>],
          od_responses = [(200, [])]\<rparr>),
        (''put'', \<lparr>od_produces = [], od_summary = ''Delete rate limit'',
          od_parameters = [\<lparr>dp_type = ''string'', dp_description = ''node id'',
               dp_name = ''domain'', dp_in = ''path'', dp_required = True\<rparr>],
          od_responses = [(204, [])]\<rparr>)])]"

definition documented_paths :: "path_doc list" where
  "documented_paths =
     auth_docs @ node_docs_table @ cluster_docs @ endpoint_docs @ interface_docs @ listener_docs @
     route_docs @ secret_docs @ live_docs @ ratelimit_docs"

section \<open>Serving the document\<close>

record swaggerInfo =
  sw_Version :: string
  sw_Host :: string
  sw_BasePath :: string
  sw_Schemes :: "string list"
  sw_Title :: string
  sw_Description :: string

definition SwaggerInfo :: swaggerInfo where
  "SwaggerInfo =
     \<lparr>sw_Version = ''1.0'', sw_Host = [], sw_BasePath = ''/api/v1'', sw_Schemes = [],
      sw_Title = ''envoy manager REST API'', sw_Description = ''envoy manager server''\<rparr>"

text \<open>\<open>strings.Replace(description, "\n", "\\n", -1)\<close>\<close>

definition escape_newlines :: "string \<Rightarrow> string" where
  "escape_newlines text =
     concat (map (\<lambda>c. if c = CHR 0x0A then [CHR 0x5C, CHR ''n''] else [c]) text)"

text \<open>The document text, the parsing and the execution of the template are arguments.\<close>

definition ReadDoc ::
    "(string \<Rightarrow> string + 'tpl) \<Rightarrow> ('tpl \<Rightarrow> swaggerInfo \<Rightarrow> string + string) \<Rightarrow> string \<Rightarrow> swaggerInfo \<Rightarrow> string" where
  "ReadDoc parse execute text info =
     (let sInfo = info\<lparr>sw_Description := escape_newlines (sw_Description info)\<rparr> in
      case parse text of
        Inl err \<Rightarrow> text
      | Inr t \<Rightarrow> (case execute t sInfo of Inl err \<Rightarrow> text | Inr tpl \<Rightarrow> tpl))"

section \<open>What the document declares\<close>

definition operations_of :: "path_doc list \<Rightarrow> (string \<times> string) list" where
  "operations_of docs = concat (map (\<lambda>(path, ops). map (\<lambda>(method, _). (method, path)) ops) docs)"

text \<open>The names between braces in a documented path.\<close>

fun braces :: "string option \<Rightarrow> string \<Rightarrow> string list" where
  "braces acc [] = []"
| "braces None (c # cs) = (if c = CHR ''{'' then braces (Some []) cs else braces None cs)"
| "braces (Some acc) (c # cs) =
     (if c = CHR ''}'' then acc # braces None cs else braces (Some (acc @ [c])) cs)"

definition path_names :: "operation_doc \<Rightarrow> string list" where
  "path_names doc = map dp_name [p \<leftarrow> od_parameters doc. dp_in p = ''path'']"

text \<open>The parameters a path has and its documentation does not name, and the ones it names and the
  path does not have.\<close>

definition parameter_gaps :: "path_doc list \<Rightarrow> (string \<times> string \<times> string list \<times> string list) list" where
  "parameter_gaps docs =
     [(method, path, missing, extra).
        (path, ops) \<leftarrow> docs, (method, doc) \<leftarrow> ops,
        missing \<leftarrow> [[n \<leftarrow> braces None path. n \<notin> set (path_names doc)]],
        extra \<leftarrow> [[n \<leftarrow> path_names doc. n \<notin> set (braces None path)]],
        missing \<noteq> [] \<or> extra \<noteq> []]"

lemma operations_of_append [simp]: "operations_of (a @ b) = operations_of a @ operations_of b"
  by (simp add: operations_of_def)

lemma parameter_gaps_append [simp]: "parameter_gaps (a @ b) = parameter_gaps a @ parameter_gaps b"
  by (simp add: parameter_gaps_def)

lemma escape_newlines_single_line: "CHR 0x0A \<notin> set (escape_newlines text)"
  by (auto simp: escape_newlines_def)

end
