(* ===== verification/Routes.thy ===== *)
theory Routes
  imports ApiDocs LiveApi AgentApi
begin

text \<open>
  The routes of the management API: the tables \<open>main.go\<close> registers, group by group, as method,
  pattern and handler.  The lemmas compare them with the operations the API documentation
  declares and with the pre-flight requests a browser makes.  Dispatching a request to a route is
  the router library's work and no part of the model.
\<close>

section \<open>The routing tables\<close>

type_synonym route = "string \<times> string \<times> string"

definition live_routes :: "route list" where
  "live_routes =
     [(''GET'', ''/nodes'', ''GetLiveNodes''),
      (''GET'', ''/nodes/:node/listeners'', ''GetLiveListeners''),
      (''GET'', ''/nodes/:node/clusters'', ''GetLiveClusters''),
      (''GET'', ''/nodes/:node/config_dump'', ''GetLiveConfig''),
      (''GET'', ''/nodes/:node/logging'', ''GetLiveLogging''),
      (''GET'', ''/nodes/:node/sync'', ''GetLiveSyncStatus''),
      (''PUT'', ''/nodes/:node/logging'', ''PutLiveLogging''),
      (''OPTIONS'', ''/nodes/:node/logging'', ''OptionsLiveLogging'')]"

definition config_routes :: "route list" where
  "config_routes =
     [(''GET'', ''/:node/listeners/*name'', ''GetConfigListeners''),
      (''GET'', ''/:node/clusters/*name'', ''GetConfigClusters''),
      (''GET'', ''/:node/endpoints/*name'', ''GetConfigEndpoints''),
      (''DELETE'', ''/:node/listeners/:name'', ''DeleteConfigListeners''),
      (''DELETE'', ''/:node/clusters/:name'', ''DeleteConfigClusters''),
      (''DELETE'', ''/:node/endpoints/:name'', ''DeleteConfigEndpoints''),
      (''DELETE'', ''/:node'', ''DeleteConfigNodes''),
      (''PUT'', ''/:node/listeners/'', ''PutConfigListeners''),
      (''OPTIONS'', ''/:node/listeners/*name'', ''OptionsConfigListeners''),
      (''PUT'', ''/:node/clusters/'', ''PutConfigClusters''),
      (''OPTIONS'', ''/:node/clusters/*name'', ''OptionsConfigClusters''),
      (''PUT'', ''/:node/endpoints/'', ''PutConfigEndpoints''),
      (''PUT'', ''/:node/endpoints/:name'', ''PutConfigEndpointsNamed''),
      (''OPTIONS'', ''/:node/endpoints/:name'', ''OptionsConfigEndpoints''),
      (''OPTIONS'', ''/:node/endpoints/'', ''OptionsConfigEndpoints''),
      (''PUT'', ''/:node'', ''PutConfigNode''),
      (''OPTIONS'', ''/:node'', ''OptionsConfigNode''),
      (''GET'', ''/:node/interfaces'', ''GetConfigInterfaces''),
      (''PUT'', ''/:node/interfaces'', ''PutConfigInterfaces''),
      (''OPTIONS'', ''/:node/interfaces'', ''OptionsConfigInterfaces''),
      (''DELETE'', ''/:node/interfaces'', ''DeleteConfigInterfaces''),
      (''GET'', ''/:node/routes'', ''GetConfigRoutes''),
      (''PUT'', ''/:node/routes'', ''PutConfigRoutes''),
      (''OPTIONS'', ''/:node/routes'', ''OptionsConfigRoutes''),
      (''DELETE'', ''/:node/routes'', ''DeleteConfigRoutes''),
      (''GET'', ''/'', ''GetConfigNode''),
      (''GET'', ''/:node/secrets/*name'', ''GetConfigSecrets''),
      (''PUT'', ''/:node/secrets/'', ''PutConfigSecrets''),
      (''DELETE'', ''/:node/secrets/:name'', ''DeleteConfigSecrets''),
      (''OPTIONS'', ''/:node/secrets/*name'', ''OptionsConfigSecrets''),
      (''GET'', ''/:node/configstatus'', ''GetConfigStatus''),
      (''OPTIONS'', ''/:node/configstatus'', ''OptionsConfigStatus'')]"

definition ratelimit_routes :: "route list" where
  "ratelimit_routes =
     [(''GET'', ''/*domain'', ''GetRateLimit''),
      (''PUT'', ''/:domain'', ''PutRateLimit''),
      (''DELETE'', ''/:domain'', ''DeleteRateLimit''),
      (''OPTIONS'', ''/'', ''OptionsRateLimit''),
      (''OPTIONS'', ''/:domain'', ''OptionsRateLimit'')]"

definition authz_routes :: "route list" where
  "authz_routes =
     [(''GET'', ''/'', ''GetConfigAuthz''),
      (''PUT'', ''/'', ''PutConfigAuthz''),
      (''OPTIONS'', ''/'', ''OptionsAuthz'')]"

definition authzs3_routes :: "route list" where
  "authzs3_routes =
     [(''GET'', ''/'', ''GetConfigAuthzS3''),
      (''PUT'', ''/'', ''PutConfigAuthzS3''),
      (''OPTIONS'', ''/'', ''OptionsAuthzS3'')]"

definition rest_routes :: "(string \<times> route list) list" where
  "rest_routes =
     [(''/api/v1/live'', live_routes), (''/api/v1/config'', config_routes),
      (''/api/v1/ratelimit'', ratelimit_routes), (''/api/v1/authz'', authz_routes),
      (''/api/v1/authzs3'', authzs3_routes)]"

text \<open>The routes of the node agent, which listens on port 9902.\<close>

definition agent_routes :: "route list" where
  "agent_routes =
     [(''GET'', ''/interface'', ''GetLocalInterfaces''),
      (''PUT'', ''/interface'', ''SetLocalInterface''),
      (''DELETE'', ''/interface'', ''DelLocalInterface''),
      (''GET'', ''/route'', ''GetLocalRoutes''),
      (''PUT'', ''/route'', ''SetLocalRoute''),
      (''DELETE'', ''/route'', ''DelLocalRoute'')]"

section \<open>Routes and documentation\<close>

text \<open>A pattern as the documentation writes it: \<open>:name\<close> and \<open>*name\<close> become \<open>{name}\<close>.\<close>

fun swagger_path :: "bool \<Rightarrow> string \<Rightarrow> string" where
  "swagger_path inside [] = (if inside then ''}'' else [])"
| "swagger_path inside (c # cs) =
     (if c = CHR ''/'' then (if inside then ''}/'' else ''/'') @ swagger_path False cs
      else if c = CHR '':'' \<or> c = CHR ''*'' then CHR ''{'' # swagger_path True cs
      else c # swagger_path inside cs)"

definition doc_method :: "string \<Rightarrow> string" where
  "doc_method m = (if m = ''GET'' then ''get'' else if m = ''PUT'' then ''put''
                   else if m = ''DELETE'' then ''delete'' else m)"

text \<open>The operations the groups register, at their full paths; \<open>OPTIONS\<close> is not documented.\<close>

definition routed_operations :: "(string \<times> route list) list \<Rightarrow> (string \<times> string) list" where
  "routed_operations groups =
     [(doc_method m, base @ swagger_path False pattern).
        (base, routes) \<leftarrow> groups, (m, pattern, _) \<leftarrow> routes, m \<noteq> ''OPTIONS'']"

definition documented_operations :: "(string \<times> string) list" where
  "documented_operations =
     map (\<lambda>(m, path). (m, sw_BasePath SwaggerInfo @ path)) (operations_of documented_paths)"

definition without :: "'a list \<Rightarrow> 'a list \<Rightarrow> 'a list" where
  "without xs ys = [x \<leftarrow> xs. x \<notin> set ys]"


section \<open>Pre-flight requests\<close>

text \<open>Every request the second pattern matches is matched by the first: segment by segment, a
  parameter takes any segment and a final catch-all the whole rest.\<close>

fun covers :: "string list \<Rightarrow> string list \<Rightarrow> bool" where
  "covers [] [] = True"
| "covers [] (s # ss) = False"
| "covers (p # ps) [] = False"
| "covers (p # ps) (s # ss) =
     (if take 1 p = ''*'' then ps = []
      else if take 1 p = '':'' then s \<noteq> [] \<and> take 1 s \<noteq> ''*'' \<and> covers ps ss
      else p = s \<and> covers ps ss)"

definition preflighted :: "route list \<Rightarrow> route \<Rightarrow> bool" where
  "preflighted routes r = (case r of (m, pattern, _) \<Rightarrow>
     list_ex (\<lambda>(m', q, _). m' = ''OPTIONS'' \<and> covers (go_split q ''/'') (go_split pattern ''/'')) routes)"

fun allowed_methods :: "live_reply list \<Rightarrow> string list" where
  "allowed_methods [CorsPreflight status headers] =
     (case map_of headers ''Access-Control-Allow-Methods'' of
        None \<Rightarrow> [] | Some ms \<Rightarrow> go_split ms '', '')"
| "allowed_methods _ = []"

text \<open>The headers of \<open>options_reply\<close>, and the requests a browser sends only after a pre-flight request.\<close>

definition cors_headers :: "(string \<times> string) list" where
  "cors_headers =
     [(''Access-Control-Allow-Origin'', ''*''), (''Access-Control-Allow-Methods'', ''GET, PUT, OPTIONS, DELETE''),
      (''Access-Control-Allow-Headers'', ''content-type''), (''Content-Type'', ''text/plain'')]"

definition changing :: "route list \<Rightarrow> route list" where
  "changing routes = [(m, p, h) \<leftarrow> routes. m = ''PUT'' \<or> m = ''DELETE'']"

lemma options_reply_cors: "options_reply = replies [CorsPreflight 204 cors_headers]"
  by (simp add: options_reply_def cors_headers_def)

lemma changing_preflighted:
  "list_all (\<lambda>(base, routes). list_all (preflighted routes) (changing routes)) rest_routes"
  by code_simp

lemma changing_allowed:
  "list_all (\<lambda>(base, routes). list_all (\<lambda>(m, p, h). m \<in> set (allowed_methods [CorsPreflight 204 cors_headers]))
     (changing routes)) rest_routes"
  by code_simp

text \<open>
  For every route that stores or deletes, the same group has an \<open>OPTIONS\<close> route for the same
  requests, and the answer of the \<open>OPTIONS\<close> handlers allows the method: a browser client reaches
  every changing operation of the API.
\<close>

theorem every_change_preflighted:
  "list_all (\<lambda>(base, routes). list_all (preflighted routes) (changing routes)) rest_routes \<and>
   options_reply = replies [CorsPreflight 204 cors_headers] \<and>
   list_all (\<lambda>(base, routes). list_all (\<lambda>(m, p, h). m \<in> set (allowed_methods [CorsPreflight 204 cors_headers]))
       (changing routes)) rest_routes"
  using changing_preflighted options_reply_cors changing_allowed by blast

section \<open>Requests to the node agent\<close>

text \<open>Every change the API forwards is sent with a method and to a path that the agent routes.\<close>

lemma forwarded_changes_routed:
  "\<exists>verb path msg h. (verb, CHR ''/'' # path, h) \<in> set agent_routes \<and> PutConfigInterfaces = forward_change verb path msg"
  "\<exists>verb path msg h. (verb, CHR ''/'' # path, h) \<in> set agent_routes \<and> DeleteConfigInterfaces = forward_change verb path msg"
  "\<exists>verb path msg h. (verb, CHR ''/'' # path, h) \<in> set agent_routes \<and> PutConfigRoutes = forward_change verb path msg"
  "\<exists>verb path msg h. (verb, CHR ''/'' # path, h) \<in> set agent_routes \<and> DeleteConfigRoutes = forward_change verb path msg"
  unfolding PutConfigInterfaces_def DeleteConfigInterfaces_def PutConfigRoutes_def DeleteConfigRoutes_def
  by (rule exI, rule exI, rule exI, rule exI, rule conjI [rotated], rule refl, simp add: agent_routes_def)+

end
