(* ===== verification/Spec2Isabelle.thy ===== *)
theory Spec2Isabelle
  imports RateLimitWindow Reload ControlPlane ApiProps AccessLogSql LiveClusters AgentApi SecretView
    ServerViews WorkerSync Rollout XdsBoot AccessLogStreams WatchSystem ApiRaces RateLimitConcurrent
    RateLimitExpiry FleetSystem Routes
begin

text \<open>
  Verification of envoy-management, a control plane for fleets of Envoy proxies (Go, under
  \<open>src/\<close>).  Its programs share one MongoDB database.  The REST API (\<open>rapi/rapi.go\<close>) stores
  nodes, listeners, clusters, endpoints, secrets, rate limits and authorization rules.  The
  control plane (\<open>main.go\<close>) watches the nodes, translates a changed node's documents into
  Envoy's messages (\<open>loader/mongoloader.go\<close>, over the types of \<open>types/types.go\<close>) and hands
  them to go-control-plane's snapshot cache.  Three more servers answer Envoy's calls: rate
  limiting (\<open>ratelimit.go\<close>, \<open>ratelimit/\<close>), authorization (\<open>authz.go\<close>, \<open>authz/\<close>) and
  authorization of S3 requests (\<open>authzs3.go\<close>, \<open>authzs3/\<close>); each loads its configuration from
  the database and watches its collection.  A fourth (\<open>als.go\<close>, \<open>accesslogs/\<close>) stores the
  access logs Envoy streams to it, and an agent on each node (\<open>ipmgmt_server.go\<close>, \<open>ipmgmt/\<close>)
  changes the node's interfaces and routes at the API's request.

  Theories, from the bottom:

  \<^item> \<open>Prelude\<close>: Go's integers as words, panics as values (\<open>panic + 'a\<close>, \<open>bind_go\<close>, \<open>deref\<close>,
    \<open>index_go\<close>), loops as \<open>traverse\<close> and \<open>foldM\<close>, with their simplification and elimination
    rules in the collections \<open>go_simps\<close> and \<open>go_elims\<close>.
  \<^item> \<open>GoStrings\<close>: the functions of the packages \<open>strings\<close>, \<open>strconv\<close> and \<open>net/textproto\<close> that
    the code calls, on byte strings (one char is one byte).
  \<^item> \<open>ExtAuth\<close>: check requests and responses of Envoy's external authorization, and the
    contract \<open>verdict_writer\<close> of the two \<open>setStatus\<close> functions.
  \<^item> \<open>Authz\<close>, \<open>AuthzS3\<close>: the services.  \<open>az_check\<close> and \<open>s3_check\<close> are the \<open>Check\<close> methods branch
    by branch; their specifications are the list of matching rules, of which the last decides,
    and the parsers of access keys on the signature formats.  \<open>load_users_tick\<close> is one tick of
    \<open>loadUsers\<close>.
  \<^item> \<open>RLConfig\<close>, \<open>RateLimit\<close>: loading the limits (refined to \<open>spec_domain\<close>) and
    \<open>ShouldRateLimit\<close> over an environment of clock, local cache and Redis.
  \<^item> \<open>RateLimitExact\<close>, \<open>RateLimitWindow\<close>: what the service promises when its store counts
    (\<open>exact_store\<close>): the local cache is invisible, a window's limit is enforced exactly, and
    which requests share a counter.  \<open>RateLimitConcurrent\<close> splits the check of a limit into its turns and
    interleaves them: the invariant \<open>counting\<close> holds for every schedule.  \<open>RateLimitExpiry\<close> lets the clock
    go on, counters expire and the cache lose entries: the store still \<open>follows\<close> a counter per window.
  \<^item> \<open>Process\<close>, \<open>Reload\<close>: main loops over a change stream.  The contract \<open>reloader\<close> is
    interpreted on the loops of all three servers; the S3 server's two goroutines are a step
    relation \<open>s3_step\<close> with its reachable states.
  \<^item> \<open>Drivers\<close>, \<open>ServerViews\<close>: the Redis client over the library's constructors, the time-outs, the
    servers' live endpoints, and what the authorization server's zero time-out does to its rules.
  \<^item> \<open>Flags\<close>: the package \<open>flag\<close> on the command lines of all programs, with the tables their \<open>init\<close>
    functions register; printed settings are read back.
  \<^item> \<open>Boot\<close>, \<open>XdsBoot\<close>: \<open>main\<close> of the four programs that watch the database, as a list of stages over
    the library calls and a step relation \<open>boot_step\<close> in which the goroutines it has started run at any
    time.  \<open>boot_inv\<close> says that every running state has run a prefix of the program; from it follow
    when a program comes up (\<open>boot_weight\<close> falls with every step), what it can answer before, and how
    it ends.  \<open>XdsBoot\<close> adds the proxies' requests.
  \<^item> \<open>WatchSystem\<close>: a server, its collection, its change stream and the writers at once.  The
    contract \<open>watched\<close> extends \<open>reloader\<close> and is interpreted on the three servers.
  \<^item> \<open>ApiTypes\<close>, \<open>EnvoyTypes\<close>: the stored configuration and the messages it becomes.
  \<^item> \<open>LoaderCluster\<close>, \<open>LoaderTls\<close>, \<open>LoaderRoutes\<close>, \<open>LoaderListener\<close>, \<open>LoaderProps\<close>: the
    loader, one definition per block of the code's functions, with round trips, panic
    conditions and structure.
  \<^item> \<open>ControlPlane\<close>: \<open>loadNodeConfig\<close>, the load at start, the watch loop as a function to the
    list of snapshot calls, the gateway.
  \<^item> \<open>RestApi\<close>, \<open>ApiProps\<close>: the configuration handlers as functions on a trace of database
    writes and replies, and what they guarantee to the control plane.
  \<^item> \<open>ApiRaces\<close>: the phases of a request for endpoints, two of them interleaved, and the time-outs of
    the endpoint handlers' calls.
  \<^item> \<open>ApiDocs\<close>, \<open>Routes\<close>: the paths of the generated documentation (\<open>docs/docs.go\<close>) and the routing
    tables of \<open>main.go\<close> and the agent, compared with each other and with the pre-flight requests.
  \<^item> \<open>Rollout\<close>: a stored listener or cluster from the handler through the version event to the
    snapshot, and what a deleted node's proxies are served.
  \<^item> \<open>FleetSystem\<close>: any number of API requests, write by write, and the control plane's loop, query by
    query, as a step relation over one database; \<open>fleet_inv\<close> says that a node nothing on its way
    concerns is served the snapshot of its stored documents, and the stream can always be drained.
  \<^item> \<open>WorkerSync\<close>: the callbacks that note what version a proxy runs, and the sync status.
  \<^item> \<open>SecretView\<close>: the listing of secrets, over the loader's messages and the X.509 functions.
  \<^item> \<open>GoIO\<close>: reading lines from a buffer or an HTTP body that may break off, and the numbers of
    \<open>strconv\<close> and \<open>fmt\<close>.  A loop that ends at \<open>io.EOF\<close> only is \<open>read_loop\<close>, a
    \<open>partial_function\<close> on options whose value is \<open>None\<close> when it never ends; \<open>read_loop_EOF\<close> shows
    that it ends on a body that ends.
  \<^item> \<open>LiveApi\<close>, \<open>LiveProps\<close>, \<open>LiveClusters\<close>: the handlers that parse the texts of Envoy's admin
    interface, when they return, and round trips with those texts.
  \<^item> \<open>NodeAgent\<close>, \<open>NodeAgentProps\<close>: the agent's handlers over the outputs of \<open>nmcli\<close>, with the
    commands they run as a trace.
  \<^item> \<open>AgentApi\<close>: the API's handlers that forward to the agent, composed with the agent's.
  \<^item> \<open>AccessLog\<close>, \<open>AccessLogServer\<close>: log entries and their conversion, the choice of back end,
    the documents and statements written, and the stream handler.
  \<^item> \<open>AccessLogProps\<close>, \<open>AccessLogSql\<close>: what the handler stores (refined to \<open>message_writes\<close>), when
    it dies and that it does not return; the SQL row of an entry, read back and forged.
  \<^item> \<open>AccessLogStreams\<close>: \<open>main\<close> of \<open>als.go\<close>, and the handlers of all streams at once, an entry at a time.
    A ghost field records the stream of each write; the invariant \<open>streams_inv\<close> says what each stream has
    stored, and a stream served alone is \<open>StreamAccessLogs\<close>.

  Conventions.  A struct is a record, a nil-able pointer an \<open>option\<close>, a Go map a partial
  function (a finite map where the code compares or ranges over it), a mutex-protected field an
  atomic cell.  Code outside the repository is a parameter: the environment records \<open>rl_env\<close>,
  \<open>loader_env\<close>, \<open>cp_env\<close>, \<open>rapi_env\<close>, \<open>crypto_env\<close>, \<open>view_env\<close>, \<open>radix_env\<close>, \<open>client_env\<close>,
  \<open>als_env\<close>, \<open>agent_env\<close>, \<open>forward_env\<close>, \<open>boot_env\<close>, and the outcomes of queries in the change events.
  \<open>time.ParseDuration\<close> (it rounds through floating point), \<open>net.ParseIP\<close> (it differs between
  releases), \<open>net.ParseCIDR\<close> and the X.509 functions are parameters too.  Where a statement needs
  the documented behaviour of such code it is a named hypothesis: \<open>exact_store\<close> of Redis,
  \<open>expired_context_fails\<close>, \<open>replace_reported\<close>, \<open>version_event\<close>, \<open>endpoint_store\<close> and \<open>fleet_store\<close> of MongoDB, and
  \<open>expiring_store\<close> of the clock, Redis and the local cache, which forget.  The rules
  of \<open>watch_step\<close> have a change stream deliver the writes made after it was opened, in order.

  Loops.  A loop over a stream of changes is a function of the list of events it has seen.  The
  handler of access logs never returns, so \<open>StreamAccessLogs\<close> is indexed by the number of rounds:
  the statements hold for every number, so no bound has to be chosen.  The loops over HTTP bodies
  are \<open>read_loop\<close>; all other recursion is structural or has a termination proof by length.

  The properties are numbered in the order of the manifest; each witness applies its property
  to concrete data.  Most describe what the code does right; those that state a defect (a
  crash, an outage that empties a node, a counter shared between domains) are also listed as
  findings.  Theorems with a witness that the manifest does not name belong to the library.

  Not modelled: time passing between the reading of the clock and the commands to Redis of one
  request (under \<open>exact_store\<close> no time passes at all), and under a time-out (a time-out is positive or
  not); logging and the callbacks that only log; the dispatch of requests to routes, which gin and
  gRPC do; the three further copies of \<open>RunServer\<close> (authorization, S3 authorization, rate limits) apart
  from the listening they share with \<open>RunManagementServer\<close> (\<open>run_goroutine\<close>); and the text of the JSON
  the document's template fills in.  What else of \<open>src/\<close> no definition models are imports, variable
  declarations and the comments the documentation is generated from.
\<close>

section \<open>From a stored limit to the answers of the rate-limit server\<close>

text \<open>A request on one entry of a stored limit.\<close>

definition limit_request :: "RLEntry \<Rightarrow> u32 \<Rightarrow> RateLimitRequest" where
  "limit_request e addend = \<lparr>rq_Domain = rl_Domain e,
     rq_Descriptors = [[\<lparr>de_Key = rl_Key e, de_Value = rl_Value e\<rparr>]], rq_HitsAddend = addend\<rparr>"

definition entry_counter :: "RLEntry \<Rightarrow> string" where
  "entry_counter e = rl_Key e @ rl_Value e"

lemma loaded_entry:
  assumes "entry_unit uv e = Some u"
  shows "\<exists>cc. rl_loadConfig uv Some (Inr [e]) = Inr cc \<and>
    cc_Domains cc (rl_Domain e) = Some \<lparr>cd_Entries =
      [entry_counter e \<mapsto> \<lparr>ce_Limit = rl_Limit e, ce_Unit = u\<rparr>], cd_StripDomain = rl_StripDomain e\<rparr>"
  using assms
  by (auto simp: rl_loadConfig_def add_entry_def entry_unit_def entry_counter_def Let_def
      split: option.splits if_splits)



section \<open>From a changed limit to the rate-limit server\<close>

text \<open>
  MongoDB reports what a write did in the collection's change stream: \<open>ReplaceOne\<close> with upsert is
  an "insert" when no document matched its filter and a "replace" when one did (the documented
  operation types).  \<open>matches\<close> is whether one does, \<open>event\<close> the event of a write.
\<close>

definition replace_reported ::
    "('w \<Rightarrow> string \<Rightarrow> bson_filter \<Rightarrow> bool) \<Rightarrow> (db_op \<Rightarrow> 'w \<Rightarrow> 'doc change_event) \<Rightarrow> bool" where
  "replace_reported matches event \<longleftrightarrow>
     (\<forall>c f d w. ev_decoded (event (ReplaceOne c f d) w) \<and>
        ev_operation (event (ReplaceOne c f d) w) =
          Some (if matches w c f then ''replace'' else ''insert''))"

text \<open>C35: a limit put through the API is answered 204, but only a limit with a new domain, key and
  value reaches the running rate-limit server: when the put changes a stored limit, the write
  is reported as a replacement, to which the server's loop does not react, so that it goes on
  enforcing the old limit.\<close>

theorem changed_limit_not_loaded:
  assumes "replace_reported matches event" and "2 \<le> length domain"
    and "fst (exec env (ReplaceOne ''ratelimits'' (rate_limit_filter domain e) (RateLimitDoc (e\<lparr>rl_Domain := domain\<rparr>))) w)"
  shows "let st = PutRateLimit env domain (Inr e) \<lparr>api_world = w, api_ops = [], api_replies = []\<rparr>;
             change = event (hd (api_ops st)) w
    in api_replies st = [Status 204] \<and> length (api_ops st) = 1 \<and>
      (\<exists>m'. rl_watch uv decode change m = Running m' \<and>
        (if matches w ''ratelimits'' (rate_limit_filter domain e) then m' = m
         else rl_config (rlm_server m') = installed (rl_loadConfig uv decode (ev_found change))))"
  using assms
  by (cases "matches w ''ratelimits'' (rate_limit_filter domain e)")
    (auto simp: PutRateLimit_def name_guard_def run_op_def reply_def replace_reported_def rl_watch_def
      rl_SetConfig_def rate_limit_filter_def Let_def split: prod.splits)

text \<open>A collection of limits, with the writes of the API and their events.\<close>

fun limits_after :: "db_op \<Rightarrow> RLEntry list \<Rightarrow> RLEntry list" where
  "limits_after (ReplaceOne c f (RateLimitDoc e)) docs = e # [d \<leftarrow> docs. rate_limit_filter (rl_Domain d) d \<noteq> f]"
| "limits_after op docs = docs"

definition limits_match :: "RLEntry list \<Rightarrow> string \<Rightarrow> bson_filter \<Rightarrow> bool" where
  "limits_match docs c f \<longleftrightarrow> f \<in> (\<lambda>d. rate_limit_filter (rl_Domain d) d) ` set docs"

definition limits_event :: "db_op \<Rightarrow> RLEntry list \<Rightarrow> RLEntry change_event" where
  "limits_event op docs = \<lparr>ev_decoded = True,
     ev_operation = (case op of ReplaceOne c f d \<Rightarrow> Some (if limits_match docs c f then ''replace'' else ''insert'')
                     | _ \<Rightarrow> Some ''delete''),
     ev_found = Inr (limits_after op docs)\<rparr>"

definition limits_env :: "RLEntry list rapi_env" where
  "limits_env = \<lparr>exec = \<lambda>op docs. (True, limits_after op docs),
     find_endpoints = \<lambda>q w. (None, w), find_ratelimits = \<lambda>q w. (Inr (map Some w), w),
     find_authz = \<lambda>w. ((\<lparr>az_Config = \<lparr>az_Domains = None\<rparr>\<rparr>, True), w),
     find_authzs3 = \<lambda>w. ((\<lparr>s3_Config = \<lparr>s3_Namespaces = None\<rparr>\<rparr>, True), w),
     new_uuid = \<lambda>w. (''u'', w), marshals = \<lambda>d. True, parse_ip = \<lambda>a. True\<rparr>"

lemma limits_reported: "replace_reported limits_match limits_event"
  by (simp add: replace_reported_def limits_event_def)

theorem changed_limit_not_loaded_witness:
  "let st = PutRateLimit limits_env ''web'' (Inr (limit_doc 9)) \<lparr>api_world = [limit_doc 5], api_ops = [], api_replies = []\<rparr>
   in api_replies st = [Status 204] \<and> api_world st = [limit_doc 9] \<and>
     (\<exists>m. rl_start minute_table Some (Inr [limit_doc 5]) = Running m \<and>
       rl_watch minute_table Some (limits_event (hd (api_ops st)) [limit_doc 5]) m = Running m)"
proof -
  obtain m where m: "rl_start minute_table Some (Inr [limit_doc 5]) = Running m"
    by (simp add: rl_start_def rl_loadConfig_def)
  have matched: "limits_match [limit_doc 5] ''ratelimits'' (rate_limit_filter ''web'' (limit_doc 9))"
    by (simp add: limits_match_def rate_limit_filter_def limit_doc_def)
  have stored: "api_world (PutRateLimit limits_env ''web'' (Inr (limit_doc 9))
      \<lparr>api_world = [limit_doc 5], api_ops = [], api_replies = []\<rparr>) = [limit_doc 9]"
    by (simp add: PutRateLimit_def name_guard_def run_op_def reply_def limits_env_def rate_limit_filter_def
        limit_doc_def Let_def)
  show ?thesis
    using changed_limit_not_loaded [OF limits_reported, of "''web''" limits_env "limit_doc 9" "[limit_doc 5]"
        minute_table Some m] matched stored m
    by (auto simp: limits_env_def Let_def)
qed

end
